theory Spec2Isabelle
  imports Main
begin

section \<open>Tokens, AST nodes and the parse context\<close>

text \<open>
  The token kinds that \<^verbatim>\<open>parser.cpp\<close> tests for.  The enumeration itself is declared by
  the tokenizer; \<open>TokenIdEof\<close> is the sentinel the lexer appends (the parser never
  names it, it only compares the cursor with the index of the last token).
\<close>

datatype TokenId =
    TokenIdEof
  | TokenIdSymbol
  | TokenIdKeywordFn
  | TokenIdKeywordReturn
  | TokenIdKeywordMut
  | TokenIdKeywordConst
  | TokenIdKeywordExtern
  | TokenIdKeywordUnreachable
  | TokenIdKeywordPub
  | TokenIdKeywordExport
  | TokenIdKeywordAs
  | TokenIdKeywordUse
  | TokenIdLParen
  | TokenIdRParen
  | TokenIdComma
  | TokenIdStar
  | TokenIdLBrace
  | TokenIdRBrace
  | TokenIdStringLiteral
  | TokenIdSemicolon
  | TokenIdNumberLiteral
  | TokenIdPlus
  | TokenIdColon
  | TokenIdArrow
  | TokenIdDash
  | TokenIdNumberSign
  | TokenIdBoolOr
  | TokenIdBoolAnd
  | TokenIdBinOr
  | TokenIdBinAnd
  | TokenIdBinXor
  | TokenIdCmpEq
  | TokenIdBang
  | TokenIdTilde
  | TokenIdCmpNotEq
  | TokenIdCmpLessThan
  | TokenIdCmpGreaterThan
  | TokenIdCmpLessOrEq
  | TokenIdCmpGreaterOrEq
  | TokenIdBitShiftLeft
  | TokenIdBitShiftRight
  | TokenIdSlash
  | TokenIdPercent

text \<open>
  A token: its kind, the byte range of its lexeme in the source buffer, and the line and
  column where it starts.  The field \<^verbatim>\<open>id\<close> of the source is \<open>token_id\<close> here.
\<close>

record Token =
  token_id :: TokenId
  start_pos :: nat
  end_pos :: nat
  start_line :: nat
  start_column :: nat

datatype BinOpType =
    BinOpTypeInvalid
  | BinOpTypeBoolOr
  | BinOpTypeBoolAnd
  | BinOpTypeCmpEq
  | BinOpTypeCmpNotEq
  | BinOpTypeCmpLessThan
  | BinOpTypeCmpGreaterThan
  | BinOpTypeCmpLessOrEq
  | BinOpTypeCmpGreaterOrEq
  | BinOpTypeBinOr
  | BinOpTypeBinXor
  | BinOpTypeBinAnd
  | BinOpTypeBitShiftLeft
  | BinOpTypeBitShiftRight
  | BinOpTypeAdd
  | BinOpTypeSub
  | BinOpTypeMult
  | BinOpTypeDiv
  | BinOpTypeMod

datatype PrefixOp =
    PrefixOpInvalid
  | PrefixOpBoolNot
  | PrefixOpBinNot
  | PrefixOpNegation

datatype FnProtoVisibMod =
    FnProtoVisibModPrivate
  | FnProtoVisibModPub
  | FnProtoVisibModExport

text \<open>
  The payload of a \<^verbatim>\<open>Type\<close> node: the tag \<^verbatim>\<open>data.type.type\<close> with the fields each
  variant sets (the name of a primitive; constness and child of a pointer).
\<close>

datatype 'n AstNodeType =
    AstNodeTypeTypePrimitive string
  | AstNodeTypeTypePointer bool 'n

text \<open>
  The tagged union \<^verbatim>\<open>node->data\<close>, one constructor per \<^verbatim>\<open>NodeType\<close>; \<open>'n\<close> is the type
  of child nodes.  A \<^verbatim>\<open>ZigList<AstNode *> *directives\<close> field is a pointer that may be
  null, hence an \<open>option\<close>; \<^verbatim>\<open>return_expr.expr\<close> likewise.
\<close>

datatype 'n NodeData =
    NodeTypeRoot "'n list"
  | NodeTypeRootExportDecl string string "'n list option"
  | NodeTypeFnProto "'n list option" FnProtoVisibMod string "'n list" 'n
  | NodeTypeFnDef 'n 'n
  | NodeTypeFnDecl 'n
  | NodeTypeParamDecl string 'n
  | NodeTypeType "'n AstNodeType"
  | NodeTypeBlock "'n list"
  | NodeTypeExternBlock "'n list option" "'n list"
  | NodeTypeDirective string string
  | NodeTypeReturnExpr "'n option"
  | NodeTypeBinOpExpr 'n BinOpType 'n
  | NodeTypeCastExpr 'n 'n
  | NodeTypeNumberLiteral string
  | NodeTypeStringLiteral string
  | NodeTypeUnreachable
  | NodeTypeSymbol string
  | NodeTypePrefixOpExpr PrefixOp 'n
  | NodeTypeFnCallExpr 'n "'n list"
  | NodeTypeUse string "'n list option"

datatype AstNode = AstNode (line: nat) (column: nat) (data: "AstNode NodeData")

text \<open>
  The parse session.  Of the fields of \<^verbatim>\<open>struct ParseContext\<close>, \<^verbatim>\<open>owner\<close> and
  \<^verbatim>\<open>err_color\<close> are only handed to the error reporter and \<^verbatim>\<open>root\<close> is written once when
  parsing is over; the model keeps the source buffer, the tokens and the pending
  directive list.
\<close>

record ParseContext =
  buf :: string
  tokens :: "Token list"
  directive_list :: "AstNode list option"

text \<open>
  Every way a call can end without returning a node.  \<open>ErrorMsg l c m\<close> is the
  diagnostic \<^verbatim>\<open>ast_error\<close> hands to the reporter before \<^verbatim>\<open>exit(EXIT_FAILURE)\<close>: start
  line, start column and message.  \<open>IndexOutOfRange\<close> is \<^verbatim>\<open>tokens->at(i)\<close> past the
  end of the list, \<open>AssertionFailed\<close> a failed \<^verbatim>\<open>assert\<close>, \<open>NullPointer\<close> a null
  pointer where the source uses a node or a list without testing it, and \<open>OutOfFuel\<close>
  the model's own bound on recursion depth and loop iterations.
\<close>

datatype error =
    ErrorMsg nat nat string
  | IndexOutOfRange
  | AssertionFailed
  | NullPointer
  | OutOfFuel

type_synonym 'a result = "error + 'a"

text \<open>
  Sequencing of calls that may abort: the first failure ends the whole computation, as
  \<^verbatim>\<open>exit\<close> does.
\<close>

definition bind :: "'a result \<Rightarrow> ('a \<Rightarrow> 'b result) \<Rightarrow> 'b result" where
  "bind m f = (case m of Inl e \<Rightarrow> Inl e | Inr x \<Rightarrow> f x)"

section \<open>Helpers of the parser\<close>

text \<open>
  Modelled from the spec: \<^verbatim>\<open>ZigList<Token>::at\<close> is declared in \<^verbatim>\<open>list.hpp\<close>; the
  lexer must append an EOF sentinel so that the cursor can always be dereferenced. A read
  past the end of the list is a failure of its own here.
\<close>

definition token_at :: "ParseContext \<Rightarrow> nat \<Rightarrow> Token result" where
  "token_at pc i = (if i < length (tokens pc) then Inr (tokens pc ! i) else Inl IndexOutOfRange)"

definition ast_error :: "Token \<Rightarrow> string \<Rightarrow> error" where
  "ast_error token msg = ErrorMsg (start_line token) (start_column token) msg"

text \<open>
  Node creation.  The source allocates a zeroed node of a given \<^verbatim>\<open>NodeType\<close>, stamps its
  position and fills the payload afterwards; the model passes the finished payload.
\<close>

definition ast_create_node :: "AstNode NodeData \<Rightarrow> Token \<Rightarrow> AstNode" where
  "ast_create_node d first_token = AstNode (start_line first_token) (start_column first_token) d"

definition ast_create_node_with_node :: "AstNode NodeData \<Rightarrow> AstNode \<Rightarrow> AstNode" where
  "ast_create_node_with_node d other_node = AstNode (line other_node) (column other_node) d"

definition ast_create_void_type_node :: "Token \<Rightarrow> AstNode" where
  "ast_create_void_type_node token =
     ast_create_node (NodeTypeType (AstNodeTypeTypePrimitive ''void'')) token"

definition ast_buf_from_token :: "ParseContext \<Rightarrow> Token \<Rightarrow> string" where
  "ast_buf_from_token pc token =
     take (end_pos token - start_pos token) (drop (start_pos token) (buf pc))"

text \<open>
  The loop of \<^verbatim>\<open>parse_string_literal\<close>: \<open>i\<close> runs from \<open>start_pos + 1\<close> while
  \<open>i < end_pos - 1\<close>; the state is the \<^verbatim>\<open>escape\<close> flag and the output buffer.  A
  backslash followed by a byte the \<^verbatim>\<open>switch\<close> has no case for appends nothing.
\<close>

function parse_string_literal_loop :: "string \<Rightarrow> nat \<Rightarrow> nat \<Rightarrow> bool \<Rightarrow> string \<Rightarrow> bool \<times> string" where
  "parse_string_literal_loop src i stop escape out =
     (if i < stop then
        (let c = src ! i in
         if escape then
           parse_string_literal_loop src (i + 1) stop False
             (if c = CHR 0x5C then out @ [CHR 0x5C]
              else if c = CHR ''r'' then out @ [CHR 0x0D]
              else if c = CHR ''n'' then out @ [CHR 0x0A]
              else if c = CHR ''t'' then out @ [CHR 0x09]
              else if c = CHR 0x22 then out @ [CHR 0x22]
              else out)
         else if c = CHR 0x5C then parse_string_literal_loop src (i + 1) stop True out
         else parse_string_literal_loop src (i + 1) stop False (out @ [c]))
      else (escape, out))"
  by pat_completeness auto
termination
  by (relation "measure (\<lambda>(src, i, stop, escape, out). stop - i)") auto

declare parse_string_literal_loop.simps [simp del]

definition parse_string_literal :: "ParseContext \<Rightarrow> Token \<Rightarrow> string result" where
  "parse_string_literal pc token =
     (case parse_string_literal_loop (buf pc) (start_pos token + 1) (end_pos token - 1) False []
      of (escape, out) \<Rightarrow> if escape then Inl AssertionFailed else Inr out)"

definition ast_invalid_token_error :: "ParseContext \<Rightarrow> Token \<Rightarrow> error" where
  "ast_invalid_token_error pc token =
     ast_error token (''invalid token: '' @ [CHR 0x27] @ ast_buf_from_token pc token @ [CHR 0x27])"

definition ast_expect_token :: "ParseContext \<Rightarrow> Token \<Rightarrow> TokenId \<Rightarrow> unit result" where
  "ast_expect_token pc token tid =
     (if token_id token \<noteq> tid then Inl (ast_invalid_token_error pc token) else Inr ())"

section \<open>Directives, types and parameter lists\<close>

definition ast_parse_directive :: "ParseContext \<Rightarrow> nat \<Rightarrow> (AstNode \<times> nat) result" where
  "ast_parse_directive pc token_index =
     bind (token_at pc token_index) (\<lambda>number_sign.
     bind (ast_expect_token pc number_sign TokenIdNumberSign) (\<lambda>_.
     bind (token_at pc (token_index + 1)) (\<lambda>name_symbol.
     bind (ast_expect_token pc name_symbol TokenIdSymbol) (\<lambda>_.
     bind (token_at pc (token_index + 2)) (\<lambda>l_paren.
     bind (ast_expect_token pc l_paren TokenIdLParen) (\<lambda>_.
     bind (token_at pc (token_index + 3)) (\<lambda>param_str.
     bind (ast_expect_token pc param_str TokenIdStringLiteral) (\<lambda>_.
     bind (parse_string_literal pc param_str) (\<lambda>param.
     bind (token_at pc (token_index + 4)) (\<lambda>r_paren.
     bind (ast_expect_token pc r_paren TokenIdRParen) (\<lambda>_.
       Inr (ast_create_node (NodeTypeDirective (ast_buf_from_token pc name_symbol) param) number_sign,
            token_index + 5))))))))))))"

lemma bind_simps [simp]:
  "bind (Inl e) f = Inl e"
  "bind (Inr x) f = f x"
  by (simp_all add: bind_def)

lemma bind_cong [cong]: "m = m' \<Longrightarrow> bind m f = bind m' f"
  by simp

lemma bind_fundef_cong [fundef_cong]:
  "m = m' \<Longrightarrow> (\<And>x. m' = Inr x \<Longrightarrow> f x = f' x) \<Longrightarrow> bind m f = bind m' f'"
  by (cases m') simp_all

lemma bind_eq_Inr: "bind m f = Inr r \<longleftrightarrow> (\<exists>x. m = Inr x \<and> f x = Inr r)"
  by (cases m) simp_all

lemma bind_eq_Inl: "bind m f = Inl e \<longleftrightarrow> m = Inl e \<or> (\<exists>x. m = Inr x \<and> f x = Inl e)"
  by (cases m) simp_all

lemma token_at_eq_Inr: "token_at pc i = Inr t \<longleftrightarrow> i < length (tokens pc) \<and> t = tokens pc ! i"
  by (auto simp: token_at_def)

lemma ast_expect_token_eq_Inr: "ast_expect_token pc t tid = Inr u \<longleftrightarrow> token_id t = tid"
  by (simp add: ast_expect_token_def)

lemma ast_parse_directive_index:
  "ast_parse_directive pc i = Inr (node, j) \<Longrightarrow> j = i + 5 \<and> i + 4 < length (tokens pc)"
  by (auto simp: ast_parse_directive_def bind_eq_Inr token_at_eq_Inr)

function ast_parse_directives :: "ParseContext \<Rightarrow> nat \<Rightarrow> AstNode list \<Rightarrow> (AstNode list \<times> nat) result" where
  "ast_parse_directives pc token_index directives =
     bind (token_at pc token_index) (\<lambda>token.
       if token_id token = TokenIdNumberSign then
         bind (ast_parse_directive pc token_index) (\<lambda>(directive_node, new_token_index).
           ast_parse_directives pc new_token_index (directives @ [directive_node]))
       else Inr (directives, token_index))"
  by pat_completeness auto
termination
  by (relation "measure (\<lambda>(pc, i, ds). length (tokens pc) - i)")
     (auto dest!: ast_parse_directive_index)

declare ast_parse_directives.simps [simp del]


text \<open>
  \<^verbatim>\<open>Type : token(Symbol) | PointerType | token(Unreachable)\<close>;
  \<^verbatim>\<open>PointerType : token(Star) token(Const) Type | token(Star) token(Mut) Type\<close>.
\<close>

function ast_parse_type :: "ParseContext \<Rightarrow> nat \<Rightarrow> (AstNode \<times> nat) result" where
  "ast_parse_type pc token_index =
     bind (token_at pc token_index) (\<lambda>token.
       if token_id token = TokenIdKeywordUnreachable then
         Inr (ast_create_node (NodeTypeType (AstNodeTypeTypePrimitive ''unreachable'')) token,
              token_index + 1)
       else if token_id token = TokenIdSymbol then
         Inr (ast_create_node (NodeTypeType (AstNodeTypeTypePrimitive (ast_buf_from_token pc token))) token,
              token_index + 1)
       else if token_id token = TokenIdStar then
         bind (token_at pc (token_index + 1)) (\<lambda>const_or_mut.
         bind (if token_id const_or_mut = TokenIdKeywordMut then Inr False
               else if token_id const_or_mut = TokenIdKeywordConst then Inr True
               else Inl (ast_invalid_token_error pc const_or_mut)) (\<lambda>is_const.
         bind (ast_parse_type pc (token_index + 2)) (\<lambda>(child_type, new_token_index).
           Inr (ast_create_node (NodeTypeType (AstNodeTypeTypePointer is_const child_type)) token,
                new_token_index))))
       else Inl (ast_invalid_token_error pc token))"
  by pat_completeness auto
termination
  by (relation "measure (\<lambda>(pc, i). length (tokens pc) - i)")
     (auto simp: token_at_eq_Inr)

declare ast_parse_type.simps [simp del]

lemma ast_parse_type_index:
  "ast_parse_type pc i = Inr (node, j) \<Longrightarrow> i < j \<and> j \<le> length (tokens pc)"
proof (induction pc i arbitrary: node j rule: ast_parse_type.induct)
  case (1 pc i)
  from "1.prems" "1.IH" show ?case
    apply (subst (asm) ast_parse_type.simps)
    apply (auto simp: bind_eq_Inr token_at_eq_Inr split: if_splits)
       apply fastforce+
    done
qed

text \<open>\<^verbatim>\<open>ParamDecl : token(Symbol) token(Colon) Type\<close>\<close>

definition ast_parse_param_decl :: "ParseContext \<Rightarrow> nat \<Rightarrow> (AstNode \<times> nat) result" where
  "ast_parse_param_decl pc token_index =
     bind (token_at pc token_index) (\<lambda>param_name.
     bind (ast_expect_token pc param_name TokenIdSymbol) (\<lambda>_.
     bind (token_at pc (token_index + 1)) (\<lambda>colon.
     bind (ast_expect_token pc colon TokenIdColon) (\<lambda>_.
     bind (ast_parse_type pc (token_index + 2)) (\<lambda>(type, new_token_index).
       Inr (ast_create_node (NodeTypeParamDecl (ast_buf_from_token pc param_name) type) param_name,
            new_token_index))))))"

lemma ast_parse_param_decl_index:
  "ast_parse_param_decl pc i = Inr (node, j) \<Longrightarrow> i < j \<and> j \<le> length (tokens pc)"
  by (auto simp: ast_parse_param_decl_def bind_eq_Inr dest!: ast_parse_type_index)

text \<open>
  The \<^verbatim>\<open>for (;;)\<close> loop of \<^verbatim>\<open>ast_parse_param_decl_list\<close>: one parameter, then \<^verbatim>\<open>)\<close>
  or a comma.
\<close>

function ast_parse_param_decl_list_loop ::
  "ParseContext \<Rightarrow> nat \<Rightarrow> AstNode list \<Rightarrow> (AstNode list \<times> nat) result" where
  "ast_parse_param_decl_list_loop pc token_index params =
     bind (ast_parse_param_decl pc token_index) (\<lambda>(param_decl_node, token_index1).
     bind (token_at pc token_index1) (\<lambda>token.
       if token_id token = TokenIdRParen then Inr (params @ [param_decl_node], token_index1 + 1)
       else
         bind (ast_expect_token pc token TokenIdComma) (\<lambda>_.
           ast_parse_param_decl_list_loop pc (token_index1 + 1) (params @ [param_decl_node]))))"
  by pat_completeness auto
termination
  by (relation "measure (\<lambda>(pc, i, ps). length (tokens pc) - i)")
     (auto simp: token_at_eq_Inr dest!: ast_parse_param_decl_index)

declare ast_parse_param_decl_list_loop.simps [simp del]

definition ast_parse_param_decl_list ::
  "ParseContext \<Rightarrow> nat \<Rightarrow> AstNode list \<Rightarrow> (AstNode list \<times> nat) result" where
  "ast_parse_param_decl_list pc token_index params =
     bind (token_at pc token_index) (\<lambda>l_paren.
     bind (ast_expect_token pc l_paren TokenIdLParen) (\<lambda>_.
     bind (token_at pc (token_index + 1)) (\<lambda>token.
       if token_id token = TokenIdRParen then Inr (params, token_index + 2)
       else ast_parse_param_decl_list_loop pc (token_index + 1) params)))"


section \<open>Expressions\<close>

text \<open>
  \<^verbatim>\<open>ast_parse_expression\<close> and \<^verbatim>\<open>ast_parse_block\<close> are declared ahead of the functions
  that call them.  Every function of the expression grammar takes the expression parser it
  calls back into as its first argument \<open>E\<close>; the recursion is closed in
  \<open>ast_parse_expression\<close> below.  A result is the node (\<open>None\<close> for \<^verbatim>\<open>nullptr\<close>) and
  the value of \<^verbatim>\<open>*token_index\<close> on return.
\<close>

type_synonym expr_parser = "ParseContext \<Rightarrow> nat \<Rightarrow> bool \<Rightarrow> (AstNode option \<times> nat) result"

text \<open>
  A call with \<^verbatim>\<open>mandatory = true\<close> returns a node or aborts, and the source stores the
  pointer without testing it.  Node slots of the model have no null: a null result there
  is the failure \<open>NullPointer\<close>.
\<close>

definition mandatory_node :: "(AstNode option \<times> nat) result \<Rightarrow> (AstNode \<times> nat) result" where
  "mandatory_node r =
     bind r (\<lambda>(node, token_index). case node of None \<Rightarrow> Inl NullPointer | Some n \<Rightarrow> Inr (n, token_index))"

text \<open>\<^verbatim>\<open>ExpressionStatement : Expression token(Semicolon)\<close>\<close>

definition ast_parse_expression_statement :: "expr_parser \<Rightarrow> ParseContext \<Rightarrow> nat \<Rightarrow> (AstNode \<times> nat) result" where
  "ast_parse_expression_statement E pc token_index =
     bind (mandatory_node (E pc token_index True)) (\<lambda>(expr_node, token_index1).
     bind (token_at pc token_index1) (\<lambda>semicolon.
     bind (ast_expect_token pc semicolon TokenIdSemicolon) (\<lambda>_.
       Inr (expr_node, token_index1 + 1))))"

definition ast_parse_statement :: "expr_parser \<Rightarrow> ParseContext \<Rightarrow> nat \<Rightarrow> (AstNode \<times> nat) result" where
  "ast_parse_statement E pc token_index = ast_parse_expression_statement E pc token_index"

text \<open>
  The \<^verbatim>\<open>for (;;)\<close> loop of \<^verbatim>\<open>ast_parse_block\<close>, with a bound on its iterations: every
  statement ends with a semicolon, so a block has fewer statements than there are tokens.
\<close>

primrec ast_parse_block_loop ::
  "nat \<Rightarrow> expr_parser \<Rightarrow> ParseContext \<Rightarrow> nat \<Rightarrow> AstNode list \<Rightarrow> (AstNode list \<times> nat) result" where
  "ast_parse_block_loop 0 E pc token_index statements = Inl OutOfFuel"
| "ast_parse_block_loop (Suc fuel) E pc token_index statements =
     bind (token_at pc token_index) (\<lambda>token.
       if token_id token = TokenIdRBrace then Inr (statements, token_index + 1)
       else
         bind (ast_parse_statement E pc token_index) (\<lambda>(statement_node, token_index1).
           ast_parse_block_loop fuel E pc token_index1 (statements @ [statement_node])))"

text \<open>\<^verbatim>\<open>Block : token(LBrace) many(Statement) token(RBrace)\<close>\<close>

definition ast_parse_block :: "expr_parser \<Rightarrow> expr_parser" where
  "ast_parse_block E pc token_index mandatory =
     bind (token_at pc token_index) (\<lambda>l_brace.
       if token_id l_brace \<noteq> TokenIdLBrace then
         (if mandatory then Inl (ast_invalid_token_error pc l_brace) else Inr (None, token_index))
       else
         bind (ast_parse_block_loop (length (tokens pc)) E pc (token_index + 1) [])
           (\<lambda>(statements, token_index1).
             Inr (Some (ast_create_node (NodeTypeBlock statements) l_brace), token_index1)))"

text \<open>
  The \<^verbatim>\<open>for (;;)\<close> loop of \<^verbatim>\<open>ast_parse_fn_call_param_list\<close>, bounded like the loop of
  a block: every argument is followed by a comma or by the closing parenthesis.
\<close>

primrec ast_parse_fn_call_param_list_loop ::
  "nat \<Rightarrow> expr_parser \<Rightarrow> ParseContext \<Rightarrow> nat \<Rightarrow> AstNode list \<Rightarrow> (AstNode list \<times> nat) result" where
  "ast_parse_fn_call_param_list_loop 0 E pc token_index params = Inl OutOfFuel"
| "ast_parse_fn_call_param_list_loop (Suc fuel) E pc token_index params =
     bind (mandatory_node (E pc token_index True)) (\<lambda>(expr, token_index1).
     bind (token_at pc token_index1) (\<lambda>token.
       if token_id token = TokenIdRParen then Inr (params @ [expr], token_index1 + 1)
       else
         bind (ast_expect_token pc token TokenIdComma) (\<lambda>_.
           ast_parse_fn_call_param_list_loop fuel E pc (token_index1 + 1) (params @ [expr]))))"

definition ast_parse_fn_call_param_list ::
  "expr_parser \<Rightarrow> ParseContext \<Rightarrow> nat \<Rightarrow> AstNode list \<Rightarrow> (AstNode list \<times> nat) result" where
  "ast_parse_fn_call_param_list E pc token_index params =
     bind (token_at pc token_index) (\<lambda>l_paren.
     bind (ast_expect_token pc l_paren TokenIdLParen) (\<lambda>_.
     bind (token_at pc (token_index + 1)) (\<lambda>token.
       if token_id token = TokenIdRParen then Inr (params, token_index + 2)
       else ast_parse_fn_call_param_list_loop (length (tokens pc)) E pc (token_index + 1) params)))"

text \<open>\<^verbatim>\<open>GroupedExpression : token(LParen) Expression token(RParen)\<close>\<close>

definition ast_parse_grouped_expr :: "expr_parser \<Rightarrow> expr_parser" where
  "ast_parse_grouped_expr E pc token_index mandatory =
     bind (token_at pc token_index) (\<lambda>l_paren.
       if token_id l_paren \<noteq> TokenIdLParen then
         (if mandatory then Inl (ast_invalid_token_error pc l_paren) else Inr (None, token_index))
       else
         bind (E pc (token_index + 1) True) (\<lambda>(node, token_index1).
         bind (token_at pc token_index1) (\<lambda>r_paren.
         bind (ast_expect_token pc r_paren TokenIdRParen) (\<lambda>_.
           Inr (node, token_index1 + 1)))))"

text \<open>
  \<^verbatim>\<open>PrimaryExpression : token(Number) | token(String) | token(Unreachable) | GroupedExpression | Block | token(Symbol)\<close>
\<close>

definition ast_parse_primary_expr :: "expr_parser \<Rightarrow> expr_parser" where
  "ast_parse_primary_expr E pc token_index mandatory =
     bind (token_at pc token_index) (\<lambda>token.
       if token_id token = TokenIdNumberLiteral then
         Inr (Some (ast_create_node (NodeTypeNumberLiteral (ast_buf_from_token pc token)) token),
              token_index + 1)
       else if token_id token = TokenIdStringLiteral then
         bind (parse_string_literal pc token) (\<lambda>string.
           Inr (Some (ast_create_node (NodeTypeStringLiteral string) token), token_index + 1))
       else if token_id token = TokenIdKeywordUnreachable then
         Inr (Some (ast_create_node NodeTypeUnreachable token), token_index + 1)
       else if token_id token = TokenIdSymbol then
         Inr (Some (ast_create_node (NodeTypeSymbol (ast_buf_from_token pc token)) token),
              token_index + 1)
       else
         bind (ast_parse_block E pc token_index False) (\<lambda>(block_node, token_index1).
           case block_node of Some b \<Rightarrow> Inr (Some b, token_index1)
           | None \<Rightarrow>
               bind (ast_parse_grouped_expr E pc token_index1 False) (\<lambda>(grouped_expr_node, token_index2).
                 case grouped_expr_node of Some g \<Rightarrow> Inr (Some g, token_index2)
                 | None \<Rightarrow>
                     if \<not> mandatory then Inr (None, token_index2)
                     else Inl (ast_invalid_token_error pc token))))"

text \<open>
  \<^verbatim>\<open>FnCallExpression : PrimaryExpression token(LParen) list(Expression, token(Comma)) token(RParen) | PrimaryExpression\<close>
\<close>

definition ast_parse_fn_call_expr :: "expr_parser \<Rightarrow> expr_parser" where
  "ast_parse_fn_call_expr E pc token_index mandatory =
     bind (ast_parse_primary_expr E pc token_index mandatory) (\<lambda>(primary_expr_opt, token_index1).
       case primary_expr_opt of None \<Rightarrow> Inr (None, token_index1)
       | Some primary_expr \<Rightarrow>
           bind (token_at pc token_index1) (\<lambda>l_paren.
             if token_id l_paren \<noteq> TokenIdLParen then Inr (Some primary_expr, token_index1)
             else
               bind (ast_parse_fn_call_param_list E pc token_index1 []) (\<lambda>(params, token_index2).
                 Inr (Some (ast_create_node_with_node (NodeTypeFnCallExpr primary_expr params) primary_expr),
                      token_index2))))"

fun tok_to_prefix_op :: "Token \<Rightarrow> PrefixOp" where
  "tok_to_prefix_op token =
     (case token_id token of
        TokenIdBang \<Rightarrow> PrefixOpBoolNot
      | TokenIdDash \<Rightarrow> PrefixOpNegation
      | TokenIdTilde \<Rightarrow> PrefixOpBinNot
      | _ \<Rightarrow> PrefixOpInvalid)"

text \<open>\<^verbatim>\<open>PrefixOp : token(Not) | token(Dash) | token(Tilde)\<close>\<close>

definition ast_parse_prefix_op :: "ParseContext \<Rightarrow> nat \<Rightarrow> bool \<Rightarrow> (PrefixOp \<times> nat) result" where
  "ast_parse_prefix_op pc token_index mandatory =
     bind (token_at pc token_index) (\<lambda>token.
       let result = tok_to_prefix_op token in
       if result = PrefixOpInvalid then
         (if mandatory then Inl (ast_invalid_token_error pc token) else Inr (PrefixOpInvalid, token_index))
       else Inr (result, token_index + 1))"

text \<open>\<^verbatim>\<open>PrefixOpExpression : PrefixOp FnCallExpression | FnCallExpression\<close>\<close>

definition ast_parse_prefix_op_expr :: "expr_parser \<Rightarrow> expr_parser" where
  "ast_parse_prefix_op_expr E pc token_index mandatory =
     bind (token_at pc token_index) (\<lambda>token.
     bind (ast_parse_prefix_op pc token_index False) (\<lambda>(prefix_op, token_index1).
       if prefix_op = PrefixOpInvalid then ast_parse_fn_call_expr E pc token_index1 mandatory
       else
         bind (mandatory_node (ast_parse_fn_call_expr E pc token_index1 True)) (\<lambda>(primary_expr, token_index2).
           Inr (Some (ast_create_node (NodeTypePrefixOpExpr prefix_op primary_expr) token),
                token_index2))))"

text \<open>\<^verbatim>\<open>CastExpression : PrefixOpExpression token(as) Type | PrefixOpExpression\<close>\<close>

definition ast_parse_cast_expression :: "expr_parser \<Rightarrow> expr_parser" where
  "ast_parse_cast_expression E pc token_index mandatory =
     bind (ast_parse_prefix_op_expr E pc token_index mandatory) (\<lambda>(prefix_op_expr_opt, token_index1).
       case prefix_op_expr_opt of None \<Rightarrow> Inr (None, token_index1)
       | Some prefix_op_expr \<Rightarrow>
           bind (token_at pc token_index1) (\<lambda>as_kw.
             if token_id as_kw \<noteq> TokenIdKeywordAs then Inr (Some prefix_op_expr, token_index1)
             else
               bind (ast_parse_type pc (token_index1 + 1)) (\<lambda>(type, token_index2).
                 Inr (Some (ast_create_node (NodeTypeCastExpr prefix_op_expr type) as_kw),
                      token_index2))))"


fun tok_to_mult_op :: "Token \<Rightarrow> BinOpType" where
  "tok_to_mult_op token =
     (case token_id token of
        TokenIdStar \<Rightarrow> BinOpTypeMult
      | TokenIdSlash \<Rightarrow> BinOpTypeDiv
      | TokenIdPercent \<Rightarrow> BinOpTypeMod
      | _ \<Rightarrow> BinOpTypeInvalid)"

text \<open>\<^verbatim>\<open>MultiplyOperator : token(Star) | token(Slash) | token(Percent)\<close>\<close>

definition ast_parse_mult_op :: "ParseContext \<Rightarrow> nat \<Rightarrow> bool \<Rightarrow> (BinOpType \<times> nat) result" where
  "ast_parse_mult_op pc token_index mandatory =
     bind (token_at pc token_index) (\<lambda>token.
       let result = tok_to_mult_op token in
       if result = BinOpTypeInvalid then
         (if mandatory then Inl (ast_invalid_token_error pc token) else Inr (BinOpTypeInvalid, token_index))
       else Inr (result, token_index + 1))"

text \<open>
  \<^verbatim>\<open>MultiplyExpression : CastExpression MultiplyOperator CastExpression | CastExpression\<close>
\<close>

definition ast_parse_mult_expr :: "expr_parser \<Rightarrow> expr_parser" where
  "ast_parse_mult_expr E pc token_index mandatory =
     bind (ast_parse_cast_expression E pc token_index mandatory) (\<lambda>(operand_1_opt, token_index1).
       case operand_1_opt of None \<Rightarrow> Inr (None, token_index1)
       | Some operand_1 \<Rightarrow>
           bind (token_at pc token_index1) (\<lambda>token.
           bind (ast_parse_mult_op pc token_index1 False) (\<lambda>(mult_op, token_index2).
             if mult_op = BinOpTypeInvalid then Inr (Some operand_1, token_index2)
             else
               bind (mandatory_node (ast_parse_cast_expression E pc token_index2 True)) (\<lambda>(operand_2, token_index3).
                 Inr (Some (ast_create_node (NodeTypeBinOpExpr operand_1 mult_op operand_2) token),
                      token_index3)))))"

fun tok_to_add_op :: "Token \<Rightarrow> BinOpType" where
  "tok_to_add_op token =
     (case token_id token of
        TokenIdPlus \<Rightarrow> BinOpTypeAdd
      | TokenIdDash \<Rightarrow> BinOpTypeSub
      | _ \<Rightarrow> BinOpTypeInvalid)"

text \<open>\<^verbatim>\<open>AdditionOperator : token(Plus) | token(Minus)\<close>\<close>

definition ast_parse_add_op :: "ParseContext \<Rightarrow> nat \<Rightarrow> bool \<Rightarrow> (BinOpType \<times> nat) result" where
  "ast_parse_add_op pc token_index mandatory =
     bind (token_at pc token_index) (\<lambda>token.
       let result = tok_to_add_op token in
       if result = BinOpTypeInvalid then
         (if mandatory then Inl (ast_invalid_token_error pc token) else Inr (BinOpTypeInvalid, token_index))
       else Inr (result, token_index + 1))"

text \<open>
  \<^verbatim>\<open>AdditionExpression : MultiplyExpression AdditionOperator MultiplyExpression | MultiplyExpression\<close>
\<close>

definition ast_parse_add_expr :: "expr_parser \<Rightarrow> expr_parser" where
  "ast_parse_add_expr E pc token_index mandatory =
     bind (ast_parse_mult_expr E pc token_index mandatory) (\<lambda>(operand_1_opt, token_index1).
       case operand_1_opt of None \<Rightarrow> Inr (None, token_index1)
       | Some operand_1 \<Rightarrow>
           bind (token_at pc token_index1) (\<lambda>token.
           bind (ast_parse_add_op pc token_index1 False) (\<lambda>(add_op, token_index2).
             if add_op = BinOpTypeInvalid then Inr (Some operand_1, token_index2)
             else
               bind (mandatory_node (ast_parse_mult_expr E pc token_index2 True)) (\<lambda>(operand_2, token_index3).
                 Inr (Some (ast_create_node (NodeTypeBinOpExpr operand_1 add_op operand_2) token),
                      token_index3)))))"

fun tok_to_bit_shift_op :: "Token \<Rightarrow> BinOpType" where
  "tok_to_bit_shift_op token =
     (case token_id token of
        TokenIdBitShiftLeft \<Rightarrow> BinOpTypeBitShiftLeft
      | TokenIdBitShiftRight \<Rightarrow> BinOpTypeBitShiftRight
      | _ \<Rightarrow> BinOpTypeInvalid)"

text \<open>\<^verbatim>\<open>BitShiftOperator : token(BitShiftLeft) | token(BitShiftRight)\<close>\<close>

definition ast_parse_bit_shift_op :: "ParseContext \<Rightarrow> nat \<Rightarrow> bool \<Rightarrow> (BinOpType \<times> nat) result" where
  "ast_parse_bit_shift_op pc token_index mandatory =
     bind (token_at pc token_index) (\<lambda>token.
       let result = tok_to_bit_shift_op token in
       if result = BinOpTypeInvalid then
         (if mandatory then Inl (ast_invalid_token_error pc token) else Inr (BinOpTypeInvalid, token_index))
       else Inr (result, token_index + 1))"

text \<open>
  \<^verbatim>\<open>BitShiftExpression : AdditionExpression BitShiftOperator AdditionExpression | AdditionExpression\<close>
\<close>

definition ast_parse_bit_shift_expr :: "expr_parser \<Rightarrow> expr_parser" where
  "ast_parse_bit_shift_expr E pc token_index mandatory =
     bind (ast_parse_add_expr E pc token_index mandatory) (\<lambda>(operand_1_opt, token_index1).
       case operand_1_opt of None \<Rightarrow> Inr (None, token_index1)
       | Some operand_1 \<Rightarrow>
           bind (token_at pc token_index1) (\<lambda>token.
           bind (ast_parse_bit_shift_op pc token_index1 False) (\<lambda>(bit_shift_op, token_index2).
             if bit_shift_op = BinOpTypeInvalid then Inr (Some operand_1, token_index2)
             else
               bind (mandatory_node (ast_parse_add_expr E pc token_index2 True)) (\<lambda>(operand_2, token_index3).
                 Inr (Some (ast_create_node (NodeTypeBinOpExpr operand_1 bit_shift_op operand_2) token),
                      token_index3)))))"

text \<open>
  \<^verbatim>\<open>BinaryAndExpression : BitShiftExpression token(BinAnd) BitShiftExpression | BitShiftExpression\<close>
\<close>

definition ast_parse_bin_and_expr :: "expr_parser \<Rightarrow> expr_parser" where
  "ast_parse_bin_and_expr E pc token_index mandatory =
     bind (ast_parse_bit_shift_expr E pc token_index mandatory) (\<lambda>(operand_1_opt, token_index1).
       case operand_1_opt of None \<Rightarrow> Inr (None, token_index1)
       | Some operand_1 \<Rightarrow>
           bind (token_at pc token_index1) (\<lambda>token.
             if token_id token \<noteq> TokenIdBinAnd then Inr (Some operand_1, token_index1)
             else
               bind (mandatory_node (ast_parse_bit_shift_expr E pc (token_index1 + 1) True)) (\<lambda>(operand_2, token_index2).
                 Inr (Some (ast_create_node (NodeTypeBinOpExpr operand_1 BinOpTypeBinAnd operand_2) token),
                      token_index2))))"

text \<open>
  \<^verbatim>\<open>BinaryXorExpression : BinaryAndExpression token(BinXor) BinaryAndExpression | BinaryAndExpression\<close>
\<close>

definition ast_parse_bin_xor_expr :: "expr_parser \<Rightarrow> expr_parser" where
  "ast_parse_bin_xor_expr E pc token_index mandatory =
     bind (ast_parse_bin_and_expr E pc token_index mandatory) (\<lambda>(operand_1_opt, token_index1).
       case operand_1_opt of None \<Rightarrow> Inr (None, token_index1)
       | Some operand_1 \<Rightarrow>
           bind (token_at pc token_index1) (\<lambda>token.
             if token_id token \<noteq> TokenIdBinXor then Inr (Some operand_1, token_index1)
             else
               bind (mandatory_node (ast_parse_bin_and_expr E pc (token_index1 + 1) True)) (\<lambda>(operand_2, token_index2).
                 Inr (Some (ast_create_node (NodeTypeBinOpExpr operand_1 BinOpTypeBinXor operand_2) token),
                      token_index2))))"

text \<open>
  \<^verbatim>\<open>BinaryOrExpression : BinaryXorExpression token(BinOr) BinaryXorExpression | BinaryXorExpression\<close>
\<close>

definition ast_parse_bin_or_expr :: "expr_parser \<Rightarrow> expr_parser" where
  "ast_parse_bin_or_expr E pc token_index mandatory =
     bind (ast_parse_bin_xor_expr E pc token_index mandatory) (\<lambda>(operand_1_opt, token_index1).
       case operand_1_opt of None \<Rightarrow> Inr (None, token_index1)
       | Some operand_1 \<Rightarrow>
           bind (token_at pc token_index1) (\<lambda>token.
             if token_id token \<noteq> TokenIdBinOr then Inr (Some operand_1, token_index1)
             else
               bind (mandatory_node (ast_parse_bin_xor_expr E pc (token_index1 + 1) True)) (\<lambda>(operand_2, token_index2).
                 Inr (Some (ast_create_node (NodeTypeBinOpExpr operand_1 BinOpTypeBinOr operand_2) token),
                      token_index2))))"

fun tok_to_cmp_op :: "Token \<Rightarrow> BinOpType" where
  "tok_to_cmp_op token =
     (case token_id token of
        TokenIdCmpEq \<Rightarrow> BinOpTypeCmpEq
      | TokenIdCmpNotEq \<Rightarrow> BinOpTypeCmpNotEq
      | TokenIdCmpLessThan \<Rightarrow> BinOpTypeCmpLessThan
      | TokenIdCmpGreaterThan \<Rightarrow> BinOpTypeCmpGreaterThan
      | TokenIdCmpLessOrEq \<Rightarrow> BinOpTypeCmpLessOrEq
      | TokenIdCmpGreaterOrEq \<Rightarrow> BinOpTypeCmpGreaterOrEq
      | _ \<Rightarrow> BinOpTypeInvalid)"

definition ast_parse_comparison_operator :: "ParseContext \<Rightarrow> nat \<Rightarrow> bool \<Rightarrow> (BinOpType \<times> nat) result" where
  "ast_parse_comparison_operator pc token_index mandatory =
     bind (token_at pc token_index) (\<lambda>token.
       let result = tok_to_cmp_op token in
       if result = BinOpTypeInvalid then
         (if mandatory then Inl (ast_invalid_token_error pc token) else Inr (BinOpTypeInvalid, token_index))
       else Inr (result, token_index + 1))"

text \<open>
  \<^verbatim>\<open>ComparisonExpression : BinaryOrExpression ComparisonOperator BinaryOrExpression | BinaryOrExpression\<close>
\<close>

definition ast_parse_comparison_expr :: "expr_parser \<Rightarrow> expr_parser" where
  "ast_parse_comparison_expr E pc token_index mandatory =
     bind (ast_parse_bin_or_expr E pc token_index mandatory) (\<lambda>(operand_1_opt, token_index1).
       case operand_1_opt of None \<Rightarrow> Inr (None, token_index1)
       | Some operand_1 \<Rightarrow>
           bind (token_at pc token_index1) (\<lambda>token.
           bind (ast_parse_comparison_operator pc token_index1 False) (\<lambda>(cmp_op, token_index2).
             if cmp_op = BinOpTypeInvalid then Inr (Some operand_1, token_index2)
             else
               bind (mandatory_node (ast_parse_bin_or_expr E pc token_index2 True)) (\<lambda>(operand_2, token_index3).
                 Inr (Some (ast_create_node (NodeTypeBinOpExpr operand_1 cmp_op operand_2) token),
                      token_index3)))))"

text \<open>
  \<^verbatim>\<open>BoolAndExpression : ComparisonExpression token(BoolAnd) ComparisonExpression | ComparisonExpression\<close>
\<close>

definition ast_parse_bool_and_expr :: "expr_parser \<Rightarrow> expr_parser" where
  "ast_parse_bool_and_expr E pc token_index mandatory =
     bind (ast_parse_comparison_expr E pc token_index mandatory) (\<lambda>(operand_1_opt, token_index1).
       case operand_1_opt of None \<Rightarrow> Inr (None, token_index1)
       | Some operand_1 \<Rightarrow>
           bind (token_at pc token_index1) (\<lambda>token.
             if token_id token \<noteq> TokenIdBoolAnd then Inr (Some operand_1, token_index1)
             else
               bind (mandatory_node (ast_parse_comparison_expr E pc (token_index1 + 1) True)) (\<lambda>(operand_2, token_index2).
                 Inr (Some (ast_create_node (NodeTypeBinOpExpr operand_1 BinOpTypeBoolAnd operand_2) token),
                      token_index2))))"

text \<open>\<^verbatim>\<open>ReturnExpression : token(Return) option(Expression)\<close>\<close>

definition ast_parse_return_expr :: "expr_parser \<Rightarrow> expr_parser" where
  "ast_parse_return_expr E pc token_index mandatory =
     bind (token_at pc token_index) (\<lambda>return_tok.
       if token_id return_tok = TokenIdKeywordReturn then
         bind (E pc (token_index + 1) False) (\<lambda>(expr, token_index1).
           Inr (Some (ast_create_node (NodeTypeReturnExpr expr) return_tok), token_index1))
       else if mandatory then Inl (ast_invalid_token_error pc return_tok)
       else Inr (None, token_index))"

text \<open>
  \<^verbatim>\<open>BoolOrExpression : BoolAndExpression token(BoolOr) BoolAndExpression | BoolAndExpression\<close>
\<close>

definition ast_parse_bool_or_expr :: "expr_parser \<Rightarrow> expr_parser" where
  "ast_parse_bool_or_expr E pc token_index mandatory =
     bind (ast_parse_bool_and_expr E pc token_index mandatory) (\<lambda>(operand_1_opt, token_index1).
       case operand_1_opt of None \<Rightarrow> Inr (None, token_index1)
       | Some operand_1 \<Rightarrow>
           bind (token_at pc token_index1) (\<lambda>token.
             if token_id token \<noteq> TokenIdBoolOr then Inr (Some operand_1, token_index1)
             else
               bind (mandatory_node (ast_parse_bool_and_expr E pc (token_index1 + 1) True)) (\<lambda>(operand_2, token_index2).
                 Inr (Some (ast_create_node (NodeTypeBinOpExpr operand_1 BinOpTypeBoolOr operand_2) token),
                      token_index2))))"

text \<open>
  \<^verbatim>\<open>Expression : BoolOrExpression | ReturnExpression\<close>.  The recursion of the grammar
  (through parentheses, call arguments, \<^verbatim>\<open>return\<close> and blocks) is bounded by \<open>fuel\<close>, the
  depth of nesting still allowed.
\<close>

primrec ast_parse_expression :: "nat \<Rightarrow> expr_parser" where
  "ast_parse_expression 0 pc token_index mandatory = Inl OutOfFuel"
| "ast_parse_expression (Suc fuel) pc token_index mandatory =
     bind (token_at pc token_index) (\<lambda>token.
     bind (ast_parse_return_expr (ast_parse_expression fuel) pc token_index False) (\<lambda>(return_expr, token_index1).
       case return_expr of Some r \<Rightarrow> Inr (Some r, token_index1)
       | None \<Rightarrow>
           bind (ast_parse_bool_or_expr (ast_parse_expression fuel) pc token_index1 False) (\<lambda>(bool_or_expr, token_index2).
             case bool_or_expr of Some b \<Rightarrow> Inr (Some b, token_index2)
             | None \<Rightarrow>
                 if \<not> mandatory then Inr (None, token_index2)
                 else Inl (ast_invalid_token_error pc token))))"


section \<open>Declarations\<close>

text \<open>
  The functions below read and write \<^verbatim>\<open>pc->directive_list\<close>; they return the parse
  context next to the node and the cursor.

  \<^verbatim>\<open>FnProto : many(Directive) option(FnVisibleMod) token(Fn) token(Symbol) ParamDeclList option(token(Arrow) Type)\<close>
\<close>

definition ast_parse_fn_proto ::
  "ParseContext \<Rightarrow> nat \<Rightarrow> bool \<Rightarrow> (AstNode option \<times> nat \<times> ParseContext) result" where
  "ast_parse_fn_proto pc token_index mandatory =
     bind (token_at pc token_index) (\<lambda>token.
     bind (if token_id token = TokenIdKeywordPub then
             bind (token_at pc (token_index + 1)) (\<lambda>fn_token.
             bind (ast_expect_token pc fn_token TokenIdKeywordFn) (\<lambda>_.
               Inr (Some (FnProtoVisibModPub, token_index + 2))))
           else if token_id token = TokenIdKeywordExport then
             bind (token_at pc (token_index + 1)) (\<lambda>fn_token.
             bind (ast_expect_token pc fn_token TokenIdKeywordFn) (\<lambda>_.
               Inr (Some (FnProtoVisibModExport, token_index + 2))))
           else if token_id token = TokenIdKeywordFn then
             Inr (Some (FnProtoVisibModPrivate, token_index + 1))
           else if mandatory then Inl (ast_invalid_token_error pc token)
           else Inr None) (\<lambda>matched.
       case matched of None \<Rightarrow> Inr (None, token_index, pc)
       | Some (visib_mod, token_index1) \<Rightarrow>
           let directives = directive_list pc;
               pc1 = pc\<lparr>directive_list := None\<rparr> in
           bind (token_at pc1 token_index1) (\<lambda>fn_name.
           bind (ast_expect_token pc1 fn_name TokenIdSymbol) (\<lambda>_.
           bind (ast_parse_param_decl_list pc1 (token_index1 + 1) []) (\<lambda>(params, token_index2).
           bind (token_at pc1 token_index2) (\<lambda>arrow.
           bind (if token_id arrow = TokenIdArrow then ast_parse_type pc1 (token_index2 + 1)
                 else Inr (ast_create_void_type_node arrow, token_index2)) (\<lambda>(return_type, token_index3).
             Inr (Some (ast_create_node
                          (NodeTypeFnProto directives visib_mod (ast_buf_from_token pc1 fn_name) params return_type)
                          token),
                  token_index3, pc1))))))))"

text \<open>\<^verbatim>\<open>FnDef : FnProto Block\<close>\<close>

definition ast_parse_fn_def ::
  "expr_parser \<Rightarrow> ParseContext \<Rightarrow> nat \<Rightarrow> bool \<Rightarrow> (AstNode option \<times> nat \<times> ParseContext) result" where
  "ast_parse_fn_def E pc token_index mandatory =
     bind (ast_parse_fn_proto pc token_index mandatory) (\<lambda>(fn_proto_opt, token_index1, pc1).
       case fn_proto_opt of None \<Rightarrow> Inr (None, token_index1, pc1)
       | Some fn_proto \<Rightarrow>
           bind (mandatory_node (ast_parse_block E pc1 token_index1 True)) (\<lambda>(body, token_index2).
             Inr (Some (ast_create_node_with_node (NodeTypeFnDef fn_proto body) fn_proto),
                  token_index2, pc1)))"

text \<open>\<^verbatim>\<open>FnDecl : FnProto token(Semicolon)\<close>\<close>

definition ast_parse_fn_decl ::
  "ParseContext \<Rightarrow> nat \<Rightarrow> (AstNode \<times> nat \<times> ParseContext) result" where
  "ast_parse_fn_decl pc token_index =
     bind (ast_parse_fn_proto pc token_index True) (\<lambda>(fn_proto_opt, token_index1, pc1).
       case fn_proto_opt of None \<Rightarrow> Inl NullPointer
       | Some fn_proto \<Rightarrow>
           bind (token_at pc1 token_index1) (\<lambda>semicolon.
           bind (ast_expect_token pc1 semicolon TokenIdSemicolon) (\<lambda>_.
             Inr (ast_create_node_with_node (NodeTypeFnDecl fn_proto) fn_proto,
                  token_index1 + 1, pc1))))"


lemma ast_parse_directives_index:
  "ast_parse_directives pc i ds = Inr (ds', j) \<Longrightarrow> i \<le> j"
proof (induction pc i ds arbitrary: ds' j rule: ast_parse_directives.induct)
  case (1 pc i ds)
  from "1.prems" "1.IH" show ?case
    apply (subst (asm) ast_parse_directives.simps)
    apply (auto simp: bind_eq_Inr split: if_splits)
    apply (frule ast_parse_directive_index)
    apply fastforce
    done
qed

lemma ast_parse_param_decl_list_loop_index:
  "ast_parse_param_decl_list_loop pc i ps = Inr (ps', j) \<Longrightarrow> i < j"
proof (induction pc i ps arbitrary: ps' j rule: ast_parse_param_decl_list_loop.induct)
  case (1 pc i ps)
  from "1.prems" "1.IH" show ?case
    apply (subst (asm) ast_parse_param_decl_list_loop.simps)
    apply (auto simp: bind_eq_Inr split: if_splits)
    apply (frule ast_parse_param_decl_index, fastforce)+
    done
qed

lemma ast_parse_param_decl_list_index:
  "ast_parse_param_decl_list pc i ps = Inr (ps', j) \<Longrightarrow> i < j"
  by (auto simp: ast_parse_param_decl_list_def bind_eq_Inr split: if_splits
           dest!: ast_parse_param_decl_list_loop_index)

lemma ast_parse_fn_proto_index:
  "ast_parse_fn_proto pc i m = Inr (Some node, j, pc') \<Longrightarrow>
     i < j \<and> pc' = pc\<lparr>directive_list := None\<rparr>"
  by (auto simp: ast_parse_fn_proto_def bind_eq_Inr Let_def
           split: if_splits option.splits dest!: ast_parse_type_index ast_parse_param_decl_list_index)


lemma ast_parse_fn_decl_index:
  "ast_parse_fn_decl pc i = Inr (node, j, pc') \<Longrightarrow>
     i < j \<and> pc' = pc\<lparr>directive_list := None\<rparr>"
  by (auto simp: ast_parse_fn_decl_def bind_eq_Inr split: option.splits
           dest!: ast_parse_fn_proto_index)

text \<open>
  The \<^verbatim>\<open>for (;;)\<close> loop of \<^verbatim>\<open>ast_parse_extern_block\<close>: a fresh pending list, the
  directives, then the closing brace (with no directive pending) or a function
  declaration, which takes the pending list.
\<close>

function ast_parse_extern_block_loop ::
  "ParseContext \<Rightarrow> nat \<Rightarrow> AstNode list \<Rightarrow> (AstNode list \<times> nat \<times> ParseContext) result" where
  "ast_parse_extern_block_loop pc token_index fn_decls =
     bind (token_at pc token_index) (\<lambda>directive_token.
       if directive_list pc \<noteq> None then Inl AssertionFailed
       else
         bind (ast_parse_directives pc token_index []) (\<lambda>(directives, token_index1).
           let pc1 = pc\<lparr>directive_list := Some directives\<rparr> in
           bind (token_at pc1 token_index1) (\<lambda>token.
             if token_id token = TokenIdRBrace then
               (case directive_list pc1 of None \<Rightarrow> Inl NullPointer
                | Some pending \<Rightarrow>
                    if length pending > 0 then Inl (ast_error directive_token ''invalid directive'')
                    else Inr (fn_decls, token_index1 + 1, pc1\<lparr>directive_list := None\<rparr>))
             else
               bind (ast_parse_fn_decl pc1 token_index1) (\<lambda>(child, token_index2, pc2).
                 ast_parse_extern_block_loop pc2 token_index2 (fn_decls @ [child])))))"
  by pat_completeness auto
termination
  by (relation "measure (\<lambda>(pc, i, ds). length (tokens pc) - i)")
     (auto simp: token_at_eq_Inr dest!: ast_parse_fn_decl_index ast_parse_directives_index)

declare ast_parse_extern_block_loop.simps [simp del]

text \<open>
  \<^verbatim>\<open>ExternBlock : many(Directive) token(Extern) token(LBrace) many(FnProtoDecl) token(RBrace)\<close>
\<close>

definition ast_parse_extern_block ::
  "ParseContext \<Rightarrow> nat \<Rightarrow> bool \<Rightarrow> (AstNode option \<times> nat \<times> ParseContext) result" where
  "ast_parse_extern_block pc token_index mandatory =
     bind (token_at pc token_index) (\<lambda>extern_kw.
       if token_id extern_kw \<noteq> TokenIdKeywordExtern then
         (if mandatory then Inl (ast_invalid_token_error pc extern_kw) else Inr (None, token_index, pc))
       else
         let directives = directive_list pc;
             pc1 = pc\<lparr>directive_list := None\<rparr> in
         bind (token_at pc1 (token_index + 1)) (\<lambda>l_brace.
         bind (ast_expect_token pc1 l_brace TokenIdLBrace) (\<lambda>_.
         bind (ast_parse_extern_block_loop pc1 (token_index + 2) []) (\<lambda>(fn_decls, token_index1, pc2).
           Inr (Some (ast_create_node (NodeTypeExternBlock directives fn_decls) extern_kw),
                token_index1, pc2)))))"

text \<open>
  \<^verbatim>\<open>RootExportDecl : many(Directive) token(Export) token(Symbol) token(String) token(Semicolon)\<close>
\<close>

definition ast_parse_root_export_decl ::
  "ParseContext \<Rightarrow> nat \<Rightarrow> bool \<Rightarrow> (AstNode option \<times> nat \<times> ParseContext) result" where
  "ast_parse_root_export_decl pc token_index mandatory =
     (if mandatory \<noteq> False then Inl AssertionFailed
      else
        bind (token_at pc token_index) (\<lambda>export_kw.
          if token_id export_kw \<noteq> TokenIdKeywordExport then Inr (None, token_index, pc)
          else
            bind (token_at pc (token_index + 1)) (\<lambda>export_type.
              if token_id export_type \<noteq> TokenIdSymbol then Inr (None, token_index, pc)
              else
                let directives = directive_list pc;
                    pc1 = pc\<lparr>directive_list := None\<rparr> in
                bind (token_at pc1 (token_index + 2)) (\<lambda>export_name.
                bind (ast_expect_token pc1 export_name TokenIdStringLiteral) (\<lambda>_.
                bind (parse_string_literal pc1 export_name) (\<lambda>name.
                bind (token_at pc1 (token_index + 3)) (\<lambda>semicolon.
                bind (ast_expect_token pc1 semicolon TokenIdSemicolon) (\<lambda>_.
                  Inr (Some (ast_create_node
                               (NodeTypeRootExportDecl (ast_buf_from_token pc1 export_type) name directives)
                               export_kw),
                       token_index + 4, pc1)))))))))"

text \<open>\<^verbatim>\<open>Use : many(Directive) token(Use) token(String) token(Semicolon)\<close>\<close>

definition ast_parse_use ::
  "ParseContext \<Rightarrow> nat \<Rightarrow> bool \<Rightarrow> (AstNode option \<times> nat \<times> ParseContext) result" where
  "ast_parse_use pc token_index mandatory =
     (if mandatory \<noteq> False then Inl AssertionFailed
      else
        bind (token_at pc token_index) (\<lambda>use_kw.
          if token_id use_kw \<noteq> TokenIdKeywordUse then Inr (None, token_index, pc)
          else
            bind (token_at pc (token_index + 1)) (\<lambda>use_name.
            bind (ast_expect_token pc use_name TokenIdStringLiteral) (\<lambda>_.
            bind (token_at pc (token_index + 2)) (\<lambda>semicolon.
            bind (ast_expect_token pc semicolon TokenIdSemicolon) (\<lambda>_.
            bind (parse_string_literal pc use_name) (\<lambda>path.
              Inr (Some (ast_create_node (NodeTypeUse path (directive_list pc)) use_kw),
                   token_index + 3, pc\<lparr>directive_list := None\<rparr>))))))))"

text \<open>
  \<^verbatim>\<open>TopLevelDecl : FnDef | ExternBlock | RootExportDecl | Use\<close>.  The \<^verbatim>\<open>for (;;)\<close> loop of
  \<^verbatim>\<open>ast_parse_top_level_decls\<close>, with a bound on its iterations (every declaration has at
  least one token).
\<close>

primrec ast_parse_top_level_decls_loop ::
  "nat \<Rightarrow> expr_parser \<Rightarrow> ParseContext \<Rightarrow> nat \<Rightarrow> AstNode list \<Rightarrow>
     (AstNode list \<times> nat \<times> ParseContext) result" where
  "ast_parse_top_level_decls_loop 0 E pc token_index top_level_decls = Inl OutOfFuel"
| "ast_parse_top_level_decls_loop (Suc fuel) E pc token_index top_level_decls =
     bind (token_at pc token_index) (\<lambda>directive_token.
       if directive_list pc \<noteq> None then Inl AssertionFailed
       else
         bind (ast_parse_directives pc token_index []) (\<lambda>(directives, token_index1).
           let pc1 = pc\<lparr>directive_list := Some directives\<rparr> in
           bind (ast_parse_root_export_decl pc1 token_index1 False) (\<lambda>(root_export_decl_node, token_index2, pc2).
             case root_export_decl_node of
               Some n \<Rightarrow> ast_parse_top_level_decls_loop fuel E pc2 token_index2 (top_level_decls @ [n])
             | None \<Rightarrow>
           bind (ast_parse_fn_def E pc2 token_index2 False) (\<lambda>(fn_def_node, token_index3, pc3).
             case fn_def_node of
               Some n \<Rightarrow> ast_parse_top_level_decls_loop fuel E pc3 token_index3 (top_level_decls @ [n])
             | None \<Rightarrow>
           bind (ast_parse_extern_block pc3 token_index3 False) (\<lambda>(extern_node, token_index4, pc4).
             case extern_node of
               Some n \<Rightarrow> ast_parse_top_level_decls_loop fuel E pc4 token_index4 (top_level_decls @ [n])
             | None \<Rightarrow>
           bind (ast_parse_use pc4 token_index4 False) (\<lambda>(use_node, token_index5, pc5).
             case use_node of
               Some n \<Rightarrow> ast_parse_top_level_decls_loop fuel E pc5 token_index5 (top_level_decls @ [n])
             | None \<Rightarrow>
                 (case directive_list pc5 of None \<Rightarrow> Inl NullPointer
                  | Some pending \<Rightarrow>
                      if length pending > 0 then Inl (ast_error directive_token ''invalid directive'')
                      else Inr (top_level_decls, token_index5, pc5\<lparr>directive_list := None\<rparr>))))))))"

definition ast_parse_top_level_decls ::
  "expr_parser \<Rightarrow> ParseContext \<Rightarrow> nat \<Rightarrow> AstNode list \<Rightarrow> (AstNode list \<times> nat \<times> ParseContext) result" where
  "ast_parse_top_level_decls E pc token_index top_level_decls =
     ast_parse_top_level_decls_loop (length (tokens pc)) E pc token_index top_level_decls"

text \<open>\<^verbatim>\<open>Root : many(TopLevelDecl) token(EOF)\<close>\<close>

definition ast_parse_root :: "expr_parser \<Rightarrow> ParseContext \<Rightarrow> nat \<Rightarrow> (AstNode \<times> nat \<times> ParseContext) result" where
  "ast_parse_root E pc token_index =
     bind (token_at pc token_index) (\<lambda>first_token.
     bind (ast_parse_top_level_decls E pc token_index []) (\<lambda>(top_level_decls, token_index1, pc1).
       if int token_index1 \<noteq> int (length (tokens pc1)) - 1 then
         bind (token_at pc1 token_index1) (\<lambda>token. Inl (ast_invalid_token_error pc1 token))
       else Inr (ast_create_node (NodeTypeRoot top_level_decls) first_token, token_index1, pc1)))"

text \<open>
  The entry point.  The nesting depth of an input is less than its number of tokens,
  which is the fuel the expression parser gets.
\<close>

definition ast_parse :: "string \<Rightarrow> Token list \<Rightarrow> AstNode result" where
  "ast_parse source toks =
     (let pc = \<lparr>buf = source, tokens = toks, directive_list = None\<rparr> in
      bind (ast_parse_root (ast_parse_expression (length toks)) pc 0) (\<lambda>(root, token_index, pc1).
        Inr root))"


section \<open>The string-literal decoder\<close>

text \<open>
  The decoder as the specification words it, on the bytes between the quotes: a backslash
  and the byte after it form a pair; the pairs \<^verbatim>\<open>\\\\\<close>, \<^verbatim>\<open>\\r\<close>, \<^verbatim>\<open>\\n\<close>, \<^verbatim>\<open>\\t\<close> and
  \<^verbatim>\<open>\\"\<close> stand for one byte each, any other pair for nothing, and every other byte for
  itself.  \<open>dangling_escape\<close> holds when the bytes end with a backslash that opens a pair.
\<close>

definition escape_char :: "char \<Rightarrow> string" where
  "escape_char c =
     (if c = CHR 0x5C then [CHR 0x5C]
      else if c = CHR ''r'' then [CHR 0x0D]
      else if c = CHR ''n'' then [CHR 0x0A]
      else if c = CHR ''t'' then [CHR 0x09]
      else if c = CHR 0x22 then [CHR 0x22]
      else [])"

fun decode_escapes :: "string \<Rightarrow> string" where
  "decode_escapes [] = []"
| "decode_escapes [c] = (if c = CHR 0x5C then [] else [c])"
| "decode_escapes (c # d # cs) =
     (if c = CHR 0x5C then escape_char d @ decode_escapes cs else c # decode_escapes (d # cs))"

fun dangling_escape :: "string \<Rightarrow> bool" where
  "dangling_escape [] = False"
| "dangling_escape [c] = (c = CHR 0x5C)"
| "dangling_escape (c # d # cs) =
     (if c = CHR 0x5C then dangling_escape cs else dangling_escape (d # cs))"

definition between_quotes :: "ParseContext \<Rightarrow> Token \<Rightarrow> string" where
  "between_quotes pc token =
     take (end_pos token - 1 - (start_pos token + 1)) (drop (start_pos token + 1) (buf pc))"

lemma decode_escapes_plain [simp]:
  "c \<noteq> CHR 0x5C \<Longrightarrow> decode_escapes (c # cs) = c # decode_escapes cs"
  by (cases cs) simp_all

lemma dangling_escape_plain [simp]:
  "c \<noteq> CHR 0x5C \<Longrightarrow> dangling_escape (c # cs) = dangling_escape cs"
  by (cases cs) simp_all

lemma decode_escapes_backslash:
  "decode_escapes (CHR 0x5C # cs) = (case cs of [] \<Rightarrow> [] | d # ds \<Rightarrow> escape_char d @ decode_escapes ds)"
  by (cases cs) simp_all

lemma dangling_escape_backslash:
  "dangling_escape (CHR 0x5C # cs) = (case cs of [] \<Rightarrow> True | d # ds \<Rightarrow> dangling_escape ds)"
  by (cases cs) simp_all

lemma append_escape_char:
  "(if c = CHR 0x5C then out @ [CHR 0x5C]
    else if c = CHR ''r'' then out @ [CHR 0x0D]
    else if c = CHR ''n'' then out @ [CHR 0x0A]
    else if c = CHR ''t'' then out @ [CHR 0x09]
    else if c = CHR 0x22 then out @ [CHR 0x22]
    else out) = out @ escape_char c"
  by (simp add: escape_char_def)

lemma parse_string_literal_loop_decode:
  "stop \<le> length src \<Longrightarrow>
   parse_string_literal_loop src i stop escape out =
     (let bs = take (stop - i) (drop i src) in
      if escape then
        (case bs of [] \<Rightarrow> (True, out)
         | d # ds \<Rightarrow> (dangling_escape ds, out @ escape_char d @ decode_escapes ds))
      else (dangling_escape bs, out @ decode_escapes bs))"
proof (induction src i stop escape out rule: parse_string_literal_loop.induct)
  case (1 src i stop escape out)
  show ?case
  proof (cases "i < stop")
    case False
    then show ?thesis
      by (subst parse_string_literal_loop.simps) simp
  next
    case True
    with "1.prems" have lt: "i < length src" by simp
    from True have split: "take (stop - i) (drop i src) = src ! i # take (stop - (i + 1)) (drop (i + 1) src)"
      using lt by (metis Cons_nth_drop_Suc Suc_diff_Suc Suc_eq_plus1 take_Suc_Cons)
    show ?thesis
    proof (cases escape)
      case esc: True
      have "parse_string_literal_loop src i stop escape out =
            parse_string_literal_loop src (i + 1) stop False (out @ escape_char (src ! i))"
        using True esc by (subst parse_string_literal_loop.simps) (simp add: append_escape_char Let_def)
      also have "\<dots> = (dangling_escape (take (stop - (i + 1)) (drop (i + 1) src)),
            (out @ escape_char (src ! i)) @ decode_escapes (take (stop - (i + 1)) (drop (i + 1) src)))"
        using "1.IH"(1) [OF True refl esc "1.prems"] True esc
        by (simp add: append_escape_char Let_def)
      finally show ?thesis using esc split by (simp add: Let_def)
    next
      case noesc: False
      show ?thesis
      proof (cases "src ! i = CHR 0x5C")
        case bs: True
        have "parse_string_literal_loop src i stop escape out =
              parse_string_literal_loop src (i + 1) stop True out"
          using True noesc bs by (subst parse_string_literal_loop.simps) (simp add: Let_def)
        then show ?thesis
          using "1.IH"(2) [OF True refl noesc bs "1.prems"] noesc split bs
          by (simp add: Let_def decode_escapes_backslash dangling_escape_backslash split: list.splits)
      next
        case plain: False
        have "parse_string_literal_loop src i stop escape out =
              parse_string_literal_loop src (i + 1) stop False (out @ [src ! i])"
          using True noesc plain by (subst parse_string_literal_loop.simps) (simp add: Let_def)
        then show ?thesis
          using "1.IH"(3) [OF True refl noesc plain "1.prems"] noesc split plain
          by (simp add: Let_def)
      qed
    qed
  qed
qed


definition escape_example_pc :: ParseContext where
  "escape_example_pc =
     \<lparr>buf = [CHR 0x22, CHR 0x5C, CHR 0x5C, CHR 0x5C, CHR ''n'', CHR 0x5C, CHR ''r'',
              CHR 0x5C, CHR ''t'', CHR 0x5C, CHR 0x22, CHR 0x22],
      tokens = [], directive_list = None\<rparr>"

definition escape_example_token :: Token where
  "escape_example_token =
     \<lparr>token_id = TokenIdStringLiteral, start_pos = 0, end_pos = 12, start_line = 1, start_column = 1\<rparr>"

definition unknown_escape_pc :: ParseContext where
  "unknown_escape_pc =
     \<lparr>buf = [CHR 0x22, CHR ''a'', CHR 0x5C, CHR ''q'', CHR ''b'', CHR 0x5C, CHR ''n'', CHR 0x22],
      tokens = [], directive_list = None\<rparr>"

definition unknown_escape_token :: Token where
  "unknown_escape_token =
     \<lparr>token_id = TokenIdStringLiteral, start_pos = 0, end_pos = 8, start_line = 1, start_column = 1\<rparr>"

text \<open>
  C6.  On the bytes strictly between the quotes of a string token, \<^verbatim>\<open>parse_string_literal\<close>
  computes \<open>decode_escapes\<close>: the five escape pairs give backslash, CR, LF, TAB and the
  double quote, any other pair gives nothing, every other byte is copied.  (A literal that
  ends inside a pair fails the final \<^verbatim>\<open>assert\<close>.)  The source text
  \<^verbatim>\<open>"\\\\\\n\\r\\t\\""\<close> decodes to the five bytes backslash, LF, CR, TAB, double quote.
\<close>

theorem string_literal_decoder:
  assumes "end_pos token - 1 \<le> length (buf pc)"
  shows "parse_string_literal pc token =
           (if dangling_escape (between_quotes pc token) then Inl AssertionFailed
            else Inr (decode_escapes (between_quotes pc token))) \<and>
         parse_string_literal escape_example_pc escape_example_token =
           Inr [CHR 0x5C, CHR 0x0A, CHR 0x0D, CHR 0x09, CHR 0x22]"
proof
  show "parse_string_literal pc token =
           (if dangling_escape (between_quotes pc token) then Inl AssertionFailed
            else Inr (decode_escapes (between_quotes pc token)))"
    using assms
    by (simp add: parse_string_literal_def parse_string_literal_loop_decode between_quotes_def Let_def)
  show "parse_string_literal escape_example_pc escape_example_token =
           Inr [CHR 0x5C, CHR 0x0A, CHR 0x0D, CHR 0x09, CHR 0x22]"
    by code_simp
qed

theorem string_literal_decoder_witness:
  "end_pos unknown_escape_token - 1 \<le> length (buf unknown_escape_pc) \<and>
   parse_string_literal unknown_escape_pc unknown_escape_token = Inr [CHR ''a'', CHR ''b'', CHR 0x0A]"
  using string_literal_decoder [of unknown_escape_token unknown_escape_pc]
  by (simp add: unknown_escape_token_def unknown_escape_pc_def between_quotes_def escape_char_def)


section \<open>Worked inputs\<close>

text \<open>
  Modelled from the spec: the tokenizer is not part of the parser's source file.  The
  tokens of a one-line source, as the lexer contract describes them: kind, byte range,
  1-based line and column, and the EOF sentinel last.
\<close>

definition line1_tokens :: "(TokenId \<times> nat \<times> nat) list \<Rightarrow> Token list" where
  "line1_tokens = map (\<lambda>(t, s, e). \<lparr>token_id = t, start_pos = s, end_pos = e, start_line = 1, start_column = s + 1\<rparr>)"

definition s6_source :: string where
  "s6_source = ''fn f() { 1 + 2 * 3 - 4; }''"

definition s6_tokens :: "Token list" where
  "s6_tokens = line1_tokens
     [(TokenIdKeywordFn, 0, 2), (TokenIdSymbol, 3, 4), (TokenIdLParen, 4, 5),
      (TokenIdRParen, 5, 6), (TokenIdLBrace, 7, 8), (TokenIdNumberLiteral, 9, 10),
      (TokenIdPlus, 11, 12), (TokenIdNumberLiteral, 13, 14), (TokenIdStar, 15, 16),
      (TokenIdNumberLiteral, 17, 18), (TokenIdDash, 19, 20), (TokenIdNumberLiteral, 21, 22),
      (TokenIdSemicolon, 22, 23), (TokenIdRBrace, 24, 25), (TokenIdEof, 25, 25)]"

definition s6_pc :: ParseContext where
  "s6_pc = \<lparr>buf = s6_source, tokens = s6_tokens, directive_list = None\<rparr>"

definition s6_grouped_source :: string where
  "s6_grouped_source = ''fn f() { (1 + 2 * 3) - 4; }''"

definition s6_grouped_tokens :: "Token list" where
  "s6_grouped_tokens = line1_tokens
     [(TokenIdKeywordFn, 0, 2), (TokenIdSymbol, 3, 4), (TokenIdLParen, 4, 5),
      (TokenIdRParen, 5, 6), (TokenIdLBrace, 7, 8), (TokenIdLParen, 9, 10),
      (TokenIdNumberLiteral, 10, 11), (TokenIdPlus, 12, 13), (TokenIdNumberLiteral, 14, 15),
      (TokenIdStar, 16, 17), (TokenIdNumberLiteral, 18, 19), (TokenIdRParen, 19, 20),
      (TokenIdDash, 21, 22), (TokenIdNumberLiteral, 23, 24), (TokenIdSemicolon, 24, 25),
      (TokenIdRBrace, 26, 27), (TokenIdEof, 27, 27)]"

definition s6_grouped_pc :: ParseContext where
  "s6_grouped_pc = \<lparr>buf = s6_grouped_source, tokens = s6_grouped_tokens, directive_list = None\<rparr>"

definition chain_source :: string where
  "chain_source = ''fn f() { a - b - c; }''"

definition chain_tokens :: "Token list" where
  "chain_tokens = line1_tokens
     [(TokenIdKeywordFn, 0, 2), (TokenIdSymbol, 3, 4), (TokenIdLParen, 4, 5),
      (TokenIdRParen, 5, 6), (TokenIdLBrace, 7, 8), (TokenIdSymbol, 9, 10),
      (TokenIdDash, 11, 12), (TokenIdSymbol, 13, 14), (TokenIdDash, 15, 16),
      (TokenIdSymbol, 17, 18), (TokenIdSemicolon, 18, 19), (TokenIdRBrace, 20, 21),
      (TokenIdEof, 21, 21)]"

definition chain_pc :: ParseContext where
  "chain_pc = \<lparr>buf = chain_source, tokens = chain_tokens, directive_list = None\<rparr>"

definition pos_source :: string where
  "pos_source = ''fn f() { a as u8 + b; }''"

definition pos_tokens :: "Token list" where
  "pos_tokens = line1_tokens
     [(TokenIdKeywordFn, 0, 2), (TokenIdSymbol, 3, 4), (TokenIdLParen, 4, 5),
      (TokenIdRParen, 5, 6), (TokenIdLBrace, 7, 8), (TokenIdSymbol, 9, 10),
      (TokenIdKeywordAs, 11, 13), (TokenIdSymbol, 14, 16), (TokenIdPlus, 17, 18),
      (TokenIdSymbol, 19, 20), (TokenIdSemicolon, 20, 21), (TokenIdRBrace, 22, 23),
      (TokenIdEof, 23, 23)]"

definition pos_pc :: ParseContext where
  "pos_pc = \<lparr>buf = pos_source, tokens = pos_tokens, directive_list = None\<rparr>"




















definition s2_source :: string where
  "s2_source = ''pub fn add(a: i32, b: i32) -> i32 { return a + b; }''"

definition s2_tokens :: "Token list" where
  "s2_tokens = line1_tokens
     [(TokenIdKeywordPub, 0, 3), (TokenIdKeywordFn, 4, 6), (TokenIdSymbol, 7, 10),
      (TokenIdLParen, 10, 11), (TokenIdSymbol, 11, 12), (TokenIdColon, 12, 13),
      (TokenIdSymbol, 14, 17), (TokenIdComma, 17, 18), (TokenIdSymbol, 19, 20),
      (TokenIdColon, 20, 21), (TokenIdSymbol, 22, 25), (TokenIdRParen, 25, 26),
      (TokenIdArrow, 27, 29), (TokenIdSymbol, 30, 33), (TokenIdLBrace, 34, 35),
      (TokenIdKeywordReturn, 36, 42), (TokenIdSymbol, 43, 44), (TokenIdPlus, 45, 46),
      (TokenIdSymbol, 47, 48), (TokenIdSemicolon, 48, 49), (TokenIdRBrace, 50, 51),
      (TokenIdEof, 51, 51)]"

definition s2_pc :: ParseContext where
  "s2_pc = \<lparr>buf = s2_source, tokens = s2_tokens, directive_list = None\<rparr>"

definition s3_source :: string where
  "s3_source = ''extern { #link('' @ [CHR 0x22] @ ''c'' @ [CHR 0x22] @ '') fn puts(s: *const u8) -> i32; }''"

definition s3_tokens :: "Token list" where
  "s3_tokens = line1_tokens
     [(TokenIdKeywordExtern, 0, 6), (TokenIdLBrace, 7, 8), (TokenIdNumberSign, 9, 10),
      (TokenIdSymbol, 10, 14), (TokenIdLParen, 14, 15), (TokenIdStringLiteral, 15, 18),
      (TokenIdRParen, 18, 19), (TokenIdKeywordFn, 20, 22), (TokenIdSymbol, 23, 27),
      (TokenIdLParen, 27, 28), (TokenIdSymbol, 28, 29), (TokenIdColon, 29, 30),
      (TokenIdStar, 31, 32), (TokenIdKeywordConst, 32, 37), (TokenIdSymbol, 38, 40),
      (TokenIdRParen, 40, 41), (TokenIdArrow, 42, 44), (TokenIdSymbol, 45, 48),
      (TokenIdSemicolon, 48, 49), (TokenIdRBrace, 50, 51), (TokenIdEof, 51, 51)]"

definition s3_pc :: ParseContext where
  "s3_pc = \<lparr>buf = s3_source, tokens = s3_tokens, directive_list = None\<rparr>"

definition orphan_top_source :: string where
  "orphan_top_source = ''#link('' @ [CHR 0x22] @ ''c'' @ [CHR 0x22] @ '') 7''"

definition orphan_top_tokens :: "Token list" where
  "orphan_top_tokens = line1_tokens
     [(TokenIdNumberSign, 0, 1), (TokenIdSymbol, 1, 5), (TokenIdLParen, 5, 6),
      (TokenIdStringLiteral, 6, 9), (TokenIdRParen, 9, 10), (TokenIdNumberLiteral, 11, 12),
      (TokenIdEof, 12, 12)]"

definition orphan_top_pc :: ParseContext where
  "orphan_top_pc = \<lparr>buf = orphan_top_source, tokens = orphan_top_tokens, directive_list = None\<rparr>"

definition orphan_extern_source :: string where
  "orphan_extern_source = ''extern { #link('' @ [CHR 0x22] @ ''c'' @ [CHR 0x22] @ '') }''"

definition orphan_extern_tokens :: "Token list" where
  "orphan_extern_tokens = line1_tokens
     [(TokenIdKeywordExtern, 0, 6), (TokenIdLBrace, 7, 8), (TokenIdNumberSign, 9, 10),
      (TokenIdSymbol, 10, 14), (TokenIdLParen, 14, 15), (TokenIdStringLiteral, 15, 18),
      (TokenIdRParen, 18, 19), (TokenIdRBrace, 20, 21), (TokenIdEof, 21, 21)]"

definition orphan_extern_pc :: ParseContext where
  "orphan_extern_pc = \<lparr>buf = orphan_extern_source, tokens = orphan_extern_tokens, directive_list = None\<rparr>"

definition trailing_source :: string where
  "trailing_source = ''use '' @ [CHR 0x22] @ ''std'' @ [CHR 0x22] @ ''; 7''"

definition trailing_tokens :: "Token list" where
  "trailing_tokens = line1_tokens
     [(TokenIdKeywordUse, 0, 3), (TokenIdStringLiteral, 4, 9), (TokenIdSemicolon, 9, 10),
      (TokenIdNumberLiteral, 11, 12), (TokenIdEof, 12, 12)]"

definition trailing_pc :: ParseContext where
  "trailing_pc = \<lparr>buf = trailing_source, tokens = trailing_tokens, directive_list = None\<rparr>"

definition empty_source :: string where
  "empty_source = ''''"

definition empty_tokens :: "Token list" where
  "empty_tokens = line1_tokens
     [(TokenIdEof, 0, 0)]"

definition empty_pc :: ParseContext where
  "empty_pc = \<lparr>buf = empty_source, tokens = empty_tokens, directive_list = None\<rparr>"

definition extern_junk_source :: string where
  "extern_junk_source = ''extern { #link('' @ [CHR 0x22] @ ''c'' @ [CHR 0x22] @ '') 7 }''"

definition extern_junk_tokens :: "Token list" where
  "extern_junk_tokens = line1_tokens
     [(TokenIdKeywordExtern, 0, 6), (TokenIdLBrace, 7, 8), (TokenIdNumberSign, 9, 10),
      (TokenIdSymbol, 10, 14), (TokenIdLParen, 14, 15), (TokenIdStringLiteral, 15, 18),
      (TokenIdRParen, 18, 19), (TokenIdNumberLiteral, 20, 21), (TokenIdRBrace, 22, 23),
      (TokenIdEof, 23, 23)]"

definition extern_junk_pc :: ParseContext where
  "extern_junk_pc = \<lparr>buf = extern_junk_source, tokens = extern_junk_tokens, directive_list = None\<rparr>"






definition comparison_operators :: "(TokenId \<times> BinOpType) list" where
  "comparison_operators =
     [(TokenIdCmpEq, BinOpTypeCmpEq), (TokenIdCmpNotEq, BinOpTypeCmpNotEq),
      (TokenIdCmpLessThan, BinOpTypeCmpLessThan), (TokenIdCmpGreaterThan, BinOpTypeCmpGreaterThan),
      (TokenIdCmpLessOrEq, BinOpTypeCmpLessOrEq), (TokenIdCmpGreaterOrEq, BinOpTypeCmpGreaterOrEq)]"


section \<open>Evaluation of the expression grammar\<close>










section \<open>Precedence\<close>





section \<open>One fold per binary level\<close>

text \<open>
  The nine binary levels of the grammar, lowest first, each with the function that parses
  it, the function that parses its operands (the next level up) and its operators.
\<close>

datatype BinaryLevel =
    LevelBoolOr | LevelBoolAnd | LevelComparison | LevelBinOr | LevelBinXor | LevelBinAnd
  | LevelBitShift | LevelAdd | LevelMult

fun level_expr :: "BinaryLevel \<Rightarrow> expr_parser \<Rightarrow> expr_parser" where
  "level_expr LevelBoolOr = ast_parse_bool_or_expr"
| "level_expr LevelBoolAnd = ast_parse_bool_and_expr"
| "level_expr LevelComparison = ast_parse_comparison_expr"
| "level_expr LevelBinOr = ast_parse_bin_or_expr"
| "level_expr LevelBinXor = ast_parse_bin_xor_expr"
| "level_expr LevelBinAnd = ast_parse_bin_and_expr"
| "level_expr LevelBitShift = ast_parse_bit_shift_expr"
| "level_expr LevelAdd = ast_parse_add_expr"
| "level_expr LevelMult = ast_parse_mult_expr"

fun level_operand :: "BinaryLevel \<Rightarrow> expr_parser \<Rightarrow> expr_parser" where
  "level_operand LevelBoolOr = ast_parse_bool_and_expr"
| "level_operand LevelBoolAnd = ast_parse_comparison_expr"
| "level_operand LevelComparison = ast_parse_bin_or_expr"
| "level_operand LevelBinOr = ast_parse_bin_xor_expr"
| "level_operand LevelBinXor = ast_parse_bin_and_expr"
| "level_operand LevelBinAnd = ast_parse_bit_shift_expr"
| "level_operand LevelBitShift = ast_parse_add_expr"
| "level_operand LevelAdd = ast_parse_mult_expr"
| "level_operand LevelMult = ast_parse_cast_expression"

fun level_operators :: "BinaryLevel \<Rightarrow> (TokenId \<times> BinOpType) list" where
  "level_operators LevelBoolOr = [(TokenIdBoolOr, BinOpTypeBoolOr)]"
| "level_operators LevelBoolAnd = [(TokenIdBoolAnd, BinOpTypeBoolAnd)]"
| "level_operators LevelComparison = comparison_operators"
| "level_operators LevelBinOr = [(TokenIdBinOr, BinOpTypeBinOr)]"
| "level_operators LevelBinXor = [(TokenIdBinXor, BinOpTypeBinXor)]"
| "level_operators LevelBinAnd = [(TokenIdBinAnd, BinOpTypeBinAnd)]"
| "level_operators LevelBitShift =
     [(TokenIdBitShiftLeft, BinOpTypeBitShiftLeft), (TokenIdBitShiftRight, BinOpTypeBitShiftRight)]"
| "level_operators LevelAdd = [(TokenIdPlus, BinOpTypeAdd), (TokenIdDash, BinOpTypeSub)]"
| "level_operators LevelMult =
     [(TokenIdStar, BinOpTypeMult), (TokenIdSlash, BinOpTypeDiv), (TokenIdPercent, BinOpTypeMod)]"

text \<open>
  A level as the specification describes the source (section 4.3): one operand of the
  next-higher level, then optionally one operator of the level and one more operand of
  the next-higher level, folded into a \<^verbatim>\<open>BinOpExpr\<close> that is stamped with the operator
  token.  There is no iteration.
\<close>

definition fold_once ::
  "(TokenId \<times> BinOpType) list \<Rightarrow> expr_parser \<Rightarrow> expr_parser" where
  "fold_once operators operand pc token_index mandatory =
     bind (operand pc token_index mandatory) (\<lambda>(operand_1_opt, token_index1).
       case operand_1_opt of None \<Rightarrow> Inr (None, token_index1)
       | Some operand_1 \<Rightarrow>
           bind (token_at pc token_index1) (\<lambda>token.
             case map_of operators (token_id token) of
               None \<Rightarrow> Inr (Some operand_1, token_index1)
             | Some bin_op \<Rightarrow>
                 bind (mandatory_node (operand pc (token_index1 + 1) True)) (\<lambda>(operand_2, token_index2).
                   Inr (Some (ast_create_node (NodeTypeBinOpExpr operand_1 bin_op operand_2) token),
                        token_index2))))"

lemma mandatory_node_eq_Inr:
  "mandatory_node r = Inr (n, j) \<longleftrightarrow> r = Inr (Some n, j)"
  by (cases r) (auto simp: mandatory_node_def split: option.splits)

lemma token_at_in_range: "i < length (tokens pc) \<Longrightarrow> token_at pc i = Inr (tokens pc ! i)"
  by (simp add: token_at_def)

lemma tok_to_mult_op_table:
  "tok_to_mult_op t = (case map_of (level_operators LevelMult) (token_id t) of None \<Rightarrow> BinOpTypeInvalid | Some op \<Rightarrow> op)"
  by (cases "token_id t") simp_all

lemma tok_to_add_op_table:
  "tok_to_add_op t = (case map_of (level_operators LevelAdd) (token_id t) of None \<Rightarrow> BinOpTypeInvalid | Some op \<Rightarrow> op)"
  by (cases "token_id t") simp_all

lemma tok_to_bit_shift_op_table:
  "tok_to_bit_shift_op t = (case map_of (level_operators LevelBitShift) (token_id t) of None \<Rightarrow> BinOpTypeInvalid | Some op \<Rightarrow> op)"
  by (cases "token_id t") simp_all

lemma tok_to_cmp_op_table:
  "tok_to_cmp_op t = (case map_of (level_operators LevelComparison) (token_id t) of None \<Rightarrow> BinOpTypeInvalid | Some op \<Rightarrow> op)"
  by (cases "token_id t") (simp_all add: comparison_operators_def)

lemma level_operators_valid:
  "map_of (level_operators L) t = Some op \<Longrightarrow> op \<noteq> BinOpTypeInvalid"
  by (cases L) (auto simp: comparison_operators_def split: if_splits)

lemma single_fold_level:
  "level_expr L E pc i m = fold_once (level_operators L) (level_operand L E) pc i m"
proof (cases L)
  case LevelBoolOr
  show ?thesis
    unfolding LevelBoolOr level_expr.simps level_operand.simps
    unfolding fold_once_def ast_parse_bool_or_expr_def
    by (rule bind_fundef_cong [OF refl] | clarsimp split: option.splits)+
next
  case LevelBoolAnd
  show ?thesis
    unfolding LevelBoolAnd level_expr.simps level_operand.simps
    unfolding fold_once_def ast_parse_bool_and_expr_def
    by (rule bind_fundef_cong [OF refl] | clarsimp split: option.splits)+
next
  case LevelComparison
  show ?thesis
    unfolding LevelComparison level_expr.simps level_operand.simps
    unfolding fold_once_def ast_parse_comparison_expr_def ast_parse_comparison_operator_def
    by (rule bind_fundef_cong [OF refl]
        | clarsimp simp: Let_def tok_to_cmp_op_table token_at_eq_Inr token_at_in_range
            simp del: tok_to_cmp_op.simps level_operators.simps
            dest!: level_operators_valid split: option.splits)+
next
  case LevelBinOr
  show ?thesis
    unfolding LevelBinOr level_expr.simps level_operand.simps
    unfolding fold_once_def ast_parse_bin_or_expr_def
    by (rule bind_fundef_cong [OF refl] | clarsimp split: option.splits)+
next
  case LevelBinXor
  show ?thesis
    unfolding LevelBinXor level_expr.simps level_operand.simps
    unfolding fold_once_def ast_parse_bin_xor_expr_def
    by (rule bind_fundef_cong [OF refl] | clarsimp split: option.splits)+
next
  case LevelBinAnd
  show ?thesis
    unfolding LevelBinAnd level_expr.simps level_operand.simps
    unfolding fold_once_def ast_parse_bin_and_expr_def
    by (rule bind_fundef_cong [OF refl] | clarsimp split: option.splits)+
next
  case LevelBitShift
  show ?thesis
    unfolding LevelBitShift level_expr.simps level_operand.simps
    unfolding fold_once_def ast_parse_bit_shift_expr_def ast_parse_bit_shift_op_def
    by (rule bind_fundef_cong [OF refl]
        | clarsimp simp: Let_def tok_to_bit_shift_op_table token_at_eq_Inr token_at_in_range
            simp del: tok_to_bit_shift_op.simps level_operators.simps
            dest!: level_operators_valid split: option.splits)+
next
  case LevelAdd
  show ?thesis
    unfolding LevelAdd level_expr.simps level_operand.simps
    unfolding fold_once_def ast_parse_add_expr_def ast_parse_add_op_def
    by (rule bind_fundef_cong [OF refl]
        | clarsimp simp: Let_def tok_to_add_op_table token_at_eq_Inr token_at_in_range
            simp del: tok_to_add_op.simps level_operators.simps
            dest!: level_operators_valid split: option.splits)+
next
  case LevelMult
  show ?thesis
    unfolding LevelMult level_expr.simps level_operand.simps
    unfolding fold_once_def ast_parse_mult_expr_def ast_parse_mult_op_def
    by (rule bind_fundef_cong [OF refl]
        | clarsimp simp: Let_def tok_to_mult_op_table token_at_eq_Inr token_at_in_range
            simp del: tok_to_mult_op.simps level_operators.simps
            dest!: level_operators_valid split: option.splits)+
qed

text \<open>
  C1, as amended.  Every binary level of the parser is the single fold: for operands
  \<open>a\<^sub>1\<close>, \<open>a\<^sub>2\<close> of the next-higher level around one operator of the level it returns
  \<^verbatim>\<open>BinOpExpr(op, a1, a2)\<close>, a tree of depth 1, with the cursor right after \<open>a\<^sub>2\<close>, whatever
  token follows.  An operator of the same level after \<open>a\<^sub>2\<close> is not consumed: chains of
  three or more operands are not grouped (the enclosing production rejects the second
  operator).
\<close>

theorem single_fold:
  "level_expr L E pc i m = fold_once (level_operators L) (level_operand L E) pc i m"
  by (rule single_fold_level)

theorem single_fold_witness:
  "ast_parse_add_expr (ast_parse_expression 5) chain_pc 5 True =
     Inr (Some (AstNode 1 12 (NodeTypeBinOpExpr (AstNode 1 10 (NodeTypeSymbol ''a'')) BinOpTypeSub
                  (AstNode 1 14 (NodeTypeSymbol ''b'')))), 8) \<and>
   map_of (level_operators LevelAdd) (token_id (tokens chain_pc ! 8)) = Some BinOpTypeSub"
proof -
  have "fold_once (level_operators LevelAdd) (level_operand LevelAdd (ast_parse_expression 5)) chain_pc 5 True =
     Inr (Some (AstNode 1 12 (NodeTypeBinOpExpr (AstNode 1 10 (NodeTypeSymbol ''a'')) BinOpTypeSub
                  (AstNode 1 14 (NodeTypeSymbol ''b'')))), 8)"
    by code_simp
  moreover have "map_of (level_operators LevelAdd) (token_id (tokens chain_pc ! 8)) = Some BinOpTypeSub"
    by code_simp
  ultimately show ?thesis
    using single_fold [of LevelAdd "ast_parse_expression 5" chain_pc 5 True] by simp
qed

text \<open>
  The claim as stated fails on \<^verbatim>\<open>fn f() { a - b - c; }\<close>: the expression parser returns
  \<^verbatim>\<open>a - b\<close> with the cursor on the second \<^verbatim>\<open>-\<close> (token 8), and the parse aborts there.
\<close>

theorem chain_not_folded:
  "ast_parse_expression (length chain_tokens) chain_pc 5 True =
     Inr (Some (AstNode 1 12 (NodeTypeBinOpExpr (AstNode 1 10 (NodeTypeSymbol ''a'')) BinOpTypeSub
                  (AstNode 1 14 (NodeTypeSymbol ''b'')))), 8) \<and>
   ast_parse chain_source chain_tokens =
     Inl (ErrorMsg 1 16 (''invalid token: '' @ [CHR 0x27] @ ''-'' @ [CHR 0x27]))"
  by code_simp


section \<open>Scenario S6\<close>

text \<open>
  The input \<^verbatim>\<open>fn f() { 1 + 2 * 3 - 4; }\<close> is rejected at the \<^verbatim>\<open>-\<close> (line 1, column 20).
\<close>

theorem s6_rejected:
  "ast_parse s6_source s6_tokens =
     Inl (ErrorMsg 1 20 (''invalid token: '' @ [CHR 0x27] @ ''-'' @ [CHR 0x27]))"
  by code_simp


text \<open>
  C3, as amended.  On \<^verbatim>\<open>fn f() { 1 + 2 * 3 - 4; }\<close> the expression of the statement is parsed
  as \<^verbatim>\<open>BinOpExpr(+, 1, BinOpExpr(*, 2, 3))\<close> with the cursor left on the \<^verbatim>\<open>-\<close> (token 10);
  the statement parser expects a semicolon there and aborts with
  \<^verbatim>\<open>invalid token: '-'\<close>.  The tree of the scenario is what the parser yields for
  \<^verbatim>\<open>fn f() { (1 + 2 * 3) - 4; }\<close>.
\<close>

theorem s6_statement:
  "ast_parse_expression (length s6_tokens) s6_pc 5 True =
     Inr (Some (AstNode 1 12 (NodeTypeBinOpExpr (AstNode 1 10 (NodeTypeNumberLiteral ''1'')) BinOpTypeAdd
       (AstNode 1 16 (NodeTypeBinOpExpr (AstNode 1 14 (NodeTypeNumberLiteral ''2'')) BinOpTypeMult
         (AstNode 1 18 (NodeTypeNumberLiteral ''3'')))))), 10) \<and>
   ast_parse_expression_statement (ast_parse_expression (length s6_tokens)) s6_pc 5 =
     Inl (ast_invalid_token_error s6_pc (s6_tokens ! 10)) \<and>
   ast_invalid_token_error s6_pc (s6_tokens ! 10) =
     ErrorMsg 1 20 (''invalid token: '' @ [CHR 0x27] @ ''-'' @ [CHR 0x27]) \<and>
   ast_parse s6_grouped_source s6_grouped_tokens =
     Inr (AstNode 1 1 (NodeTypeRoot
       [AstNode 1 1 (NodeTypeFnDef
          (AstNode 1 1 (NodeTypeFnProto (Some []) FnProtoVisibModPrivate ''f'' []
             (AstNode 1 8 (NodeTypeType (AstNodeTypeTypePrimitive ''void'')))))
          (AstNode 1 8 (NodeTypeBlock
             [AstNode 1 22 (NodeTypeBinOpExpr
                (AstNode 1 13 (NodeTypeBinOpExpr (AstNode 1 11 (NodeTypeNumberLiteral ''1'')) BinOpTypeAdd
                   (AstNode 1 17 (NodeTypeBinOpExpr (AstNode 1 15 (NodeTypeNumberLiteral ''2'')) BinOpTypeMult
                      (AstNode 1 19 (NodeTypeNumberLiteral ''3''))))))
                BinOpTypeSub (AstNode 1 24 (NodeTypeNumberLiteral ''4'')))])))]))"
  by code_simp


section \<open>The parse context across declarations\<close>

lemma ast_parse_fn_proto_None:
  "ast_parse_fn_proto pc i m = Inr (None, j, pc') \<Longrightarrow>
     j = i \<and> pc' = pc \<and> i < length (tokens pc) \<and>
     token_id (tokens pc ! i) \<notin> {TokenIdKeywordPub, TokenIdKeywordExport, TokenIdKeywordFn}"
  by (auto simp: ast_parse_fn_proto_def bind_eq_Inr token_at_eq_Inr Let_def
           split: if_splits option.splits)

lemma ast_parse_extern_block_loop_pc:
  "ast_parse_extern_block_loop pc i ds = Inr (r, j, pc') \<Longrightarrow> pc' = pc\<lparr>directive_list := None\<rparr>"
proof (induction pc i ds arbitrary: r j pc' rule: ast_parse_extern_block_loop.induct)
  case (1 pc i ds)
  from "1.prems" "1.IH" show ?case
    apply (subst (asm) ast_parse_extern_block_loop.simps)
    apply (auto simp: bind_eq_Inr Let_def split: if_splits option.splits)
    apply (frule ast_parse_fn_decl_index, fastforce)+
    done
qed

text \<open>
  What a declaration parser does to the cursor and the parse context: with no match it
  leaves both as they are; with a match the pending directive list is cleared.
\<close>

definition decl_step :: "ParseContext \<Rightarrow> nat \<Rightarrow> AstNode option \<Rightarrow> nat \<Rightarrow> ParseContext \<Rightarrow> bool" where
  "decl_step pc i r j pc' \<longleftrightarrow>
     (case r of None \<Rightarrow> j = i \<and> pc' = pc \<and> i < length (tokens pc)
      | Some n \<Rightarrow> pc' = pc\<lparr>directive_list := None\<rparr>)"

lemma ast_parse_fn_def_step:
  "ast_parse_fn_def E pc i m = Inr (r, j, pc') \<Longrightarrow> decl_step pc i r j pc'"
  by (cases r)
     (auto simp: decl_step_def ast_parse_fn_def_def bind_eq_Inr split: option.splits
           dest!: ast_parse_fn_proto_index ast_parse_fn_proto_None)

lemma ast_parse_extern_block_step:
  "ast_parse_extern_block pc i m = Inr (r, j, pc') \<Longrightarrow> decl_step pc i r j pc'"
  by (cases r)
     (auto simp: decl_step_def ast_parse_extern_block_def bind_eq_Inr token_at_eq_Inr Let_def
           split: if_splits dest!: ast_parse_extern_block_loop_pc)

lemma ast_parse_root_export_decl_step:
  "ast_parse_root_export_decl pc i m = Inr (r, j, pc') \<Longrightarrow> decl_step pc i r j pc'"
  by (cases r)
     (auto simp: decl_step_def ast_parse_root_export_decl_def bind_eq_Inr token_at_eq_Inr Let_def
           split: if_splits)

lemma ast_parse_use_step:
  "ast_parse_use pc i m = Inr (r, j, pc') \<Longrightarrow> decl_step pc i r j pc'"
  by (cases r)
     (auto simp: decl_step_def ast_parse_use_def bind_eq_Inr token_at_eq_Inr split: if_splits)

text \<open>
  The four alternatives of a top-level declaration, tried in the order of the loop body of
  \<^verbatim>\<open>ast_parse_top_level_decls\<close>; the loop body is rewritten with it in
  \<open>ast_parse_top_level_decls_loop_Suc\<close>.
\<close>

definition parse_top_level_decl ::
  "expr_parser \<Rightarrow> ParseContext \<Rightarrow> nat \<Rightarrow> (AstNode option \<times> nat \<times> ParseContext) result" where
  "parse_top_level_decl E pc token_index =
     bind (ast_parse_root_export_decl pc token_index False) (\<lambda>(root_export_decl_node, token_index2, pc2).
       case root_export_decl_node of Some n \<Rightarrow> Inr (Some n, token_index2, pc2)
       | None \<Rightarrow>
     bind (ast_parse_fn_def E pc2 token_index2 False) (\<lambda>(fn_def_node, token_index3, pc3).
       case fn_def_node of Some n \<Rightarrow> Inr (Some n, token_index3, pc3)
       | None \<Rightarrow>
     bind (ast_parse_extern_block pc3 token_index3 False) (\<lambda>(extern_node, token_index4, pc4).
       case extern_node of Some n \<Rightarrow> Inr (Some n, token_index4, pc4)
       | None \<Rightarrow> ast_parse_use pc4 token_index4 False)))"

lemma ast_parse_top_level_decls_loop_Suc:
  "ast_parse_top_level_decls_loop (Suc fuel) E pc i decls =
     bind (token_at pc i) (\<lambda>directive_token.
       if directive_list pc \<noteq> None then Inl AssertionFailed
       else
         bind (ast_parse_directives pc i []) (\<lambda>(directives, k).
         bind (parse_top_level_decl E (pc\<lparr>directive_list := Some directives\<rparr>) k) (\<lambda>(decl, j, pc').
           case decl of
             Some n \<Rightarrow> ast_parse_top_level_decls_loop fuel E pc' j (decls @ [n])
           | None \<Rightarrow>
               (case directive_list pc' of None \<Rightarrow> Inl NullPointer
                | Some pending \<Rightarrow>
                    if length pending > 0 then Inl (ast_error directive_token ''invalid directive'')
                    else Inr (decls, j, pc'\<lparr>directive_list := None\<rparr>)))))"
  apply (simp only: ast_parse_top_level_decls_loop.simps parse_top_level_decl_def Let_def)
  apply (rule bind_fundef_cong [OF refl])
  apply (rule if_cong [OF refl refl])
  apply (rule bind_fundef_cong [OF refl])
  apply (simp only: bind_def)
  apply (simp split: sum.splits option.splits prod.splits)
  done

lemma decl_alternative:
  assumes run: "bind P (\<lambda>(r1, j1, p1). case r1 of Some n \<Rightarrow> Inr (Some n, j1, p1) | None \<Rightarrow> R j1 p1) = Inr (r, j, pc')"
    and first: "\<And>r1 j1 p1. P = Inr (r1, j1, p1) \<Longrightarrow> decl_step pc i r1 j1 p1"
    and others: "R i pc = Inr (r, j, pc') \<Longrightarrow> decl_step pc i r j pc'"
  shows "decl_step pc i r j pc'"
proof -
  from run obtain r1 j1 p1 where P: "P = Inr (r1, j1, p1)"
    and k: "(case r1 of Some n \<Rightarrow> Inr (Some n, j1, p1) | None \<Rightarrow> R j1 p1) = Inr (r, j, pc')"
    by (auto simp: bind_eq_Inr)
  show ?thesis
  proof (cases r1)
    case None
    with first [OF P] k others show ?thesis by (simp add: decl_step_def)
  next
    case (Some n)
    with first [OF P] k show ?thesis by (auto simp: decl_step_def)
  qed
qed

lemma parse_top_level_decl_step:
  "parse_top_level_decl E pc i = Inr (r, j, pc') \<Longrightarrow> decl_step pc i r j pc'"
  unfolding parse_top_level_decl_def
  apply (erule decl_alternative, erule ast_parse_root_export_decl_step)
  apply (erule decl_alternative, erule ast_parse_fn_def_step)
  apply (erule decl_alternative, erule ast_parse_extern_block_step)
  apply (erule ast_parse_use_step)
  done

lemma ast_parse_top_level_decls_loop_end:
  "ast_parse_top_level_decls_loop fuel E pc i decls = Inr (r, j, pc') \<Longrightarrow>
     pc' = pc\<lparr>directive_list := None\<rparr> \<and> j < length (tokens pc)"
proof (induction fuel arbitrary: pc i decls)
  case 0
  then show ?case by simp
next
  case (Suc fuel)
  from Suc.prems obtain ds k d j1 pc1 where
    decl: "parse_top_level_decl E (pc\<lparr>directive_list := Some ds\<rparr>) k = Inr (d, j1, pc1)"
    and rest: "(case d of
             Some n \<Rightarrow> ast_parse_top_level_decls_loop fuel E pc1 j1 (decls @ [n])
           | None \<Rightarrow>
               (case directive_list pc1 of None \<Rightarrow> Inl NullPointer
                | Some pending \<Rightarrow>
                    if length pending > 0 then Inl (ast_error (tokens pc ! i) ''invalid directive'')
                    else Inr (decls, j1, pc1\<lparr>directive_list := None\<rparr>))) = Inr (r, j, pc')"
    unfolding ast_parse_top_level_decls_loop_Suc
    by (auto simp: bind_eq_Inr token_at_eq_Inr split: if_splits)
  from parse_top_level_decl_step [OF decl] rest show ?case
    by (cases d) (auto simp: decl_step_def split: option.splits if_splits dest!: Suc.IH)
qed


section \<open>The end of the input\<close>

lemmas program_defs =
  line1_tokens_def
  s6_pc_def s6_tokens_def s6_source_def
  s6_grouped_pc_def s6_grouped_tokens_def s6_grouped_source_def
  s2_pc_def s2_tokens_def s2_source_def
  s3_pc_def s3_tokens_def s3_source_def
  orphan_top_pc_def orphan_top_tokens_def orphan_top_source_def
  orphan_extern_pc_def orphan_extern_tokens_def orphan_extern_source_def
  trailing_pc_def trailing_tokens_def trailing_source_def
  extern_junk_pc_def extern_junk_tokens_def extern_junk_source_def
  empty_pc_def empty_tokens_def empty_source_def

lemma ast_parse_top_level_decls_start:
  "ast_parse_top_level_decls E pc i ds = Inr r \<Longrightarrow> i < length (tokens pc)"
  by (cases "length (tokens pc)")
     (auto simp: ast_parse_top_level_decls_def bind_eq_Inr token_at_eq_Inr)

text \<open>
  C9.  When the loop over the top-level declarations has finished with the cursor at
  \<open>j\<close>, \<^verbatim>\<open>ast_parse_root\<close> returns the \<^verbatim>\<open>Root\<close> node if \<open>j\<close> is the index of the last token
  (the EOF sentinel of the lexer contract), and otherwise aborts with
  \<^verbatim>\<open>invalid token: '<lexeme>'\<close> at the token under the cursor; it succeeds if and only if
  the cursor is on the last token.
\<close>

theorem root_at_eof:
  assumes "ast_parse_top_level_decls E pc i [] = Inr (top_level_decls, j, pc')"
  shows "j < length (tokens pc) \<and>
         ast_parse_root E pc i =
           (if j + 1 = length (tokens pc)
            then Inr (ast_create_node (NodeTypeRoot top_level_decls) (tokens pc ! i), j, pc')
            else Inl (ErrorMsg (start_line (tokens pc ! j)) (start_column (tokens pc ! j))
                        (''invalid token: '' @ [CHR 0x27] @ ast_buf_from_token pc (tokens pc ! j) @ [CHR 0x27]))) \<and>
         ((\<exists>root. ast_parse_root E pc i = Inr root) \<longleftrightarrow> j + 1 = length (tokens pc))"
proof -
  from assms have i: "i < length (tokens pc)"
    by (rule ast_parse_top_level_decls_start)
  from assms have fin: "pc' = pc\<lparr>directive_list := None\<rparr>" "j < length (tokens pc)"
    using ast_parse_top_level_decls_loop_end [of "length (tokens pc)" E pc i "[]" top_level_decls j pc']
    by (simp_all add: ast_parse_top_level_decls_def)
  show ?thesis
    using assms i fin
    by (auto simp: ast_parse_root_def token_at_def ast_invalid_token_error_def ast_error_def
          ast_buf_from_token_def)
qed

theorem root_at_eof_witness:
  "ast_parse_top_level_decls (ast_parse_expression 5) trailing_pc 0 [] =
     Inr ([AstNode 1 1 (NodeTypeUse ''std'' (Some []))], 3, trailing_pc) \<and>
   ast_parse_root (ast_parse_expression 5) trailing_pc 0 =
     Inl (ErrorMsg 1 12 (''invalid token: '' @ [CHR 0x27] @ ''7'' @ [CHR 0x27])) \<and>
   ast_parse_top_level_decls (ast_parse_expression 1) empty_pc 0 [] = Inr ([], 0, empty_pc) \<and>
   ast_parse_root (ast_parse_expression 1) empty_pc 0 = Inr (AstNode 1 1 (NodeTypeRoot []), 0, empty_pc)"
proof -
  have t: "ast_parse_top_level_decls (ast_parse_expression 5) trailing_pc 0 [] =
     Inr ([AstNode 1 1 (NodeTypeUse ''std'' (Some []))], 3, trailing_pc)"
    by code_simp
  have e: "ast_parse_top_level_decls (ast_parse_expression 1) empty_pc 0 [] = Inr ([], 0, empty_pc)"
    by code_simp
  from root_at_eof [OF t] root_at_eof [OF e] t e show ?thesis
    by (simp add: program_defs ast_create_node_def ast_buf_from_token_def)
qed


section \<open>Parentheses\<close>

text \<open>
  C10.  At an opening parenthesis, the primary-expression parser returns a node exactly
  when the expression parser returns that node for the tokens after the parenthesis and
  a closing parenthesis follows: the node of \<^verbatim>\<open>( e )\<close> is the node of \<^verbatim>\<open>e\<close> itself, with its
  kind, payload, children, line and column; no node stands for the parentheses.
\<close>

theorem grouped_expr_transparent:
  assumes "i < length (tokens pc)" and "token_id (tokens pc ! i) = TokenIdLParen"
  shows "ast_parse_primary_expr E pc i m = Inr (Some n, k) \<longleftrightarrow>
           (\<exists>j. E pc (i + 1) True = Inr (Some n, j) \<and> j < length (tokens pc) \<and>
                token_id (tokens pc ! j) = TokenIdRParen \<and> k = j + 1)"
  using assms
  by (auto simp: ast_parse_primary_expr_def ast_parse_grouped_expr_def ast_parse_block_def
        token_at_def ast_expect_token_def bind_eq_Inr split: if_splits option.splits)

theorem grouped_expr_transparent_witness:
  "ast_parse_expression 10 s6_grouped_pc 6 True =
     Inr (Some (AstNode 1 13 (NodeTypeBinOpExpr (AstNode 1 11 (NodeTypeNumberLiteral ''1'')) BinOpTypeAdd
       (AstNode 1 17 (NodeTypeBinOpExpr (AstNode 1 15 (NodeTypeNumberLiteral ''2'')) BinOpTypeMult
         (AstNode 1 19 (NodeTypeNumberLiteral ''3'')))))), 11) \<and>
   ast_parse_primary_expr (ast_parse_expression 10) s6_grouped_pc 5 True =
     Inr (Some (AstNode 1 13 (NodeTypeBinOpExpr (AstNode 1 11 (NodeTypeNumberLiteral ''1'')) BinOpTypeAdd
       (AstNode 1 17 (NodeTypeBinOpExpr (AstNode 1 15 (NodeTypeNumberLiteral ''2'')) BinOpTypeMult
         (AstNode 1 19 (NodeTypeNumberLiteral ''3'')))))), 12)"
proof -
  have inner: "ast_parse_expression 10 s6_grouped_pc 6 True =
     Inr (Some (AstNode 1 13 (NodeTypeBinOpExpr (AstNode 1 11 (NodeTypeNumberLiteral ''1'')) BinOpTypeAdd
       (AstNode 1 17 (NodeTypeBinOpExpr (AstNode 1 15 (NodeTypeNumberLiteral ''2'')) BinOpTypeMult
         (AstNode 1 19 (NodeTypeNumberLiteral ''3'')))))), 11)"
    by code_simp
  have l: "5 < length (tokens s6_grouped_pc)" "token_id (tokens s6_grouped_pc ! 5) = TokenIdLParen"
    and r: "11 < length (tokens s6_grouped_pc)" "token_id (tokens s6_grouped_pc ! 11) = TokenIdRParen"
    by (simp_all add: program_defs)
  from grouped_expr_transparent [OF l, of "ast_parse_expression 10" True _ 12] inner r
  show ?thesis by simp
qed


section \<open>The return type of a prototype\<close>

text \<open>
  The last step of \<^verbatim>\<open>ast_parse_fn_proto\<close> under a name of its own, so that the body of
  the function can be unfolded without splitting it.
\<close>

definition return_type_or_void :: "ParseContext \<Rightarrow> Token \<Rightarrow> nat \<Rightarrow> (AstNode \<times> nat) result" where
  "return_type_or_void pc arrow token_index =
     (if token_id arrow = TokenIdArrow then ast_parse_type pc (token_index + 1)
      else Inr (ast_create_void_type_node arrow, token_index))"

lemma ast_parse_fn_proto_folded:
  "ast_parse_fn_proto pc token_index mandatory =
     bind (token_at pc token_index) (\<lambda>token.
     bind (if token_id token = TokenIdKeywordPub then
             bind (token_at pc (token_index + 1)) (\<lambda>fn_token.
             bind (ast_expect_token pc fn_token TokenIdKeywordFn) (\<lambda>_.
               Inr (Some (FnProtoVisibModPub, token_index + 2))))
           else if token_id token = TokenIdKeywordExport then
             bind (token_at pc (token_index + 1)) (\<lambda>fn_token.
             bind (ast_expect_token pc fn_token TokenIdKeywordFn) (\<lambda>_.
               Inr (Some (FnProtoVisibModExport, token_index + 2))))
           else if token_id token = TokenIdKeywordFn then
             Inr (Some (FnProtoVisibModPrivate, token_index + 1))
           else if mandatory then Inl (ast_invalid_token_error pc token)
           else Inr None) (\<lambda>matched.
       case matched of None \<Rightarrow> Inr (None, token_index, pc)
       | Some (visib_mod, token_index1) \<Rightarrow>
           let directives = directive_list pc;
               pc1 = pc\<lparr>directive_list := None\<rparr> in
           bind (token_at pc1 token_index1) (\<lambda>fn_name.
           bind (ast_expect_token pc1 fn_name TokenIdSymbol) (\<lambda>_.
           bind (ast_parse_param_decl_list pc1 (token_index1 + 1) []) (\<lambda>(params, token_index2).
           bind (token_at pc1 token_index2) (\<lambda>arrow.
           bind (return_type_or_void pc1 arrow token_index2) (\<lambda>(return_type, token_index3).
             Inr (Some (ast_create_node
                          (NodeTypeFnProto directives visib_mod (ast_buf_from_token pc1 fn_name) params return_type)
                          token),
                  token_index3, pc1))))))))"
  unfolding ast_parse_fn_proto_def return_type_or_void_def ..

text \<open>
  C5.  \<^verbatim>\<open>ast_parse_fn_proto\<close> returns a prototype exactly in the following case: the
  tokens from \<open>i\<close> are \<^verbatim>\<open>fn\<close>, \<^verbatim>\<open>pub fn\<close> or \<^verbatim>\<open>export fn\<close>, token \<open>s\<close> after them is the
  name, the parameter list parses from \<open>s + 1\<close> and ends at \<open>k\<close>, and then
  \<^item> if token \<open>k\<close> is an arrow, a type parses from \<open>k + 1\<close>; it is the return type, and
    the prototype ends where the type ends;
  \<^item> if token \<open>k\<close> is not an arrow, the return type is a \<^verbatim>\<open>Type\<close> node of variant
    primitive named \<^verbatim>\<open>void\<close> with the line and column of token \<open>k\<close>, and the prototype
    ends at \<open>k\<close>.

  So the return type slot always holds a node, and the prototype is returned whenever
  the arrow is followed by a type.
\<close>

theorem fn_proto_return_type:
  "ast_parse_fn_proto pc i m = Inr (Some proto, j, pc') \<longleftrightarrow>
     (\<exists>visib_mod s params k return_type.
        i < length (tokens pc) \<and>
        (token_id (tokens pc ! i) = TokenIdKeywordFn \<and> visib_mod = FnProtoVisibModPrivate \<and> s = i + 1 \<or>
         token_id (tokens pc ! i) = TokenIdKeywordPub \<and> i + 1 < length (tokens pc) \<and>
           token_id (tokens pc ! (i + 1)) = TokenIdKeywordFn \<and> visib_mod = FnProtoVisibModPub \<and> s = i + 2 \<or>
         token_id (tokens pc ! i) = TokenIdKeywordExport \<and> i + 1 < length (tokens pc) \<and>
           token_id (tokens pc ! (i + 1)) = TokenIdKeywordFn \<and> visib_mod = FnProtoVisibModExport \<and> s = i + 2) \<and>
        s < length (tokens pc) \<and> token_id (tokens pc ! s) = TokenIdSymbol \<and>
        pc' = pc\<lparr>directive_list := None\<rparr> \<and>
        ast_parse_param_decl_list pc' (s + 1) [] = Inr (params, k) \<and> k < length (tokens pc) \<and>
        (if token_id (tokens pc ! k) = TokenIdArrow
         then ast_parse_type pc' (k + 1) = Inr (return_type, j)
         else return_type =
                AstNode (start_line (tokens pc ! k)) (start_column (tokens pc ! k))
                  (NodeTypeType (AstNodeTypeTypePrimitive ''void'')) \<and> j = k) \<and>
        proto = ast_create_node
          (NodeTypeFnProto (directive_list pc) visib_mod (ast_buf_from_token pc' (tokens pc ! s)) params return_type)
          (tokens pc ! i))"
  (is "?parsed \<longleftrightarrow> ?described")
proof
  assume ?parsed
  then show ?described
    unfolding ast_parse_fn_proto_folded
    by (auto simp: bind_eq_Inr token_at_eq_Inr ast_expect_token_eq_Inr Let_def
          return_type_or_void_def ast_create_void_type_node_def ast_create_node_def
          split: if_splits option.splits)
next
  assume ?described
  then obtain visib_mod s params k return_type where
    i: "i < length (tokens pc)"
    and head: "token_id (tokens pc ! i) = TokenIdKeywordFn \<and> visib_mod = FnProtoVisibModPrivate \<and> s = i + 1 \<or>
         token_id (tokens pc ! i) = TokenIdKeywordPub \<and> i + 1 < length (tokens pc) \<and>
           token_id (tokens pc ! (i + 1)) = TokenIdKeywordFn \<and> visib_mod = FnProtoVisibModPub \<and> s = i + 2 \<or>
         token_id (tokens pc ! i) = TokenIdKeywordExport \<and> i + 1 < length (tokens pc) \<and>
           token_id (tokens pc ! (i + 1)) = TokenIdKeywordFn \<and> visib_mod = FnProtoVisibModExport \<and> s = i + 2"
    and s: "s < length (tokens pc)" "token_id (tokens pc ! s) = TokenIdSymbol"
    and pc': "pc' = pc\<lparr>directive_list := None\<rparr>"
    and params: "ast_parse_param_decl_list pc' (s + 1) [] = Inr (params, k)" "k < length (tokens pc)"
    and return_type: "if token_id (tokens pc ! k) = TokenIdArrow
         then ast_parse_type pc' (k + 1) = Inr (return_type, j)
         else return_type =
                AstNode (start_line (tokens pc ! k)) (start_column (tokens pc ! k))
                  (NodeTypeType (AstNodeTypeTypePrimitive ''void'')) \<and> j = k"
    and proto: "proto = ast_create_node
          (NodeTypeFnProto (directive_list pc) visib_mod (ast_buf_from_token pc' (tokens pc ! s)) params return_type)
          (tokens pc ! i)"
    by blast
  from return_type have r: "return_type_or_void pc' (tokens pc ! k) k = Inr (return_type, j)"
    by (simp add: return_type_or_void_def ast_create_void_type_node_def ast_create_node_def
          split: if_splits)
  from head i s pc' params r proto show ?parsed
    unfolding ast_parse_fn_proto_folded
    by (auto simp: token_at_def ast_expect_token_def Let_def)
qed

text \<open>
  The prototypes of scenarios S2 (\<^verbatim>\<open>pub fn add(a: i32, b: i32) -> i32\<close>, arrow at token 12)
  and S3 (\<^verbatim>\<open>fn puts(s: *const u8) -> i32\<close> with a pending directive, arrow at token 16)
  and of S6 (\<^verbatim>\<open>fn f()\<close>, followed by the brace at token 4, column 8).
\<close>

theorem fn_proto_return_type_witness:
  "ast_parse_fn_proto s2_pc 0 False =
     Inr (Some (AstNode 1 1 (NodeTypeFnProto None FnProtoVisibModPub ''add''
           [AstNode 1 12 (NodeTypeParamDecl ''a'' (AstNode 1 15 (NodeTypeType (AstNodeTypeTypePrimitive ''i32'')))),
            AstNode 1 20 (NodeTypeParamDecl ''b'' (AstNode 1 23 (NodeTypeType (AstNodeTypeTypePrimitive ''i32''))))]
           (AstNode 1 31 (NodeTypeType (AstNodeTypeTypePrimitive ''i32''))))), 14, s2_pc) \<and>
   ast_parse_fn_proto (s3_pc\<lparr>directive_list := Some [AstNode 1 10 (NodeTypeDirective ''link'' ''c'')]\<rparr>) 7 True =
     Inr (Some (AstNode 1 21 (NodeTypeFnProto (Some [AstNode 1 10 (NodeTypeDirective ''link'' ''c'')])
           FnProtoVisibModPrivate ''puts''
           [AstNode 1 29 (NodeTypeParamDecl ''s''
              (AstNode 1 32 (NodeTypeType (AstNodeTypeTypePointer True
                 (AstNode 1 39 (NodeTypeType (AstNodeTypeTypePrimitive ''u8'')))))))]
           (AstNode 1 46 (NodeTypeType (AstNodeTypeTypePrimitive ''i32''))))), 18, s3_pc) \<and>
   ast_parse_fn_proto s6_pc 0 False =
     Inr (Some (AstNode 1 1 (NodeTypeFnProto None FnProtoVisibModPrivate ''f'' []
                  (AstNode 1 8 (NodeTypeType (AstNodeTypeTypePrimitive ''void''))))), 4, s6_pc) \<and>
   token_id (tokens s2_pc ! 12) = TokenIdArrow \<and>
   token_id (tokens s3_pc ! 16) = TokenIdArrow \<and>
   token_id (tokens s6_pc ! 4) = TokenIdLBrace \<and>
   start_column (tokens s6_pc ! 4) = 8"
proof (intro conjI)
  show "ast_parse_fn_proto s2_pc 0 False =
     Inr (Some (AstNode 1 1 (NodeTypeFnProto None FnProtoVisibModPub ''add''
           [AstNode 1 12 (NodeTypeParamDecl ''a'' (AstNode 1 15 (NodeTypeType (AstNodeTypeTypePrimitive ''i32'')))),
            AstNode 1 20 (NodeTypeParamDecl ''b'' (AstNode 1 23 (NodeTypeType (AstNodeTypeTypePrimitive ''i32''))))]
           (AstNode 1 31 (NodeTypeType (AstNodeTypeTypePrimitive ''i32''))))), 14, s2_pc)"
    apply (rule fn_proto_return_type [THEN iffD2])
    apply (rule exI [of _ FnProtoVisibModPub], rule exI [of _ 2])
    apply (rule exI [of _ "[AstNode 1 12 (NodeTypeParamDecl ''a'' (AstNode 1 15 (NodeTypeType (AstNodeTypeTypePrimitive ''i32'')))),
            AstNode 1 20 (NodeTypeParamDecl ''b'' (AstNode 1 23 (NodeTypeType (AstNodeTypeTypePrimitive ''i32''))))]"])
    apply (rule exI [of _ 12])
    apply (rule exI [of _ "AstNode 1 31 (NodeTypeType (AstNodeTypeTypePrimitive ''i32''))"])
    apply code_simp
    done
  show "ast_parse_fn_proto (s3_pc\<lparr>directive_list := Some [AstNode 1 10 (NodeTypeDirective ''link'' ''c'')]\<rparr>) 7 True =
     Inr (Some (AstNode 1 21 (NodeTypeFnProto (Some [AstNode 1 10 (NodeTypeDirective ''link'' ''c'')])
           FnProtoVisibModPrivate ''puts''
           [AstNode 1 29 (NodeTypeParamDecl ''s''
              (AstNode 1 32 (NodeTypeType (AstNodeTypeTypePointer True
                 (AstNode 1 39 (NodeTypeType (AstNodeTypeTypePrimitive ''u8'')))))))]
           (AstNode 1 46 (NodeTypeType (AstNodeTypeTypePrimitive ''i32''))))), 18, s3_pc)"
    apply (rule fn_proto_return_type [THEN iffD2])
    apply (rule exI [of _ FnProtoVisibModPrivate], rule exI [of _ 8])
    apply (rule exI [of _ "[AstNode 1 29 (NodeTypeParamDecl ''s''
              (AstNode 1 32 (NodeTypeType (AstNodeTypeTypePointer True
                 (AstNode 1 39 (NodeTypeType (AstNodeTypeTypePrimitive ''u8'')))))))]"])
    apply (rule exI [of _ 16])
    apply (rule exI [of _ "AstNode 1 46 (NodeTypeType (AstNodeTypeTypePrimitive ''i32''))"])
    apply code_simp
    done
  show "ast_parse_fn_proto s6_pc 0 False =
     Inr (Some (AstNode 1 1 (NodeTypeFnProto None FnProtoVisibModPrivate ''f'' []
                  (AstNode 1 8 (NodeTypeType (AstNodeTypeTypePrimitive ''void''))))), 4, s6_pc)"
    apply (rule fn_proto_return_type [THEN iffD2])
    apply (rule exI [of _ FnProtoVisibModPrivate], rule exI [of _ 1])
    apply (rule exI [of _ "[]"])
    apply (rule exI [of _ 4])
    apply (rule exI [of _ "AstNode 1 8 (NodeTypeType (AstNodeTypeTypePrimitive ''void''))"])
    apply code_simp
    done
  show "token_id (tokens s2_pc ! 12) = TokenIdArrow"
    by code_simp
  show "token_id (tokens s3_pc ! 16) = TokenIdArrow"
    by code_simp
  show "token_id (tokens s6_pc ! 4) = TokenIdLBrace"
    by code_simp
  show "start_column (tokens s6_pc ! 4) = 8"
    by code_simp
qed


section \<open>Directives without a declaration\<close>

lemma ast_parse_directives_result:
  "ast_parse_directives pc i acc = Inr (ds, k) \<Longrightarrow>
     i < length (tokens pc) \<and> k < length (tokens pc) \<and> token_id (tokens pc ! k) \<noteq> TokenIdNumberSign \<and>
     (\<exists>new. ds = acc @ new \<and>
        (new = [] \<longrightarrow> k = i) \<and>
        (new \<noteq> [] \<longrightarrow> token_id (tokens pc ! i) = TokenIdNumberSign \<and>
           line (hd new) = start_line (tokens pc ! i) \<and> column (hd new) = start_column (tokens pc ! i)))"
proof (induction pc i acc arbitrary: ds k rule: ast_parse_directives.induct)
  case (1 pc i acc)
  from "1.prems" have i: "i < length (tokens pc)"
    by (subst (asm) ast_parse_directives.simps) (auto simp: bind_eq_Inr token_at_eq_Inr)
  show ?case
  proof (cases "token_id (tokens pc ! i) = TokenIdNumberSign")
    case False
    with "1.prems" i show ?thesis
      by (subst (asm) ast_parse_directives.simps) (auto simp: bind_eq_Inr token_at_eq_Inr)
  next
    case True
    with "1.prems" i obtain d j where d: "ast_parse_directive pc i = Inr (d, j)"
      and rest: "ast_parse_directives pc j (acc @ [d]) = Inr (ds, k)"
      by (subst (asm) ast_parse_directives.simps) (auto simp: bind_eq_Inr token_at_eq_Inr)
    from d have pos: "line d = start_line (tokens pc ! i)" "column d = start_column (tokens pc ! i)"
      by (auto simp: ast_parse_directive_def bind_eq_Inr token_at_eq_Inr ast_create_node_def)
    from "1.IH" [OF _ True d refl rest] i
    obtain new where "ds = (acc @ [d]) @ new" "k < length (tokens pc)"
      "token_id (tokens pc ! k) \<noteq> TokenIdNumberSign"
      by (auto simp: token_at_eq_Inr)
    with True i pos show ?thesis by auto
  qed
qed

lemma parse_top_level_decl_no_match:
  assumes "k < length (tokens pc)"
    and "token_id (tokens pc ! k) \<notin>
           {TokenIdKeywordExport, TokenIdKeywordPub, TokenIdKeywordFn, TokenIdKeywordExtern, TokenIdKeywordUse}"
  shows "parse_top_level_decl E pc k = Inr (None, k, pc)"
  using assms
  by (simp add: parse_top_level_decl_def ast_parse_root_export_decl_def ast_parse_fn_def_def
        ast_parse_fn_proto_def ast_parse_extern_block_def ast_parse_use_def token_at_def)

lemma clear_directive_list:
  "directive_list pc = None \<Longrightarrow> pc\<lparr>directive_list := None\<rparr> = pc"
  by (cases pc) simp

lemma extern_block_other_token:
  assumes "directive_list pc = None" and "ast_parse_directives pc i [] = Inr (directives, k)"
    and "token_id (tokens pc ! k) \<notin>
           {TokenIdRBrace, TokenIdKeywordPub, TokenIdKeywordExport, TokenIdKeywordFn}"
  shows "ast_parse_extern_block_loop pc i fn_decls =
           Inl (ErrorMsg (start_line (tokens pc ! k)) (start_column (tokens pc ! k))
                  (''invalid token: '' @ [CHR 0x27] @ ast_buf_from_token pc (tokens pc ! k) @ [CHR 0x27]))"
proof -
  from ast_parse_directives_result [OF assms(2)]
  have "i < length (tokens pc)" "k < length (tokens pc)" by auto
  with assms show ?thesis
    by (subst ast_parse_extern_block_loop.simps)
       (simp add: token_at_def Let_def ast_parse_fn_decl_def ast_parse_fn_proto_def
          ast_invalid_token_error_def ast_error_def ast_buf_from_token_def)
qed

text \<open>
  The claim that directives inside an extern block that no declaration follows give
  \<^verbatim>\<open>invalid directive\<close> fails on \<^verbatim>\<open>extern { #link("c") 7 }\<close>: the parser reports the \<^verbatim>\<open>7\<close>
  (line 1, column 21) as an invalid token.
\<close>

theorem extern_directive_then_other_token:
  "ast_parse extern_junk_source extern_junk_tokens =
     Inl (ErrorMsg 1 21 (''invalid token: '' @ [CHR 0x27] @ ''7'' @ [CHR 0x27]))"
  by code_simp

text \<open>
  C8, as amended.  Let the directives collected at cursor \<open>i\<close> end at cursor \<open>k\<close>.  In the
  top-level loop, if token \<open>k\<close> begins no declaration (it is none of \<^verbatim>\<open>export\<close>, \<^verbatim>\<open>pub\<close>,
  \<^verbatim>\<open>fn\<close>, \<^verbatim>\<open>extern\<close>, \<^verbatim>\<open>use\<close>): with at least one directive the parse aborts with
  \<^verbatim>\<open>invalid directive\<close> at token \<open>i\<close>, the \<^verbatim>\<open>#\<close> of the first directive; with none the loop
  ends without error.  In an extern block the same holds when token \<open>k\<close> is the closing
  brace; any other token there is parsed as a function declaration, and one that begins
  none is reported as \<^verbatim>\<open>invalid token\<close>.
\<close>

theorem orphan_directives:
  assumes "directive_list pc = None" and "ast_parse_directives pc i [] = Inr (directives, k)"
  shows "(token_id (tokens pc ! k) \<notin>
            {TokenIdKeywordExport, TokenIdKeywordPub, TokenIdKeywordFn, TokenIdKeywordExtern, TokenIdKeywordUse} \<longrightarrow>
          ast_parse_top_level_decls_loop (Suc fuel) E pc i top_level_decls =
            (if directives = [] then Inr (top_level_decls, k, pc)
             else Inl (ErrorMsg (start_line (tokens pc ! i)) (start_column (tokens pc ! i)) ''invalid directive''))) \<and>
         (token_id (tokens pc ! k) = TokenIdRBrace \<longrightarrow>
          ast_parse_extern_block_loop pc i fn_decls =
            (if directives = [] then Inr (fn_decls, k + 1, pc)
             else Inl (ErrorMsg (start_line (tokens pc ! i)) (start_column (tokens pc ! i)) ''invalid directive''))) \<and>
         (token_id (tokens pc ! k) \<notin>
            {TokenIdRBrace, TokenIdKeywordPub, TokenIdKeywordExport, TokenIdKeywordFn} \<longrightarrow>
          ast_parse_extern_block_loop pc i fn_decls =
            Inl (ErrorMsg (start_line (tokens pc ! k)) (start_column (tokens pc ! k))
                   (''invalid token: '' @ [CHR 0x27] @ ast_buf_from_token pc (tokens pc ! k) @ [CHR 0x27]))) \<and>
         (directives \<noteq> [] \<longrightarrow>
            token_id (tokens pc ! i) = TokenIdNumberSign \<and>
            line (hd directives) = start_line (tokens pc ! i) \<and>
            column (hd directives) = start_column (tokens pc ! i))"
proof -
  from ast_parse_directives_result [OF assms(2)]
  have i: "i < length (tokens pc)" and k: "k < length (tokens pc)"
    and first: "directives \<noteq> [] \<longrightarrow>
            token_id (tokens pc ! i) = TokenIdNumberSign \<and>
            line (hd directives) = start_line (tokens pc ! i) \<and>
            column (hd directives) = start_column (tokens pc ! i)"
    by auto
  have top: "ast_parse_top_level_decls_loop (Suc fuel) E pc i top_level_decls =
            (if directives = [] then Inr (top_level_decls, k, pc)
             else Inl (ErrorMsg (start_line (tokens pc ! i)) (start_column (tokens pc ! i)) ''invalid directive''))"
    if "token_id (tokens pc ! k) \<notin>
            {TokenIdKeywordExport, TokenIdKeywordPub, TokenIdKeywordFn, TokenIdKeywordExtern, TokenIdKeywordUse}"
    using that assms i k
    by (simp add: ast_parse_top_level_decls_loop_Suc token_at_def parse_top_level_decl_no_match
          ast_error_def clear_directive_list del: ast_parse_top_level_decls_loop.simps)
  have ext: "ast_parse_extern_block_loop pc i fn_decls =
            (if directives = [] then Inr (fn_decls, k + 1, pc)
             else Inl (ErrorMsg (start_line (tokens pc ! i)) (start_column (tokens pc ! i)) ''invalid directive''))"
    if "token_id (tokens pc ! k) = TokenIdRBrace"
    using that assms i k
    by (subst ast_parse_extern_block_loop.simps)
       (simp add: token_at_def ast_error_def clear_directive_list Let_def)
  from top ext first extern_block_other_token [OF assms, of fn_decls] show ?thesis by blast
qed

theorem orphan_directives_witness:
  "ast_parse_directives orphan_top_pc 0 [] = Inr ([AstNode 1 1 (NodeTypeDirective ''link'' ''c'')], 5) \<and>
   ast_parse_top_level_decls_loop (Suc 6) (ast_parse_expression 7) orphan_top_pc 0 [] =
     Inl (ErrorMsg 1 1 ''invalid directive'') \<and>
   ast_parse_directives orphan_extern_pc 2 [] = Inr ([AstNode 1 10 (NodeTypeDirective ''link'' ''c'')], 7) \<and>
   ast_parse_extern_block_loop orphan_extern_pc 2 [] = Inl (ErrorMsg 1 10 ''invalid directive'') \<and>
   ast_parse_directives empty_pc 0 [] = Inr ([], 0) \<and>
   ast_parse_top_level_decls_loop (Suc 0) (ast_parse_expression 1) empty_pc 0 [] = Inr ([], 0, empty_pc)"
proof -
  have d1: "ast_parse_directives orphan_top_pc 0 [] = Inr ([AstNode 1 1 (NodeTypeDirective ''link'' ''c'')], 5)"
    and d2: "ast_parse_directives orphan_extern_pc 2 [] = Inr ([AstNode 1 10 (NodeTypeDirective ''link'' ''c'')], 7)"
    and d3: "ast_parse_directives empty_pc 0 [] = Inr ([], 0)"
    by code_simp+
  have n: "directive_list orphan_top_pc = None" "directive_list orphan_extern_pc = None"
    "directive_list empty_pc = None"
    by (simp_all add: program_defs)
  from orphan_directives [OF n(1) d1, of 6 "ast_parse_expression 7" "[]" "[]"]
    orphan_directives [OF n(2) d2, of 0 "ast_parse_expression 1" "[]" "[]"]
    orphan_directives [OF n(3) d3, of 0 "ast_parse_expression 1" "[]" "[]"]
    d1 d2 d3
  show ?thesis
    by (simp add: program_defs del: ast_parse_top_level_decls_loop.simps)
qed


section \<open>The grammar with the position of every node\<close>

text \<open>
  The grammar of the comments in \<^verbatim>\<open>parser.cpp\<close> as a relation: \<open>X_at pc i n j\<close> says that
  the tokens from index \<open>i\<close> up to (not including) index \<open>j\<close> are an \<open>X\<close> whose tree is
  \<open>n\<close>.  Every rule names the kind of each token it reads and the kind of the token that
  makes the parser choose it, and gives the node the line and column of one token of
  the production.  \<open>kind pc i\<close> is the kind of token \<open>i\<close>.
\<close>

abbreviation kind :: "ParseContext \<Rightarrow> nat \<Rightarrow> TokenId" where
  "kind pc i \<equiv> token_id (tokens pc ! i)"

inductive type_at :: "ParseContext \<Rightarrow> nat \<Rightarrow> AstNode \<Rightarrow> nat \<Rightarrow> bool" for pc where
  unreachable_type: "i < length (tokens pc) \<Longrightarrow> kind pc i = TokenIdKeywordUnreachable \<Longrightarrow>
     type_at pc i
       (ast_create_node (NodeTypeType (AstNodeTypeTypePrimitive ''unreachable'')) (tokens pc ! i)) (Suc i)"
| symbol_type: "i < length (tokens pc) \<Longrightarrow> kind pc i = TokenIdSymbol \<Longrightarrow>
     type_at pc i
       (ast_create_node (NodeTypeType (AstNodeTypeTypePrimitive (ast_buf_from_token pc (tokens pc ! i))))
          (tokens pc ! i))
       (Suc i)"
| pointer_type: "i < length (tokens pc) \<Longrightarrow> kind pc i = TokenIdStar \<Longrightarrow>
     Suc i < length (tokens pc) \<Longrightarrow> kind pc (Suc i) \<in> {TokenIdKeywordMut, TokenIdKeywordConst} \<Longrightarrow>
     is_const = (kind pc (Suc i) = TokenIdKeywordConst) \<Longrightarrow>
     type_at pc (Suc (Suc i)) child_type j \<Longrightarrow>
     type_at pc i
       (ast_create_node (NodeTypeType (AstNodeTypeTypePointer is_const child_type)) (tokens pc ! i)) j"

text \<open>
  The kinds of token an expression can start with, and for each binary level the level
  of its operands (\<^verbatim>\<open>MultiplyExpression\<close> has cast expressions as operands).
\<close>

definition primary_starts :: "TokenId set" where
  "primary_starts =
     {TokenIdNumberLiteral, TokenIdStringLiteral, TokenIdKeywordUnreachable, TokenIdSymbol,
      TokenIdLBrace, TokenIdLParen}"

definition operand_starts :: "TokenId set" where
  "operand_starts = primary_starts \<union> {TokenIdBang, TokenIdDash, TokenIdTilde}"

definition expression_starts :: "TokenId set" where
  "expression_starts = operand_starts \<union> {TokenIdKeywordReturn}"

fun tighter :: "BinaryLevel \<Rightarrow> BinaryLevel option" where
  "tighter LevelBoolOr = Some LevelBoolAnd"
| "tighter LevelBoolAnd = Some LevelComparison"
| "tighter LevelComparison = Some LevelBinOr"
| "tighter LevelBinOr = Some LevelBinXor"
| "tighter LevelBinXor = Some LevelBinAnd"
| "tighter LevelBinAnd = Some LevelBitShift"
| "tighter LevelBitShift = Some LevelAdd"
| "tighter LevelAdd = Some LevelMult"
| "tighter LevelMult = None"

text \<open>
  Expressions.  A literal, a symbol, a block, a \<^verbatim>\<open>return\<close> and a prefix operation have the
  position of their first token.  A grouped expression is the node of the expression
  between the parentheses.  A call has the position of its callee.  A cast has the
  position of its \<^verbatim>\<open>as\<close> token and a binary operation that of its operator token, the
  token \<open>k\<close> after the first operand.  A level takes one operator at most.
\<close>

inductive primary_expr_at :: "ParseContext \<Rightarrow> nat \<Rightarrow> AstNode \<Rightarrow> nat \<Rightarrow> bool"
  and fn_call_expr_at :: "ParseContext \<Rightarrow> nat \<Rightarrow> AstNode \<Rightarrow> nat \<Rightarrow> bool"
  and prefix_op_expr_at :: "ParseContext \<Rightarrow> nat \<Rightarrow> AstNode \<Rightarrow> nat \<Rightarrow> bool"
  and cast_expr_at :: "ParseContext \<Rightarrow> nat \<Rightarrow> AstNode \<Rightarrow> nat \<Rightarrow> bool"
  and operand_at :: "ParseContext \<Rightarrow> BinaryLevel \<Rightarrow> nat \<Rightarrow> AstNode \<Rightarrow> nat \<Rightarrow> bool"
  and level_at :: "ParseContext \<Rightarrow> BinaryLevel \<Rightarrow> nat \<Rightarrow> AstNode \<Rightarrow> nat \<Rightarrow> bool"
  and expression_at :: "ParseContext \<Rightarrow> nat \<Rightarrow> AstNode \<Rightarrow> nat \<Rightarrow> bool"
  and statements_at :: "ParseContext \<Rightarrow> nat \<Rightarrow> AstNode list \<Rightarrow> nat \<Rightarrow> bool"
  and args_at :: "ParseContext \<Rightarrow> nat \<Rightarrow> AstNode list \<Rightarrow> nat \<Rightarrow> bool"
  for pc where
  number_literal: "i < length (tokens pc) \<Longrightarrow> kind pc i = TokenIdNumberLiteral \<Longrightarrow>
     primary_expr_at pc i
       (ast_create_node (NodeTypeNumberLiteral (ast_buf_from_token pc (tokens pc ! i))) (tokens pc ! i))
       (Suc i)"
| string_literal: "i < length (tokens pc) \<Longrightarrow> kind pc i = TokenIdStringLiteral \<Longrightarrow>
     parse_string_literal pc (tokens pc ! i) = Inr s \<Longrightarrow>
     primary_expr_at pc i (ast_create_node (NodeTypeStringLiteral s) (tokens pc ! i)) (Suc i)"
| unreachable: "i < length (tokens pc) \<Longrightarrow> kind pc i = TokenIdKeywordUnreachable \<Longrightarrow>
     primary_expr_at pc i (ast_create_node NodeTypeUnreachable (tokens pc ! i)) (Suc i)"
| symbol: "i < length (tokens pc) \<Longrightarrow> kind pc i = TokenIdSymbol \<Longrightarrow>
     primary_expr_at pc i
       (ast_create_node (NodeTypeSymbol (ast_buf_from_token pc (tokens pc ! i))) (tokens pc ! i))
       (Suc i)"
| block: "i < length (tokens pc) \<Longrightarrow> kind pc i = TokenIdLBrace \<Longrightarrow>
     statements_at pc (Suc i) statements k \<Longrightarrow>
     primary_expr_at pc i (ast_create_node (NodeTypeBlock statements) (tokens pc ! i)) (Suc k)"
| grouped: "i < length (tokens pc) \<Longrightarrow> kind pc i = TokenIdLParen \<Longrightarrow>
     expression_at pc (Suc i) n k \<Longrightarrow> k < length (tokens pc) \<Longrightarrow> kind pc k = TokenIdRParen \<Longrightarrow>
     primary_expr_at pc i n (Suc k)"
| no_call: "primary_expr_at pc i n k \<Longrightarrow> k < length (tokens pc) \<Longrightarrow> kind pc k \<noteq> TokenIdLParen \<Longrightarrow>
     fn_call_expr_at pc i n k"
| call_no_args: "primary_expr_at pc i fn_ref_expr k \<Longrightarrow> k < length (tokens pc) \<Longrightarrow>
     kind pc k = TokenIdLParen \<Longrightarrow> Suc k < length (tokens pc) \<Longrightarrow> kind pc (Suc k) = TokenIdRParen \<Longrightarrow>
     fn_call_expr_at pc i (ast_create_node_with_node (NodeTypeFnCallExpr fn_ref_expr []) fn_ref_expr) (Suc (Suc k))"
| call_args: "primary_expr_at pc i fn_ref_expr k \<Longrightarrow> k < length (tokens pc) \<Longrightarrow>
     kind pc k = TokenIdLParen \<Longrightarrow> Suc k < length (tokens pc) \<Longrightarrow> kind pc (Suc k) \<noteq> TokenIdRParen \<Longrightarrow>
     args_at pc (Suc k) params j \<Longrightarrow>
     fn_call_expr_at pc i (ast_create_node_with_node (NodeTypeFnCallExpr fn_ref_expr params) fn_ref_expr) j"
| no_prefix_op: "i < length (tokens pc) \<Longrightarrow> tok_to_prefix_op (tokens pc ! i) = PrefixOpInvalid \<Longrightarrow>
     fn_call_expr_at pc i n j \<Longrightarrow> prefix_op_expr_at pc i n j"
| prefix_op: "i < length (tokens pc) \<Longrightarrow> tok_to_prefix_op (tokens pc ! i) \<noteq> PrefixOpInvalid \<Longrightarrow>
     fn_call_expr_at pc (Suc i) primary_expr j \<Longrightarrow>
     prefix_op_expr_at pc i
       (ast_create_node (NodeTypePrefixOpExpr (tok_to_prefix_op (tokens pc ! i)) primary_expr) (tokens pc ! i))
       j"
| no_cast: "prefix_op_expr_at pc i n k \<Longrightarrow> k < length (tokens pc) \<Longrightarrow> kind pc k \<noteq> TokenIdKeywordAs \<Longrightarrow>
     cast_expr_at pc i n k"
| cast: "prefix_op_expr_at pc i prefix_op_expr k \<Longrightarrow> k < length (tokens pc) \<Longrightarrow> kind pc k = TokenIdKeywordAs \<Longrightarrow>
     type_at pc (Suc k) type j \<Longrightarrow>
     cast_expr_at pc i (ast_create_node (NodeTypeCastExpr prefix_op_expr type) (tokens pc ! k)) j"
| operand_cast: "tighter L = None \<Longrightarrow> cast_expr_at pc i n j \<Longrightarrow> operand_at pc L i n j"
| operand_level: "tighter L = Some L' \<Longrightarrow> level_at pc L' i n j \<Longrightarrow> operand_at pc L i n j"
| no_fold: "operand_at pc L i n k \<Longrightarrow> k < length (tokens pc) \<Longrightarrow>
     map_of (level_operators L) (kind pc k) = None \<Longrightarrow> level_at pc L i n k"
| fold: "operand_at pc L i operand_1 k \<Longrightarrow> k < length (tokens pc) \<Longrightarrow>
     map_of (level_operators L) (kind pc k) = Some bin_op \<Longrightarrow> operand_at pc L (Suc k) operand_2 j \<Longrightarrow>
     level_at pc L i (ast_create_node (NodeTypeBinOpExpr operand_1 bin_op operand_2) (tokens pc ! k)) j"
| return_nothing: "i < length (tokens pc) \<Longrightarrow> kind pc i = TokenIdKeywordReturn \<Longrightarrow>
     Suc i < length (tokens pc) \<Longrightarrow> kind pc (Suc i) \<notin> expression_starts \<Longrightarrow>
     expression_at pc i (ast_create_node (NodeTypeReturnExpr None) (tokens pc ! i)) (Suc i)"
| return_value: "i < length (tokens pc) \<Longrightarrow> kind pc i = TokenIdKeywordReturn \<Longrightarrow>
     expression_at pc (Suc i) expr j \<Longrightarrow>
     expression_at pc i (ast_create_node (NodeTypeReturnExpr (Some expr)) (tokens pc ! i)) j"
| no_return: "i < length (tokens pc) \<Longrightarrow> kind pc i \<noteq> TokenIdKeywordReturn \<Longrightarrow>
     level_at pc LevelBoolOr i n j \<Longrightarrow> expression_at pc i n j"
| no_statements: "i < length (tokens pc) \<Longrightarrow> kind pc i = TokenIdRBrace \<Longrightarrow> statements_at pc i [] i"
| more_statements: "i < length (tokens pc) \<Longrightarrow> kind pc i \<noteq> TokenIdRBrace \<Longrightarrow>
     expression_at pc i statement k \<Longrightarrow> k < length (tokens pc) \<Longrightarrow> kind pc k = TokenIdSemicolon \<Longrightarrow>
     statements_at pc (Suc k) statements j \<Longrightarrow> statements_at pc i (statement # statements) j"
| last_arg: "expression_at pc i expr k \<Longrightarrow> k < length (tokens pc) \<Longrightarrow> kind pc k = TokenIdRParen \<Longrightarrow>
     args_at pc i [expr] (Suc k)"
| more_args: "expression_at pc i expr k \<Longrightarrow> k < length (tokens pc) \<Longrightarrow> kind pc k = TokenIdComma \<Longrightarrow>
     args_at pc (Suc k) params j \<Longrightarrow> args_at pc i (expr # params) j"

lemmas expression_inducts =
  primary_expr_at_fn_call_expr_at_prefix_op_expr_at_cast_expr_at_operand_at_level_at_expression_at_statements_at_args_at.inducts

lemma expression_starts:
  shows "primary_expr_at pc i n j \<Longrightarrow> kind pc i \<in> primary_starts"
    and "fn_call_expr_at pc i n j \<Longrightarrow> kind pc i \<in> primary_starts"
    and "prefix_op_expr_at pc i n j \<Longrightarrow> kind pc i \<in> operand_starts"
    and "cast_expr_at pc i n j \<Longrightarrow> kind pc i \<in> operand_starts"
    and "operand_at pc L i n j \<Longrightarrow> kind pc i \<in> operand_starts"
    and "level_at pc L i n j \<Longrightarrow> kind pc i \<in> operand_starts"
    and "expression_at pc i n j \<Longrightarrow> kind pc i \<in> expression_starts"
    and "statements_at pc i ns j \<Longrightarrow> True"
    and "args_at pc i ns j \<Longrightarrow> True"
  by (induction rule: expression_inducts)
     (auto simp: primary_starts_def operand_starts_def expression_starts_def split: TokenId.splits)

subsection \<open>The parser follows the grammar\<close>

text \<open>
  A parser function \<open>P\<close> that returns a node returns one of the relation \<open>R\<close>; when it
  returns no node it was not mandatory, has read nothing, and the token under the cursor
  is none of \<open>starts\<close>.
\<close>

definition sound ::
  "(ParseContext \<Rightarrow> nat \<Rightarrow> AstNode \<Rightarrow> nat \<Rightarrow> bool) \<Rightarrow> TokenId set \<Rightarrow> expr_parser \<Rightarrow> bool" where
  "sound R starts P \<longleftrightarrow>
     (\<forall>pc i m x j. P pc i m = Inr (Some x, j) \<longrightarrow> R pc i x j) \<and>
     (\<forall>pc i m j. P pc i m = Inr (None, j) \<longrightarrow>
        j = i \<and> \<not> m \<and> i < length (tokens pc) \<and> kind pc i \<notin> starts)"

lemma soundI:
  assumes "\<And>pc i m x j. P pc i m = Inr (Some x, j) \<Longrightarrow> R pc i x j"
    and "\<And>pc i m j. P pc i m = Inr (None, j) \<Longrightarrow>
           j = i \<and> \<not> m \<and> i < length (tokens pc) \<and> kind pc i \<notin> starts"
  shows "sound R starts P"
  unfolding sound_def using assms by blast

lemma sound_cases:
  "P pc i m = Inr (n, j) \<Longrightarrow> sound R starts P \<Longrightarrow>
     n = None \<and> j = i \<and> \<not> m \<and> i < length (tokens pc) \<and> kind pc i \<notin> starts \<or>
     (\<exists>x. n = Some x \<and> R pc i x j)"
  unfolding sound_def by (cases n) blast+

lemma soundD_Some: "P pc i m = Inr (Some x, j) \<Longrightarrow> sound R starts P \<Longrightarrow> R pc i x j"
  unfolding sound_def by blast

lemma sound_block_loop:
  assumes E: "sound expression_at expression_starts E"
  shows "ast_parse_block_loop fuel E pc i acc = Inr (statements, j) \<Longrightarrow>
           \<exists>rest k. statements = acc @ rest \<and> statements_at pc i rest k \<and> j = Suc k"
proof (induction fuel arbitrary: i acc)
  case 0
  then show ?case by simp
next
  case (Suc fuel)
  from Suc.prems consider
    (closed) "i < length (tokens pc)" "kind pc i = TokenIdRBrace" "statements = acc" "j = Suc i"
    | (statement) e k where "i < length (tokens pc)" "kind pc i \<noteq> TokenIdRBrace"
        "E pc i True = Inr (Some e, k)" "k < length (tokens pc)" "kind pc k = TokenIdSemicolon"
        "ast_parse_block_loop fuel E pc (Suc k) (acc @ [e]) = Inr (statements, j)"
    by (auto simp: bind_eq_Inr token_at_eq_Inr ast_parse_statement_def ast_expect_token_eq_Inr
        ast_parse_expression_statement_def mandatory_node_eq_Inr split: if_splits)
  then show ?case
  proof cases
    case closed
    then show ?thesis by (auto intro: no_statements)
  next
    case statement
    from Suc.IH [OF statement(6)] obtain rest k' where
      "statements = (acc @ [e]) @ rest" "statements_at pc (Suc k) rest k'" "j = Suc k'"
      by blast
    with statement soundD_Some [OF statement(3) E] show ?thesis
      by (auto intro: more_statements)
  qed
qed

lemma sound_block:
  assumes E: "sound expression_at expression_starts E"
  shows "sound primary_expr_at {TokenIdLBrace} (ast_parse_block E)"
  by (rule soundI)
    (auto simp: ast_parse_block_def bind_eq_Inr token_at_eq_Inr
        split: if_splits
        dest!: sound_block_loop [OF E] intro!: block)

lemma sound_grouped:
  assumes E: "sound expression_at expression_starts E"
  shows "sound primary_expr_at {TokenIdLParen} (ast_parse_grouped_expr E)"
  by (rule soundI;
      clarsimp simp: ast_parse_grouped_expr_def bind_eq_Inr token_at_eq_Inr ast_expect_token_eq_Inr
        split: if_splits;
      drule sound_cases [OF _ E];
      fastforce intro: grouped)

lemma sound_primary:
  assumes E: "sound expression_at expression_starts E"
  shows "sound primary_expr_at primary_starts (ast_parse_primary_expr E)"
  by (rule soundI)
    (auto simp: ast_parse_primary_expr_def bind_eq_Inr token_at_eq_Inr primary_starts_def
        split: if_splits option.splits
        dest!: sound_cases [OF _ sound_block [OF E]] sound_cases [OF _ sound_grouped [OF E]]
        intro: number_literal string_literal unreachable symbol)

lemma sound_fn_call_param_list_loop:
  assumes E: "sound expression_at expression_starts E"
  shows "ast_parse_fn_call_param_list_loop fuel E pc i acc = Inr (params, j) \<Longrightarrow>
           \<exists>rest. params = acc @ rest \<and> args_at pc i rest j"
proof (induction fuel arbitrary: i acc)
  case 0
  then show ?case by simp
next
  case (Suc fuel)
  from Suc.prems obtain e k where e: "E pc i True = Inr (Some e, k)" and k: "k < length (tokens pc)"
    and rest: "kind pc k = TokenIdRParen \<and> params = acc @ [e] \<and> j = Suc k \<or>
      kind pc k = TokenIdComma \<and>
      ast_parse_fn_call_param_list_loop fuel E pc (Suc k) (acc @ [e]) = Inr (params, j)"
    by (auto simp: bind_eq_Inr token_at_eq_Inr mandatory_node_eq_Inr ast_expect_token_eq_Inr
          split: if_splits)
  from rest show ?case
  proof
    assume "kind pc k = TokenIdRParen \<and> params = acc @ [e] \<and> j = Suc k"
    with k soundD_Some [OF e E] show ?thesis by (auto intro: last_arg)
  next
    assume *: "kind pc k = TokenIdComma \<and>
      ast_parse_fn_call_param_list_loop fuel E pc (Suc k) (acc @ [e]) = Inr (params, j)"
    with Suc.IH [of "Suc k" "acc @ [e]"] obtain rest where
      "params = (acc @ [e]) @ rest" "args_at pc (Suc k) rest j"
      by blast
    with * k soundD_Some [OF e E] show ?thesis by (auto intro: more_args)
  qed
qed

lemma sound_fn_call:
  assumes E: "sound expression_at expression_starts E"
  shows "sound fn_call_expr_at primary_starts (ast_parse_fn_call_expr E)"
  by (rule soundI;
      clarsimp simp: ast_parse_fn_call_expr_def bind_eq_Inr;
      drule sound_cases [OF _ sound_primary [OF E]];
      auto simp: ast_parse_fn_call_param_list_def bind_eq_Inr token_at_eq_Inr ast_expect_token_eq_Inr
        split: if_splits
        dest!: sound_fn_call_param_list_loop [OF E];
      fastforce intro: no_call call_no_args call_args)

lemma tok_to_prefix_op_Invalid:
  "tok_to_prefix_op t = PrefixOpInvalid \<longleftrightarrow> token_id t \<notin> {TokenIdBang, TokenIdDash, TokenIdTilde}"
  by (cases "token_id t") simp_all

lemma sound_prefix_op:
  assumes E: "sound expression_at expression_starts E"
  shows "sound prefix_op_expr_at operand_starts (ast_parse_prefix_op_expr E)"
  by (rule soundI;
      clarsimp simp: ast_parse_prefix_op_expr_def ast_parse_prefix_op_def Let_def
        bind_eq_Inr token_at_eq_Inr mandatory_node_eq_Inr simp del: tok_to_prefix_op.simps
        split: if_splits;
      drule sound_cases [OF _ sound_fn_call [OF E]];
      auto simp: operand_starts_def primary_starts_def tok_to_prefix_op_Invalid
        simp del: tok_to_prefix_op.simps;
      fastforce simp: tok_to_prefix_op_Invalid simp del: tok_to_prefix_op.simps
        intro: no_prefix_op prefix_op)

lemma ast_parse_type_at:
  "ast_parse_type pc i = Inr (node, j) \<Longrightarrow> type_at pc i node j"
proof (induction pc i arbitrary: node j rule: ast_parse_type.induct)
  case (1 pc i)
  from "1.prems" "1.IH" show ?case
    apply (subst (asm) ast_parse_type.simps)
    apply (auto simp: bind_eq_Inr token_at_eq_Inr split: if_splits intro!: type_at.intros)
    done
qed

lemma sound_cast:
  assumes E: "sound expression_at expression_starts E"
  shows "sound cast_expr_at operand_starts (ast_parse_cast_expression E)"
  by (rule soundI;
      clarsimp simp: ast_parse_cast_expression_def bind_eq_Inr;
      drule sound_cases [OF _ sound_prefix_op [OF E]];
      auto simp: bind_eq_Inr token_at_eq_Inr split: if_splits
        dest!: ast_parse_type_at;
      fastforce intro: no_cast cast)

lemma sound_fold_once:
  assumes P: "sound (\<lambda>pc. operand_at pc L) operand_starts P"
  shows "sound (\<lambda>pc. level_at pc L) operand_starts (fold_once (level_operators L) P)"
  by (rule soundI;
      clarsimp simp: fold_once_def bind_eq_Inr;
      drule sound_cases [OF _ P];
      auto simp: bind_eq_Inr token_at_eq_Inr mandatory_node_eq_Inr
        simp del: level_operators.simps
        split: if_splits option.splits
        dest!: soundD_Some [OF _ P];
      fastforce intro: no_fold fold)

lemma level_expr_fold: "level_expr L E = fold_once (level_operators L) (level_operand L E)"
  by (intro ext) (rule single_fold_level)

lemma level_operand_tighter:
  "level_operand L E = (case tighter L of None \<Rightarrow> ast_parse_cast_expression E | Some L' \<Rightarrow> level_expr L' E)"
  by (cases L) simp_all

lemma sound_operand:
  assumes "tighter L = None \<Longrightarrow> sound cast_expr_at operand_starts (ast_parse_cast_expression E)"
    and "\<And>L'. tighter L = Some L' \<Longrightarrow> sound (\<lambda>pc. level_at pc L') operand_starts (level_expr L' E)"
  shows "sound (\<lambda>pc. operand_at pc L) operand_starts (level_operand L E)"
proof (cases "tighter L")
  case None
  show ?thesis
    by (rule soundI; simp only: level_operand_tighter None option.case;
        drule sound_cases [OF _ assms(1) [OF None]]; fastforce intro: operand_cast [OF None])
next
  case (Some L')
  show ?thesis
    by (rule soundI; simp only: level_operand_tighter Some option.case;
        drule sound_cases [OF _ assms(2) [OF Some]]; fastforce intro: operand_level [OF Some])
qed

lemma sound_level:
  assumes E: "sound expression_at expression_starts E"
  shows "sound (\<lambda>pc. level_at pc L) operand_starts (level_expr L E)"
proof -
  have step: "sound (\<lambda>pc. level_at pc L) operand_starts (level_expr L E)"
    if "tighter L = None \<or> (\<exists>L'. tighter L = Some L' \<and> sound (\<lambda>pc. level_at pc L') operand_starts (level_expr L' E))"
    for L
    unfolding level_expr_fold [of L]
    by (rule sound_fold_once, rule sound_operand) (use that sound_cast [OF E] in auto)
  have m: "sound (\<lambda>pc. level_at pc LevelMult) operand_starts (level_expr LevelMult E)"
    by (rule step) simp
  from m have a: "sound (\<lambda>pc. level_at pc LevelAdd) operand_starts (level_expr LevelAdd E)"
    by (intro step) simp
  from a have s: "sound (\<lambda>pc. level_at pc LevelBitShift) operand_starts (level_expr LevelBitShift E)"
    by (intro step) simp
  from s have ba: "sound (\<lambda>pc. level_at pc LevelBinAnd) operand_starts (level_expr LevelBinAnd E)"
    by (intro step) simp
  from ba have bx: "sound (\<lambda>pc. level_at pc LevelBinXor) operand_starts (level_expr LevelBinXor E)"
    by (intro step) simp
  from bx have bo: "sound (\<lambda>pc. level_at pc LevelBinOr) operand_starts (level_expr LevelBinOr E)"
    by (intro step) simp
  from bo have c: "sound (\<lambda>pc. level_at pc LevelComparison) operand_starts (level_expr LevelComparison E)"
    by (intro step) simp
  from c have la: "sound (\<lambda>pc. level_at pc LevelBoolAnd) operand_starts (level_expr LevelBoolAnd E)"
    by (intro step) simp
  from la have lo: "sound (\<lambda>pc. level_at pc LevelBoolOr) operand_starts (level_expr LevelBoolOr E)"
    by (intro step) simp
  from m a s ba bx bo c la lo show ?thesis by (cases L) simp_all
qed

lemma sound_return:
  assumes E: "sound expression_at expression_starts E"
  shows "sound expression_at {TokenIdKeywordReturn} (ast_parse_return_expr E)"
  by (rule soundI;
      clarsimp simp: ast_parse_return_expr_def bind_eq_Inr token_at_eq_Inr split: if_splits;
      drule sound_cases [OF _ E];
      fastforce intro: return_nothing return_value)

lemma sound_expression: "sound expression_at expression_starts (ast_parse_expression fuel)"
proof (induction fuel)
  case 0
  show ?case by (rule soundI) simp_all
next
  case (Suc fuel)
  note b = sound_level [OF Suc, of LevelBoolOr, simplified]
  show ?case
    by (rule soundI;
        clarsimp simp: bind_eq_Inr token_at_eq_Inr;
        drule sound_cases [OF _ sound_return [OF Suc]];
        auto simp: bind_eq_Inr expression_starts_def split: if_splits option.splits
          dest!: sound_cases [OF _ b];
        fastforce intro: no_return)
qed

subsection \<open>The grammar determines the tree\<close>

text \<open>
  At most one rule applies at an index, so the relation holds of one node and one end
  index at most.
\<close>

lemma type_at_unique:
  "type_at pc i n j \<Longrightarrow> type_at pc i n' j' \<Longrightarrow> n' = n \<and> j' = j"
proof (induction arbitrary: n' j' rule: type_at.induct)
  case (unreachable_type i)
  from unreachable_type.prems show ?case
    by cases (use unreachable_type.hyps in \<open>auto\<close>)
next
  case (symbol_type i)
  from symbol_type.prems show ?case
    by cases (use symbol_type.hyps in \<open>auto\<close>)
next
  case (pointer_type i is_const child_type j)
  from pointer_type.prems show ?case
    by cases (use pointer_type.hyps in \<open>auto dest!: pointer_type.IH\<close>)
qed


lemma expression_unique:
  shows "primary_expr_at pc i n j \<Longrightarrow> primary_expr_at pc i n' j' \<Longrightarrow> n' = n \<and> j' = j"
    and "fn_call_expr_at pc i n j \<Longrightarrow> fn_call_expr_at pc i n' j' \<Longrightarrow> n' = n \<and> j' = j"
    and "prefix_op_expr_at pc i n j \<Longrightarrow> prefix_op_expr_at pc i n' j' \<Longrightarrow> n' = n \<and> j' = j"
    and "cast_expr_at pc i n j \<Longrightarrow> cast_expr_at pc i n' j' \<Longrightarrow> n' = n \<and> j' = j"
    and "operand_at pc L i n j \<Longrightarrow> operand_at pc L i n' j' \<Longrightarrow> n' = n \<and> j' = j"
    and "level_at pc L i n j \<Longrightarrow> level_at pc L i n' j' \<Longrightarrow> n' = n \<and> j' = j"
    and "expression_at pc i n j \<Longrightarrow> expression_at pc i n' j' \<Longrightarrow> n' = n \<and> j' = j"
    and "statements_at pc i ns j \<Longrightarrow> statements_at pc i ns' j' \<Longrightarrow> ns' = ns \<and> j' = j"
    and "args_at pc i ns j \<Longrightarrow> args_at pc i ns' j' \<Longrightarrow> ns' = ns \<and> j' = j"
proof (induction arbitrary: n' j' and n' j' and n' j' and n' j' and n' j' and n' j' and n' j'
    and ns' j' and ns' j'
    rule: primary_expr_at_fn_call_expr_at_prefix_op_expr_at_cast_expr_at_operand_at_level_at_expression_at_statements_at_args_at.inducts)
  case (number_literal i)
  from number_literal.prems show ?case
    by cases (use number_literal(1,2)  in \<open>auto simp del: tok_to_prefix_op.simps level_operators.simps\<close>)
next
  case (string_literal i s)
  from string_literal.prems show ?case
    by cases (use string_literal(1,2,3)  in \<open>auto simp del: tok_to_prefix_op.simps level_operators.simps\<close>)
next
  case (unreachable i)
  from unreachable.prems show ?case
    by cases (use unreachable(1,2)  in \<open>auto simp del: tok_to_prefix_op.simps level_operators.simps\<close>)
next
  case (symbol i)
  from symbol.prems show ?case
    by cases (use symbol(1,2)  in \<open>auto simp del: tok_to_prefix_op.simps level_operators.simps\<close>)
next
  case (block i statements k)
  from block.prems show ?case
    by cases (use block(1,2,3)  in \<open>auto dest!: block(4) simp del: tok_to_prefix_op.simps level_operators.simps\<close>)
next
  case (grouped i n k)
  from grouped.prems show ?case
    by cases (use grouped(1,2,3,5,6)  in \<open>auto dest!: grouped(4) simp del: tok_to_prefix_op.simps level_operators.simps\<close>)
next
  case (no_call i n k)
  from no_call.prems show ?case
    by cases (use no_call(1,3,4)  in \<open>auto dest!: no_call(2) simp del: tok_to_prefix_op.simps level_operators.simps\<close>)
next
  case (call_no_args i f k)
  from call_no_args.prems show ?case
    by cases (use call_no_args(1,3,4,5,6)  in \<open>auto dest!: call_no_args(2) simp del: tok_to_prefix_op.simps level_operators.simps\<close>)
next
  case (call_args i f k params j)
  from call_args.prems show ?case
    by cases (use call_args(1,3,4,5,6,7)  in \<open>auto dest!: call_args(2,8) simp del: tok_to_prefix_op.simps level_operators.simps\<close>)
next
  case (no_prefix_op i n j)
  from no_prefix_op.prems show ?case
    by cases (use no_prefix_op(1,2,3)  in \<open>auto dest!: no_prefix_op(4) simp del: tok_to_prefix_op.simps level_operators.simps\<close>)
next
  case (prefix_op i e j)
  from prefix_op.prems show ?case
    by cases (use prefix_op(1,2,3)  in \<open>auto dest!: prefix_op(4) simp del: tok_to_prefix_op.simps level_operators.simps\<close>)
next
  case (no_cast i n k)
  from no_cast.prems show ?case
    by cases (use no_cast(1,3,4)  in \<open>auto dest!: no_cast(2) simp del: tok_to_prefix_op.simps level_operators.simps\<close>)
next
  case (cast i e k t j)
  from cast.prems show ?case
    by cases (use cast(1,3,4,5)  in \<open>auto dest!: cast(2) type_at_unique [OF cast(5)] simp del: tok_to_prefix_op.simps level_operators.simps\<close>)
next
  case (operand_cast L i n j)
  from operand_cast.prems show ?case
    by cases (use operand_cast(1,2)  in \<open>auto dest!: operand_cast(3) simp del: tok_to_prefix_op.simps level_operators.simps\<close>)
next
  case (operand_level L L2 i n j)
  from operand_level.prems show ?case
    by cases (use operand_level(1,2)  in \<open>auto dest!: operand_level(3) simp del: tok_to_prefix_op.simps level_operators.simps\<close>)
next
  case (no_fold L i n k)
  from no_fold.prems show ?case
    by cases (use no_fold(1,3,4)  in \<open>auto dest!: no_fold(2) simp del: tok_to_prefix_op.simps level_operators.simps\<close>)
next
  case (fold L i a k bin_op b j)
  from fold.prems show ?case
    by cases (use fold(1,3,4,5)  in \<open>auto dest!: fold(2,6) simp del: tok_to_prefix_op.simps level_operators.simps\<close>)
next
  case (return_nothing i)
  from return_nothing.prems show ?case
    by cases (use return_nothing(1,2,3,4)  in \<open>auto dest!: expression_starts(7) simp del: tok_to_prefix_op.simps level_operators.simps\<close>)
next
  case (return_value i e j)
  from return_value.prems show ?case
    by cases (use return_value(1,2,3) expression_starts(7) [OF return_value(3)] in \<open>auto dest!: return_value(4) simp del: tok_to_prefix_op.simps level_operators.simps\<close>)
next
  case (no_return i n j)
  from no_return.prems show ?case
    by cases (use no_return(1,2,3)  in \<open>auto dest!: no_return(4) simp del: tok_to_prefix_op.simps level_operators.simps\<close>)
next
  case (no_statements i)
  from no_statements.prems show ?case
    by cases (use no_statements(1,2)  in \<open>auto simp del: tok_to_prefix_op.simps level_operators.simps\<close>)
next
  case (more_statements i e k es j)
  from more_statements.prems show ?case
    by cases (use more_statements(1,2,3,5,6,7)  in \<open>auto dest!: more_statements(4,8) simp del: tok_to_prefix_op.simps level_operators.simps\<close>)
next
  case (last_arg i e k)
  from last_arg.prems show ?case
    by cases (use last_arg(1,3,4)  in \<open>auto dest!: last_arg(2) simp del: tok_to_prefix_op.simps level_operators.simps\<close>)
next
  case (more_args i e k es j)
  from more_args.prems show ?case
    by cases (use more_args(1,3,4,5)  in \<open>auto dest!: more_args(2,6) simp del: tok_to_prefix_op.simps level_operators.simps\<close>)
qed

subsection \<open>Declarations\<close>

text \<open>
  Directives, parameter lists and prototypes.  A directive has the position of its
  \<^verbatim>\<open>#\<close>, a parameter that of its name, a prototype that of its first token
  (\<^verbatim>\<open>fn\<close>, \<^verbatim>\<open>pub\<close> or \<^verbatim>\<open>export\<close>).  Without arrow the return type is the \<^verbatim>\<open>void\<close> node at the
  token after the parameter list.  A prototype carries the directives handed to it.
\<close>

inductive directive_at :: "ParseContext \<Rightarrow> nat \<Rightarrow> AstNode \<Rightarrow> nat \<Rightarrow> bool" for pc where
  directive: "i + 4 < length (tokens pc) \<Longrightarrow> kind pc i = TokenIdNumberSign \<Longrightarrow>
     kind pc (Suc i) = TokenIdSymbol \<Longrightarrow> kind pc (Suc (Suc i)) = TokenIdLParen \<Longrightarrow>
     kind pc (i + 3) = TokenIdStringLiteral \<Longrightarrow>
     parse_string_literal pc (tokens pc ! (i + 3)) = Inr param \<Longrightarrow>
     kind pc (i + 4) = TokenIdRParen \<Longrightarrow>
     directive_at pc i
       (ast_create_node (NodeTypeDirective (ast_buf_from_token pc (tokens pc ! Suc i)) param) (tokens pc ! i))
       (i + 5)"

inductive directives_at :: "ParseContext \<Rightarrow> nat \<Rightarrow> AstNode list \<Rightarrow> nat \<Rightarrow> bool" for pc where
  no_directives: "i < length (tokens pc) \<Longrightarrow> kind pc i \<noteq> TokenIdNumberSign \<Longrightarrow>
     directives_at pc i [] i"
| more_directives: "i < length (tokens pc) \<Longrightarrow> kind pc i = TokenIdNumberSign \<Longrightarrow>
     directive_at pc i directive_node k \<Longrightarrow> directives_at pc k directives j \<Longrightarrow>
     directives_at pc i (directive_node # directives) j"

inductive param_decl_at :: "ParseContext \<Rightarrow> nat \<Rightarrow> AstNode \<Rightarrow> nat \<Rightarrow> bool" for pc where
  param_decl: "i < length (tokens pc) \<Longrightarrow> kind pc i = TokenIdSymbol \<Longrightarrow>
     Suc i < length (tokens pc) \<Longrightarrow> kind pc (Suc i) = TokenIdColon \<Longrightarrow>
     type_at pc (Suc (Suc i)) type j \<Longrightarrow>
     param_decl_at pc i
       (ast_create_node (NodeTypeParamDecl (ast_buf_from_token pc (tokens pc ! i)) type) (tokens pc ! i)) j"

inductive param_decls_at :: "ParseContext \<Rightarrow> nat \<Rightarrow> AstNode list \<Rightarrow> nat \<Rightarrow> bool" for pc where
  last_param: "param_decl_at pc i param_decl_node k \<Longrightarrow> k < length (tokens pc) \<Longrightarrow>
     kind pc k = TokenIdRParen \<Longrightarrow> param_decls_at pc i [param_decl_node] (Suc k)"
| more_params: "param_decl_at pc i param_decl_node k \<Longrightarrow> k < length (tokens pc) \<Longrightarrow>
     kind pc k = TokenIdComma \<Longrightarrow> param_decls_at pc (Suc k) params j \<Longrightarrow>
     param_decls_at pc i (param_decl_node # params) j"

inductive param_decl_list_at :: "ParseContext \<Rightarrow> nat \<Rightarrow> AstNode list \<Rightarrow> nat \<Rightarrow> bool" for pc where
  no_params: "i < length (tokens pc) \<Longrightarrow> kind pc i = TokenIdLParen \<Longrightarrow>
     Suc i < length (tokens pc) \<Longrightarrow> kind pc (Suc i) = TokenIdRParen \<Longrightarrow>
     param_decl_list_at pc i [] (Suc (Suc i))"
| some_params: "i < length (tokens pc) \<Longrightarrow> kind pc i = TokenIdLParen \<Longrightarrow>
     Suc i < length (tokens pc) \<Longrightarrow> kind pc (Suc i) \<noteq> TokenIdRParen \<Longrightarrow>
     param_decls_at pc (Suc i) params j \<Longrightarrow> param_decl_list_at pc i params j"

inductive return_type_at :: "ParseContext \<Rightarrow> nat \<Rightarrow> AstNode \<Rightarrow> nat \<Rightarrow> bool" for pc where
  void_type: "k < length (tokens pc) \<Longrightarrow> kind pc k \<noteq> TokenIdArrow \<Longrightarrow>
     return_type_at pc k (ast_create_void_type_node (tokens pc ! k)) k"
| arrow_type: "k < length (tokens pc) \<Longrightarrow> kind pc k = TokenIdArrow \<Longrightarrow>
     type_at pc (Suc k) return_type j \<Longrightarrow> return_type_at pc k return_type j"

inductive fn_visib_at :: "ParseContext \<Rightarrow> nat \<Rightarrow> FnProtoVisibMod \<Rightarrow> nat \<Rightarrow> bool" for pc where
  private_fn: "i < length (tokens pc) \<Longrightarrow> kind pc i = TokenIdKeywordFn \<Longrightarrow>
     fn_visib_at pc i FnProtoVisibModPrivate (Suc i)"
| pub_fn: "i < length (tokens pc) \<Longrightarrow> kind pc i = TokenIdKeywordPub \<Longrightarrow>
     Suc i < length (tokens pc) \<Longrightarrow> kind pc (Suc i) = TokenIdKeywordFn \<Longrightarrow>
     fn_visib_at pc i FnProtoVisibModPub (Suc (Suc i))"
| export_fn: "i < length (tokens pc) \<Longrightarrow> kind pc i = TokenIdKeywordExport \<Longrightarrow>
     Suc i < length (tokens pc) \<Longrightarrow> kind pc (Suc i) = TokenIdKeywordFn \<Longrightarrow>
     fn_visib_at pc i FnProtoVisibModExport (Suc (Suc i))"

inductive fn_proto_at :: "ParseContext \<Rightarrow> nat \<Rightarrow> AstNode list option \<Rightarrow> AstNode \<Rightarrow> nat \<Rightarrow> bool"
  for pc where
  fn_proto: "fn_visib_at pc i visib_mod s \<Longrightarrow> s < length (tokens pc) \<Longrightarrow> kind pc s = TokenIdSymbol \<Longrightarrow>
     param_decl_list_at pc (Suc s) params k \<Longrightarrow> return_type_at pc k return_type j \<Longrightarrow>
     fn_proto_at pc i directives
       (ast_create_node
          (NodeTypeFnProto directives visib_mod (ast_buf_from_token pc (tokens pc ! s)) params return_type)
          (tokens pc ! i))
       j"

text \<open>
  A declaration is a run of directives followed by the declaration proper, which carries
  exactly that run: in the prototype of a function declaration or definition, in the
  \<^verbatim>\<open>ExternBlock\<close>, \<^verbatim>\<open>RootExportDecl\<close> or \<^verbatim>\<open>Use\<close> node otherwise.  \<^verbatim>\<open>FnDecl\<close> and \<^verbatim>\<open>FnDef\<close> have the
  position of their prototype, the other three that of their keyword.  The root has the
  position of token 0 and ends at the last token.
\<close>

inductive fn_decl_at :: "ParseContext \<Rightarrow> nat \<Rightarrow> AstNode \<Rightarrow> nat \<Rightarrow> bool" for pc where
  fn_decl: "directives_at pc i directives k \<Longrightarrow> fn_proto_at pc k (Some directives) fn_proto k' \<Longrightarrow>
     k' < length (tokens pc) \<Longrightarrow> kind pc k' = TokenIdSemicolon \<Longrightarrow>
     fn_decl_at pc i (ast_create_node_with_node (NodeTypeFnDecl fn_proto) fn_proto) (Suc k')"

inductive fn_decls_at :: "ParseContext \<Rightarrow> nat \<Rightarrow> AstNode list \<Rightarrow> nat \<Rightarrow> bool" for pc where
  no_fn_decls: "i < length (tokens pc) \<Longrightarrow> kind pc i = TokenIdRBrace \<Longrightarrow> fn_decls_at pc i [] i"
| more_fn_decls: "fn_decl_at pc i fn_decl_node k \<Longrightarrow> fn_decls_at pc k fn_decls j \<Longrightarrow>
     fn_decls_at pc i (fn_decl_node # fn_decls) j"

inductive decl_body_at :: "ParseContext \<Rightarrow> nat \<Rightarrow> AstNode list option \<Rightarrow> AstNode \<Rightarrow> nat \<Rightarrow> bool"
  for pc where
  fn_def: "fn_proto_at pc k directives fn_proto k' \<Longrightarrow> k' < length (tokens pc) \<Longrightarrow>
     kind pc k' = TokenIdLBrace \<Longrightarrow> primary_expr_at pc k' body j \<Longrightarrow>
     decl_body_at pc k directives (ast_create_node_with_node (NodeTypeFnDef fn_proto body) fn_proto) j"
| extern_block: "k < length (tokens pc) \<Longrightarrow> kind pc k = TokenIdKeywordExtern \<Longrightarrow>
     Suc k < length (tokens pc) \<Longrightarrow> kind pc (Suc k) = TokenIdLBrace \<Longrightarrow>
     fn_decls_at pc (Suc (Suc k)) fn_decls k' \<Longrightarrow>
     decl_body_at pc k directives
       (ast_create_node (NodeTypeExternBlock directives fn_decls) (tokens pc ! k)) (Suc k')"
| root_export_decl: "k + 3 < length (tokens pc) \<Longrightarrow> kind pc k = TokenIdKeywordExport \<Longrightarrow>
     kind pc (Suc k) = TokenIdSymbol \<Longrightarrow> kind pc (Suc (Suc k)) = TokenIdStringLiteral \<Longrightarrow>
     parse_string_literal pc (tokens pc ! Suc (Suc k)) = Inr name \<Longrightarrow>
     kind pc (k + 3) = TokenIdSemicolon \<Longrightarrow>
     decl_body_at pc k directives
       (ast_create_node
          (NodeTypeRootExportDecl (ast_buf_from_token pc (tokens pc ! Suc k)) name directives)
          (tokens pc ! k))
       (k + 4)"
| use: "Suc (Suc k) < length (tokens pc) \<Longrightarrow> kind pc k = TokenIdKeywordUse \<Longrightarrow>
     kind pc (Suc k) = TokenIdStringLiteral \<Longrightarrow> kind pc (Suc (Suc k)) = TokenIdSemicolon \<Longrightarrow>
     parse_string_literal pc (tokens pc ! Suc k) = Inr path \<Longrightarrow>
     decl_body_at pc k directives (ast_create_node (NodeTypeUse path directives) (tokens pc ! k)) (k + 3)"

definition decl_starts :: "TokenId set" where
  "decl_starts =
     {TokenIdNumberSign, TokenIdKeywordExport, TokenIdKeywordPub, TokenIdKeywordFn,
      TokenIdKeywordExtern, TokenIdKeywordUse}"

inductive top_level_decl_at :: "ParseContext \<Rightarrow> nat \<Rightarrow> AstNode \<Rightarrow> nat \<Rightarrow> bool" for pc where
  top_level_decl: "directives_at pc i directives k \<Longrightarrow> decl_body_at pc k (Some directives) n j \<Longrightarrow>
     top_level_decl_at pc i n j"

inductive top_level_decls_at :: "ParseContext \<Rightarrow> nat \<Rightarrow> AstNode list \<Rightarrow> nat \<Rightarrow> bool" for pc where
  no_decls: "i < length (tokens pc) \<Longrightarrow> kind pc i \<notin> decl_starts \<Longrightarrow> top_level_decls_at pc i [] i"
| more_decls: "top_level_decl_at pc i n k \<Longrightarrow> top_level_decls_at pc k top_level_decls j \<Longrightarrow>
     top_level_decls_at pc i (n # top_level_decls) j"

inductive root_at :: "ParseContext \<Rightarrow> AstNode \<Rightarrow> bool" for pc where
  root: "top_level_decls_at pc 0 top_level_decls j \<Longrightarrow> Suc j = length (tokens pc) \<Longrightarrow>
     root_at pc (ast_create_node (NodeTypeRoot top_level_decls) (tokens pc ! 0))"

text \<open>
  The parser follows these rules too.  A declaration parser is called with the run of
  directives pending in the context and returns the context with none pending; the
  names it reads do not depend on the pending directives.
\<close>

lemma ast_parse_directive_at:
  "ast_parse_directive pc i = Inr (n, j) \<Longrightarrow> directive_at pc i n j"
  by (auto simp: ast_parse_directive_def bind_eq_Inr token_at_eq_Inr ast_expect_token_eq_Inr
        intro!: directive)

lemma ast_parse_directives_at:
  "ast_parse_directives pc i acc = Inr (ds, j) \<Longrightarrow>
     \<exists>rest. ds = acc @ rest \<and> directives_at pc i rest j"
proof (induction pc i acc rule: ast_parse_directives.induct)
  case (1 pc i acc)
  from "1.prems" consider (finished) "i < length (tokens pc)" "kind pc i \<noteq> TokenIdNumberSign"
      "ds = acc" "j = i"
    | (more) d k where "i < length (tokens pc)" "kind pc i = TokenIdNumberSign"
        "ast_parse_directive pc i = Inr (d, k)" "ast_parse_directives pc k (acc @ [d]) = Inr (ds, j)"
    by (subst (asm) ast_parse_directives.simps)
       (auto simp: bind_eq_Inr token_at_eq_Inr split: if_splits)
  then show ?case
  proof cases
    case finished
    then show ?thesis by (auto intro: no_directives)
  next
    case more
    with "1.IH" [of "tokens pc ! i" "(d, k)" d k] obtain rest where
      "ds = (acc @ [d]) @ rest" "directives_at pc k rest j"
      by (auto simp: token_at_eq_Inr)
    with more ast_parse_directive_at [OF more(3)] show ?thesis
      by (auto intro: more_directives)
  qed
qed

lemma ast_parse_param_decl_at:
  "ast_parse_param_decl pc i = Inr (n, j) \<Longrightarrow> param_decl_at pc i n j"
  by (auto simp: ast_parse_param_decl_def bind_eq_Inr token_at_eq_Inr ast_expect_token_eq_Inr
        dest!: ast_parse_type_at intro!: param_decl)

lemma ast_parse_param_decl_list_loop_at:
  "ast_parse_param_decl_list_loop pc i acc = Inr (ps, j) \<Longrightarrow>
     \<exists>rest. ps = acc @ rest \<and> param_decls_at pc i rest j"
proof (induction pc i acc rule: ast_parse_param_decl_list_loop.induct)
  case (1 pc i acc)
  from "1.prems" obtain p k where p: "ast_parse_param_decl pc i = Inr (p, k)"
    and k: "k < length (tokens pc)"
    and rest: "kind pc k = TokenIdRParen \<and> ps = acc @ [p] \<and> j = Suc k \<or>
       kind pc k \<noteq> TokenIdRParen \<and> kind pc k = TokenIdComma \<and>
       ast_parse_param_decl_list_loop pc (Suc k) (acc @ [p]) = Inr (ps, j)"
    by (subst (asm) ast_parse_param_decl_list_loop.simps)
       (auto simp: bind_eq_Inr token_at_eq_Inr ast_expect_token_eq_Inr split: if_splits)
  from rest show ?case
  proof
    assume "kind pc k = TokenIdRParen \<and> ps = acc @ [p] \<and> j = Suc k"
    with k ast_parse_param_decl_at [OF p] show ?thesis by (auto intro: last_param)
  next
    assume *: "kind pc k \<noteq> TokenIdRParen \<and> kind pc k = TokenIdComma \<and>
       ast_parse_param_decl_list_loop pc (Suc k) (acc @ [p]) = Inr (ps, j)"
    with p k "1.IH" [of "(p, k)" p k "tokens pc ! k" "()"] obtain rest where
      "ps = (acc @ [p]) @ rest" "param_decls_at pc (Suc k) rest j"
      by (auto simp: token_at_eq_Inr ast_expect_token_eq_Inr)
    with * k ast_parse_param_decl_at [OF p] show ?thesis by (auto intro: more_params)
  qed
qed

lemma ast_parse_param_decl_list_at:
  "ast_parse_param_decl_list pc i [] = Inr (ps, j) \<Longrightarrow> param_decl_list_at pc i ps j"
  by (auto simp: ast_parse_param_decl_list_def bind_eq_Inr token_at_eq_Inr ast_expect_token_eq_Inr
        split: if_splits dest!: ast_parse_param_decl_list_loop_at;
      fastforce intro: no_params some_params)

lemma return_type_or_void_at:
  "return_type_or_void pc t k = Inr (return_type, j) \<Longrightarrow> t = tokens pc ! k \<Longrightarrow>
     k < length (tokens pc) \<Longrightarrow> return_type_at pc k return_type j"
  by (auto simp: return_type_or_void_def split: if_splits dest!: ast_parse_type_at
        intro: void_type arrow_type)

lemma fn_proto_atI:
  assumes toks: "tokens pc1 = tokens pc"
    and head: "kind pc i = TokenIdKeywordFn \<and> visib_mod = FnProtoVisibModPrivate \<and> s = Suc i \<or>
       kind pc i = TokenIdKeywordPub \<and> kind pc (Suc i) = TokenIdKeywordFn \<and>
         visib_mod = FnProtoVisibModPub \<and> s = Suc (Suc i) \<or>
       kind pc i = TokenIdKeywordExport \<and> kind pc (Suc i) = TokenIdKeywordFn \<and>
         visib_mod = FnProtoVisibModExport \<and> s = Suc (Suc i)"
    and s: "s < length (tokens pc)" "kind pc s = TokenIdSymbol"
    and params: "ast_parse_param_decl_list pc1 (Suc s) [] = Inr (params, k)"
    and k: "k < length (tokens pc)"
    and return_type: "return_type_or_void pc1 (tokens pc ! k) k = Inr (return_type, j)"
  shows "fn_proto_at pc1 i directives
       (ast_create_node
          (NodeTypeFnProto directives visib_mod (ast_buf_from_token pc1 (tokens pc ! s)) params return_type)
          (tokens pc ! i))
       j"
proof -
  from head s(1) toks have "fn_visib_at pc1 i visib_mod s"
    by (auto intro!: fn_visib_at.intros)
  moreover from s toks have "s < length (tokens pc1)" "kind pc1 s = TokenIdSymbol" by simp_all
  moreover note ast_parse_param_decl_list_at [OF params]
  moreover from return_type k toks have "return_type_at pc1 k return_type j"
    by (intro return_type_or_void_at) simp_all
  ultimately have "fn_proto_at pc1 i directives
       (ast_create_node
          (NodeTypeFnProto directives visib_mod (ast_buf_from_token pc1 (tokens pc1 ! s)) params return_type)
          (tokens pc1 ! i))
       j"
    by (rule fn_proto)
  with toks show ?thesis by simp
qed

lemma ast_parse_fn_proto_at:
  assumes "ast_parse_fn_proto pc i m = Inr (Some n, j, pc')"
  shows "fn_proto_at pc' i (directive_list pc) n j"
  using assms unfolding ast_parse_fn_proto_folded
  apply (clarsimp simp: bind_eq_Inr token_at_eq_Inr ast_expect_token_eq_Inr Let_def
          split: if_splits option.splits)
    apply (rule fn_proto_atI, simp_all)+
  done


lemma ast_parse_fn_decl_at:
  assumes "ast_parse_fn_decl pc i = Inr (n, j, pc')"
  shows "pc' = pc\<lparr>directive_list := None\<rparr> \<and>
     (\<exists>fn_proto k. fn_proto_at pc' i (directive_list pc) fn_proto k \<and> k < length (tokens pc) \<and>
        kind pc k = TokenIdSemicolon \<and>
        n = ast_create_node_with_node (NodeTypeFnDecl fn_proto) fn_proto \<and> j = Suc k)"
proof -
  from assms obtain fn_proto k pc1 where
    fn_proto: "ast_parse_fn_proto pc i True = Inr (Some fn_proto, k, pc1)"
    and k: "k < length (tokens pc1)" "kind pc1 k = TokenIdSemicolon"
    and n: "n = ast_create_node_with_node (NodeTypeFnDecl fn_proto) fn_proto" "j = Suc k" "pc' = pc1"
    by (auto simp: ast_parse_fn_decl_def bind_eq_Inr token_at_eq_Inr ast_expect_token_eq_Inr
          split: option.splits)
  from ast_parse_fn_proto_index [OF fn_proto] have pc1: "pc1 = pc\<lparr>directive_list := None\<rparr>" by simp
  from ast_parse_fn_proto_at [OF fn_proto] k n pc1 show ?thesis by auto
qed

lemma directives_at_Nil: "directives_at pc i [] k \<Longrightarrow> k = i"
  by (erule directives_at.cases) simp_all

lemma ast_parse_extern_block_loop_at:
  "ast_parse_extern_block_loop pc i acc = Inr (fn_decls, j, pc') \<Longrightarrow>
     \<exists>rest k. fn_decls = acc @ rest \<and> fn_decls_at pc i rest k \<and> j = Suc k"
proof (induction pc i acc rule: ast_parse_extern_block_loop.induct)
  case (1 pc i acc)
  from "1.prems" obtain ds k where none: "directive_list pc = None" and i: "i < length (tokens pc)"
    and ds: "ast_parse_directives pc i [] = Inr (ds, k)" and k: "k < length (tokens pc)"
    and rest: "kind pc k = TokenIdRBrace \<and> ds = [] \<and> fn_decls = acc \<and> j = Suc k \<or>
       kind pc k \<noteq> TokenIdRBrace \<and>
       (\<exists>child k' pc2. ast_parse_fn_decl (pc\<lparr>directive_list := Some ds\<rparr>) k = Inr (child, k', pc2) \<and>
          ast_parse_extern_block_loop pc2 k' (acc @ [child]) = Inr (fn_decls, j, pc'))"
    by (subst (asm) ast_parse_extern_block_loop.simps)
       (auto simp: bind_eq_Inr token_at_eq_Inr Let_def split: if_splits)
  from ast_parse_directives_at [OF ds] have run: "directives_at pc i ds k" by simp
  from rest show ?case
  proof
    assume *: "kind pc k = TokenIdRBrace \<and> ds = [] \<and> fn_decls = acc \<and> j = Suc k"
    with run have "k = i" by (auto dest: directives_at_Nil)
    with * i show ?thesis by (auto intro: no_fn_decls)
  next
    assume "kind pc k \<noteq> TokenIdRBrace \<and>
       (\<exists>child k' pc2. ast_parse_fn_decl (pc\<lparr>directive_list := Some ds\<rparr>) k = Inr (child, k', pc2) \<and>
          ast_parse_extern_block_loop pc2 k' (acc @ [child]) = Inr (fn_decls, j, pc'))"
    then obtain child k' pc2 where brace: "kind pc k \<noteq> TokenIdRBrace"
      and child: "ast_parse_fn_decl (pc\<lparr>directive_list := Some ds\<rparr>) k = Inr (child, k', pc2)"
      and loop: "ast_parse_extern_block_loop pc2 k' (acc @ [child]) = Inr (fn_decls, j, pc')"
      by blast
    from ast_parse_fn_decl_at [OF child] none have pc2: "pc2 = pc"
      by (simp add: clear_directive_list)
    from ast_parse_fn_decl_at [OF child] run have "fn_decl_at pc i child k'"
      unfolding pc2 by (auto intro: fn_decl)
    moreover
    from "1.IH" [of "tokens pc ! i" "(ds, k)" ds k "pc\<lparr>directive_list := Some ds\<rparr>" "tokens pc ! k"
        "(child, k', pc2)" child "(k', pc2)" k' pc2] none i k ds brace child loop
    obtain rest k'' where "fn_decls = (acc @ [child]) @ rest" "fn_decls_at pc2 k' rest k''" "j = Suc k''"
      by (auto simp: token_at_eq_Inr)
    ultimately show ?thesis unfolding pc2 by (auto intro: more_fn_decls)
  qed
qed

lemma ast_parse_extern_block_at:
  assumes "ast_parse_extern_block pc i m = Inr (Some n, j, pc')"
  shows "decl_body_at pc' i (directive_list pc) n j"
proof -
  from ast_parse_extern_block_step [OF assms] have pc': "pc' = pc\<lparr>directive_list := None\<rparr>"
    by (simp add: decl_step_def)
  from assms obtain fn_decls k pc2 where i: "i < length (tokens pc)" "kind pc i = TokenIdKeywordExtern"
    "Suc i < length (tokens pc)" "kind pc (Suc i) = TokenIdLBrace"
    and loop: "ast_parse_extern_block_loop pc' (Suc (Suc i)) [] = Inr (fn_decls, j, pc2)"
    and n: "n = ast_create_node (NodeTypeExternBlock (directive_list pc) fn_decls) (tokens pc ! i)"
    unfolding pc'
    by (auto simp: ast_parse_extern_block_def bind_eq_Inr token_at_eq_Inr ast_expect_token_eq_Inr Let_def
          split: if_splits)
  from ast_parse_extern_block_loop_at [OF loop] obtain k where
    "fn_decls_at pc' (Suc (Suc i)) fn_decls k" "j = Suc k"
    by auto
  with i n pc' extern_block [of i pc' fn_decls k "directive_list pc"] show ?thesis by simp
qed

lemma parse_string_literal_cleared [simp]:
  "parse_string_literal (pc\<lparr>directive_list := d\<rparr>) t = parse_string_literal pc t"
  by (simp add: parse_string_literal_def)

lemma ast_buf_from_token_cleared [simp]:
  "ast_buf_from_token (pc\<lparr>directive_list := d\<rparr>) t = ast_buf_from_token pc t"
  by (simp add: ast_buf_from_token_def)

lemma ast_parse_root_export_decl_at:
  assumes "ast_parse_root_export_decl pc i m = Inr (Some n, j, pc')"
  shows "decl_body_at pc' i (directive_list pc) n j"
proof -
  from ast_parse_root_export_decl_step [OF assms] have pc': "pc' = pc\<lparr>directive_list := None\<rparr>"
    by (simp add: decl_step_def)
  from assms obtain name where i: "i + 3 < length (tokens pc)" "kind pc i = TokenIdKeywordExport"
    "kind pc (Suc i) = TokenIdSymbol" "kind pc (Suc (Suc i)) = TokenIdStringLiteral"
    "parse_string_literal pc (tokens pc ! Suc (Suc i)) = Inr name" "kind pc (i + 3) = TokenIdSemicolon"
    and n: "n = ast_create_node
          (NodeTypeRootExportDecl (ast_buf_from_token pc (tokens pc ! Suc i)) name (directive_list pc))
          (tokens pc ! i)" "j = i + 4"
    by (auto simp: ast_parse_root_export_decl_def bind_eq_Inr token_at_eq_Inr ast_expect_token_eq_Inr
          Let_def split: if_splits)
  with pc' root_export_decl [of i pc' name "directive_list pc"] show ?thesis by simp
qed

lemma ast_parse_use_at:
  assumes "ast_parse_use pc i m = Inr (Some n, j, pc')"
  shows "decl_body_at pc' i (directive_list pc) n j"
proof -
  from ast_parse_use_step [OF assms] have pc': "pc' = pc\<lparr>directive_list := None\<rparr>"
    by (simp add: decl_step_def)
  from assms obtain path where i: "Suc (Suc i) < length (tokens pc)" "kind pc i = TokenIdKeywordUse"
    "kind pc (Suc i) = TokenIdStringLiteral" "kind pc (Suc (Suc i)) = TokenIdSemicolon"
    "parse_string_literal pc (tokens pc ! Suc i) = Inr path"
    and n: "n = ast_create_node (NodeTypeUse path (directive_list pc)) (tokens pc ! i)" "j = i + 3"
    by (auto simp: ast_parse_use_def bind_eq_Inr token_at_eq_Inr ast_expect_token_eq_Inr
          split: if_splits)
  with pc' use [of i pc' path "directive_list pc"] show ?thesis by simp
qed

lemma ast_parse_fn_def_at:
  assumes E: "sound expression_at expression_starts E"
    and run: "ast_parse_fn_def E pc i m = Inr (Some n, j, pc')"
  shows "decl_body_at pc' i (directive_list pc) n j"
proof -
  from run obtain fn_proto k body where
    fn_proto: "ast_parse_fn_proto pc i m = Inr (Some fn_proto, k, pc')"
    and body: "ast_parse_block E pc' k True = Inr (Some body, j)"
    and n: "n = ast_create_node_with_node (NodeTypeFnDef fn_proto body) fn_proto"
    by (auto simp: ast_parse_fn_def_def bind_eq_Inr mandatory_node_eq_Inr split: option.splits)
  from body have k: "k < length (tokens pc')" "kind pc' k = TokenIdLBrace"
    by (auto simp: ast_parse_block_def bind_eq_Inr token_at_eq_Inr split: if_splits)
  from ast_parse_fn_proto_at [OF fn_proto] k soundD_Some [OF body sound_block [OF E]]
  show ?thesis unfolding n by (rule fn_def)
qed


lemma alternative_cases:
  assumes "bind P (\<lambda>(r1, j1, p1). case r1 of Some n \<Rightarrow> Inr (Some n, j1, p1) | None \<Rightarrow> R j1 p1) =
             Inr (r, j, pc')"
  obtains (first) n where "r = Some n" "P = Inr (Some n, j, pc')"
    | (others) j1 p1 where "P = Inr (None, j1, p1)" "R j1 p1 = Inr (r, j, pc')"
proof -
  from assms obtain r1 j1 p1 where P: "P = Inr (r1, j1, p1)"
    and k: "(case r1 of Some n \<Rightarrow> Inr (Some n, j1, p1) | None \<Rightarrow> R j1 p1) = Inr (r, j, pc')"
    by (auto simp: bind_eq_Inr)
  show thesis
  proof (cases r1)
    case None
    with P k others show thesis by simp
  next
    case (Some x)
    with P k first [of x] show thesis by auto
  qed
qed

lemma parse_top_level_decl_at:
  assumes E: "sound expression_at expression_starts E"
    and run: "parse_top_level_decl E pc i = Inr (r, j, pc')"
  shows "case r of
           None \<Rightarrow> j = i \<and> pc' = pc \<and> i < length (tokens pc) \<and>
             kind pc i \<notin> {TokenIdKeywordExport, TokenIdKeywordPub, TokenIdKeywordFn,
                            TokenIdKeywordExtern, TokenIdKeywordUse}
         | Some n \<Rightarrow> pc' = pc\<lparr>directive_list := None\<rparr> \<and> decl_body_at pc' i (directive_list pc) n j"
  using run [unfolded parse_top_level_decl_def]
proof (cases rule: alternative_cases)
  case (first n)
  from ast_parse_root_export_decl_step [OF first(2)] ast_parse_root_export_decl_at [OF first(2)] first(1)
  show ?thesis by (simp add: decl_step_def)
next
  case (others i2 pc2)
  from ast_parse_root_export_decl_step [OF others(1)] have 2: "i2 = i" "pc2 = pc"
    by (simp_all add: decl_step_def)
  from others(2) show ?thesis
  proof (cases rule: alternative_cases)
    case (first n)
    from ast_parse_fn_def_step [OF first(2)] ast_parse_fn_def_at [OF E first(2)] first(1) 2
    show ?thesis by (simp add: decl_step_def)
  next
    case (others i3 pc3)
    from ast_parse_fn_def_step [OF others(1)] 2 have 3: "i3 = i" "pc3 = pc"
      by (simp_all add: decl_step_def)
    from others(1) 2 have proto: "kind pc i \<notin> {TokenIdKeywordPub, TokenIdKeywordExport, TokenIdKeywordFn}"
      by (auto simp: ast_parse_fn_def_def bind_eq_Inr split: option.splits
            dest!: ast_parse_fn_proto_None)
    from others(2) show ?thesis
    proof (cases rule: alternative_cases)
      case (first n)
      from ast_parse_extern_block_step [OF first(2)] ast_parse_extern_block_at [OF first(2)] first(1) 3
      show ?thesis by (simp add: decl_step_def)
    next
      case (others i4 pc4)
      from ast_parse_extern_block_step [OF others(1)] 3 have 4: "i4 = i" "pc4 = pc"
        by (simp_all add: decl_step_def)
      from others(1) 3 have extern: "kind pc i \<noteq> TokenIdKeywordExtern"
        by (auto simp: ast_parse_extern_block_def bind_eq_Inr token_at_eq_Inr Let_def split: if_splits)
      show ?thesis
      proof (cases r)
        case None
        with others(2) 4 have "kind pc i \<noteq> TokenIdKeywordUse"
          by (auto simp: ast_parse_use_def bind_eq_Inr token_at_eq_Inr split: if_splits)
        with ast_parse_use_step [OF others(2)] None 4 proto extern show ?thesis
          by (simp add: decl_step_def)
      next
        case (Some n)
        with ast_parse_use_step [OF others(2)] ast_parse_use_at [of pc4 i4 False n j pc'] others(2) 4
        show ?thesis by (simp add: decl_step_def)
      qed
    qed
  qed
qed

lemma ast_parse_top_level_decls_loop_at:
  assumes E: "sound expression_at expression_starts E"
  shows "ast_parse_top_level_decls_loop fuel E pc i acc = Inr (decls, j, pc') \<Longrightarrow>
     \<exists>rest. decls = acc @ rest \<and> top_level_decls_at pc i rest j"
proof (induction fuel arbitrary: i acc)
  case 0
  then show ?case by simp
next
  case (Suc fuel)
  from Suc.prems obtain ds k d j1 pc1 where none: "directive_list pc = None"
    and ds: "ast_parse_directives pc i [] = Inr (ds, k)"
    and decl: "parse_top_level_decl E (pc\<lparr>directive_list := Some ds\<rparr>) k = Inr (d, j1, pc1)"
    and rest: "(case d of
             Some n \<Rightarrow> ast_parse_top_level_decls_loop fuel E pc1 j1 (acc @ [n])
           | None \<Rightarrow>
               (case directive_list pc1 of None \<Rightarrow> Inl NullPointer
                | Some pending \<Rightarrow>
                    if length pending > 0 then Inl (ast_error (tokens pc ! i) ''invalid directive'')
                    else Inr (acc, j1, pc1\<lparr>directive_list := None\<rparr>))) = Inr (decls, j, pc')"
    unfolding ast_parse_top_level_decls_loop_Suc
    by (auto simp: bind_eq_Inr token_at_eq_Inr split: if_splits)
  from ast_parse_directives_at [OF ds] have run: "directives_at pc i ds k" by simp
  note body = parse_top_level_decl_at [OF E decl]
  show ?case
  proof (cases d)
    case None
    with body have *: "j1 = k" "pc1 = pc\<lparr>directive_list := Some ds\<rparr>" "k < length (tokens pc)"
      "kind pc k \<notin> {TokenIdKeywordExport, TokenIdKeywordPub, TokenIdKeywordFn,
                            TokenIdKeywordExtern, TokenIdKeywordUse}"
      by simp_all
    with rest None have "ds = []" "decls = acc" "j = k"
      by (simp_all split: if_splits)
    moreover from this run have "k = i" by (auto dest: directives_at_Nil)
    moreover from run \<open>ds = []\<close> have "kind pc i \<noteq> TokenIdNumberSign"
      by (auto elim: directives_at.cases)
    ultimately show ?thesis using * by (auto simp: decl_starts_def intro!: no_decls)
  next
    case (Some n)
    with body none have pc1: "pc1 = pc" and n: "decl_body_at pc k (Some ds) n j1"
      by (auto simp: clear_directive_list)
    from run n have "top_level_decl_at pc i n j1" by (rule top_level_decl)
    moreover from Suc.IH [of j1 "acc @ [n]"] rest Some pc1 obtain rest' where
      "decls = (acc @ [n]) @ rest'" "top_level_decls_at pc j1 rest' j"
      by auto
    ultimately show ?thesis by (auto intro: more_decls)
  qed
qed

lemma ast_parse_root_at:
  assumes E: "sound expression_at expression_starts E"
    and run: "ast_parse_root E pc 0 = Inr (root, j, pc')"
  shows "root_at pc root"
proof -
  from run obtain decls where decls: "ast_parse_top_level_decls E pc 0 [] = Inr (decls, j, pc')"
    and j: "int j = int (length (tokens pc')) - 1"
    and root: "root = ast_create_node (NodeTypeRoot decls) (tokens pc ! 0)"
    by (auto simp: ast_parse_root_def bind_eq_Inr token_at_eq_Inr split: if_splits)
  from decls have fin: "pc' = pc\<lparr>directive_list := None\<rparr>" "j < length (tokens pc)"
    using ast_parse_top_level_decls_loop_end [of "length (tokens pc)" E pc 0 "[]" decls j pc']
    by (simp_all add: ast_parse_top_level_decls_def)
  with j have "Suc j = length (tokens pc)" by simp
  with ast_parse_top_level_decls_loop_at [OF E decls [unfolded ast_parse_top_level_decls_def]]
  show ?thesis unfolding root by (auto intro: root_at.intros)
qed

lemma ast_parse_at:
  "ast_parse source toks = Inr root \<Longrightarrow>
     root_at \<lparr>buf = source, tokens = toks, directive_list = None\<rparr> root"
  by (auto simp: ast_parse_def Let_def bind_eq_Inr
        dest!: ast_parse_root_at [OF sound_expression])

text \<open>And the rules determine the declarations and the root.\<close>

lemma directive_at_unique:
  "directive_at pc i n j \<Longrightarrow> directive_at pc i n' j' \<Longrightarrow> n' = n \<and> j' = j"
  by (auto elim!: directive_at.cases)

lemma directives_at_unique:
  "directives_at pc i ns j \<Longrightarrow> directives_at pc i ns' j' \<Longrightarrow> ns' = ns \<and> j' = j"
proof (induction arbitrary: ns' j' rule: directives_at.induct)
  case (no_directives i)
  from no_directives.prems show ?case
    by cases (use no_directives.hyps  in \<open>auto\<close>)
next
  case (more_directives i d k ds j)
  from more_directives.prems show ?case
    by cases (use more_directives.hyps  in \<open>auto dest!: more_directives.IH directive_at_unique [OF more_directives.hyps(3)]\<close>)
qed

lemma param_decl_at_unique:
  "param_decl_at pc i n j \<Longrightarrow> param_decl_at pc i n' j' \<Longrightarrow> n' = n \<and> j' = j"
  by (auto elim!: param_decl_at.cases dest: type_at_unique)

lemma param_decls_at_unique:
  "param_decls_at pc i ns j \<Longrightarrow> param_decls_at pc i ns' j' \<Longrightarrow> ns' = ns \<and> j' = j"
proof (induction arbitrary: ns' j' rule: param_decls_at.induct)
  case (last_param i p k)
  from last_param.prems show ?case
    by cases (use last_param.hyps  in \<open>auto dest!: param_decl_at_unique [OF last_param.hyps(1)]\<close>)
next
  case (more_params i p k ps j)
  from more_params.prems show ?case
    by cases (use more_params.hyps  in \<open>auto dest!: more_params.IH param_decl_at_unique [OF more_params.hyps(1)]\<close>)
qed

lemma param_decl_list_at_unique:
  "param_decl_list_at pc i ns j \<Longrightarrow> param_decl_list_at pc i ns' j' \<Longrightarrow> ns' = ns \<and> j' = j"
  by (auto elim!: param_decl_list_at.cases dest: param_decls_at_unique)

lemma return_type_at_unique:
  "return_type_at pc k n j \<Longrightarrow> return_type_at pc k n' j' \<Longrightarrow> n' = n \<and> j' = j"
  by (auto elim!: return_type_at.cases dest: type_at_unique)

lemma fn_visib_at_unique:
  "fn_visib_at pc i v s \<Longrightarrow> fn_visib_at pc i v' s' \<Longrightarrow> v' = v \<and> s' = s"
  by (auto elim!: fn_visib_at.cases)

lemma fn_proto_at_unique:
  assumes "fn_proto_at pc i directives n j" "fn_proto_at pc i directives n' j'"
  shows "n' = n \<and> j' = j"
  using assms(1)
proof cases
  case (fn_proto visib_mod s params k return_type)
  from assms(2) show ?thesis
  proof cases
    case 2: (fn_proto visib_mod2 s2 params2 k2 return_type2)
    from fn_visib_at_unique [OF fn_proto(2) 2(2)] have v: "visib_mod2 = visib_mod" "s2 = s" by simp_all
    from param_decl_list_at_unique [OF fn_proto(5) 2(5) [unfolded v]]
    have p: "params2 = params" "k2 = k" by simp_all
    from return_type_at_unique [OF fn_proto(6) 2(6) [unfolded p]]
    have "return_type2 = return_type" "j' = j" by simp_all
    with fn_proto(1) 2(1) v p show ?thesis by simp
  qed
qed

lemma fn_proto_at_start:
  "fn_proto_at pc i directives n j \<Longrightarrow>
     kind pc i \<in> {TokenIdKeywordFn, TokenIdKeywordPub, TokenIdKeywordExport}"
  by (auto elim!: fn_proto_at.cases fn_visib_at.cases)

lemma fn_decl_at_unique:
  assumes "fn_decl_at pc i n j" "fn_decl_at pc i n' j'"
  shows "n' = n \<and> j' = j"
  using assms(1)
proof cases
  case (fn_decl directives k fn_proto k')
  from assms(2) show ?thesis
  proof cases
    case 2: (fn_decl directives2 k2 fn_proto2 k'2)
    from directives_at_unique [OF fn_decl(3) 2(3)] have d: "directives2 = directives" "k2 = k"
      by simp_all
    from fn_proto_at_unique [OF fn_decl(4) 2(4) [unfolded d]] fn_decl(1,2) 2(1,2)
    show ?thesis by simp
  qed
qed

lemma fn_decl_at_start:
  "fn_decl_at pc i n j \<Longrightarrow>
     kind pc i \<in> {TokenIdNumberSign, TokenIdKeywordFn, TokenIdKeywordPub, TokenIdKeywordExport}"
  by (auto elim!: fn_decl_at.cases directives_at.cases dest!: fn_proto_at_start)

lemma fn_decls_at_unique:
  "fn_decls_at pc i ns j \<Longrightarrow> fn_decls_at pc i ns' j' \<Longrightarrow> ns' = ns \<and> j' = j"
proof (induction arbitrary: ns' j' rule: fn_decls_at.induct)
  case (no_fn_decls i)
  from no_fn_decls.prems show ?case
    by cases (use no_fn_decls.hyps  in \<open>auto dest!: fn_decl_at_start\<close>)
next
  case (more_fn_decls i f k fs j)
  from more_fn_decls.prems show ?case
    by cases (use more_fn_decls.hyps fn_decl_at_start [OF more_fn_decls.hyps(1)] in \<open>auto dest!: more_fn_decls.IH fn_decl_at_unique [OF more_fn_decls.hyps(1)]\<close>)
qed

lemma decl_body_at_start:
  "decl_body_at pc k directives n j \<Longrightarrow>
     kind pc k \<in> {TokenIdKeywordExport, TokenIdKeywordPub, TokenIdKeywordFn,
                   TokenIdKeywordExtern, TokenIdKeywordUse}"
  by (auto elim!: decl_body_at.cases dest!: fn_proto_at_start)

lemma decl_body_at_unique:
  assumes "decl_body_at pc k directives n j" "decl_body_at pc k directives n' j'"
  shows "n' = n \<and> j' = j"
  using assms(1)
proof cases
  case (fn_def fn_proto k' body)
  from fn_def(2) have start: "kind pc k = TokenIdKeywordExport \<longrightarrow> kind pc (Suc k) = TokenIdKeywordFn"
    "kind pc k \<in> {TokenIdKeywordFn, TokenIdKeywordPub, TokenIdKeywordExport}"
    by (auto elim!: fn_proto_at.cases fn_visib_at.cases)
  from assms(2) show ?thesis
  proof cases
    case 2: (fn_def fn_proto2 k'2 body2)
    from fn_proto_at_unique [OF fn_def(2) 2(2)] have p: "fn_proto2 = fn_proto" "k'2 = k'" by simp_all
    from expression_unique(1) [OF fn_def(5) 2(5) [unfolded p]] fn_def(1) 2(1) p
    show ?thesis by simp
  qed (use start in auto)
next
  case (extern_block fn_decls k')
  from assms(2) show ?thesis
  proof cases
    case 2: (extern_block fn_decls2 k'2)
    from fn_decls_at_unique [OF extern_block(7) 2(7)] extern_block(1,2) 2(1,2)
    show ?thesis by simp
  qed (use extern_block in \<open>auto dest!: fn_proto_at_start\<close>)
next
  case (root_export_decl name)
  from assms(2) show ?thesis
    by cases (use root_export_decl in \<open>auto elim!: fn_proto_at.cases fn_visib_at.cases\<close>)
next
  case (use path)
  from assms(2) show ?thesis
    by cases (use use in \<open>auto dest!: fn_proto_at_start\<close>)
qed

lemma top_level_decl_at_unique:
  assumes "top_level_decl_at pc i n j" "top_level_decl_at pc i n' j'"
  shows "n' = n \<and> j' = j"
  using assms(1)
proof cases
  case (top_level_decl directives k)
  from assms(2) show ?thesis
  proof cases
    case 2: (top_level_decl directives2 k2)
    from directives_at_unique [OF top_level_decl(1) 2(1)] have d: "directives2 = directives" "k2 = k"
      by simp_all
    from decl_body_at_unique [OF top_level_decl(2) 2(2) [unfolded d]] show ?thesis .
  qed
qed

lemma top_level_decl_at_start:
  "top_level_decl_at pc i n j \<Longrightarrow> kind pc i \<in> decl_starts"
  by (auto simp: decl_starts_def elim!: top_level_decl_at.cases directives_at.cases
        dest!: decl_body_at_start)

lemma top_level_decls_at_unique:
  "top_level_decls_at pc i ns j \<Longrightarrow> top_level_decls_at pc i ns' j' \<Longrightarrow> ns' = ns \<and> j' = j"
proof (induction arbitrary: ns' j' rule: top_level_decls_at.induct)
  case (no_decls i)
  from no_decls.prems show ?case
    by cases (use no_decls.hyps  in \<open>auto dest!: top_level_decl_at_start\<close>)
next
  case (more_decls i n k ns j)
  from more_decls.prems show ?case
    by cases (use more_decls.hyps top_level_decl_at_start [OF more_decls.hyps(1)] in \<open>auto dest!: more_decls.IH top_level_decl_at_unique [OF more_decls.hyps(1)]\<close>)
qed

lemma root_at_unique:
  "root_at pc root \<Longrightarrow> root_at pc root' \<Longrightarrow> root' = root"
  by (auto elim!: root_at.cases dest: top_level_decls_at_unique)

text \<open>
  The claim that a node carries the position of the first token of its production fails
  on \<^verbatim>\<open>fn f() { a as u8 + b; }\<close>: the first token of both the \<^verbatim>\<open>BinOpExpr\<close> and the
  \<^verbatim>\<open>CastExpr\<close> is \<^verbatim>\<open>a\<close> in column 10, but the \<^verbatim>\<open>BinOpExpr\<close> is in column 18 (the \<^verbatim>\<open>+\<close>)
  and the \<^verbatim>\<open>CastExpr\<close> in column 12 (the \<^verbatim>\<open>as\<close>).
\<close>

theorem position_of_operator:
  "ast_parse pos_source pos_tokens =
     Inr (AstNode 1 1 (NodeTypeRoot
       [AstNode 1 1 (NodeTypeFnDef
          (AstNode 1 1 (NodeTypeFnProto (Some []) FnProtoVisibModPrivate ''f'' []
             (AstNode 1 8 (NodeTypeType (AstNodeTypeTypePrimitive ''void'')))))
          (AstNode 1 8 (NodeTypeBlock
             [AstNode 1 18 (NodeTypeBinOpExpr
                (AstNode 1 12 (NodeTypeCastExpr (AstNode 1 10 (NodeTypeSymbol ''a''))
                   (AstNode 1 15 (NodeTypeType (AstNodeTypeTypePrimitive ''u8'')))))
                BinOpTypeAdd (AstNode 1 20 (NodeTypeSymbol ''b'')))])))]))"
  by code_simp

text \<open>
  A second input, \<^verbatim>\<open>fn f() { return (a); }\<close>: the \<^verbatim>\<open>return\<close> is in column 10, the
  parenthesis in column 17 and \<^verbatim>\<open>a\<close> in column 18.
\<close>

definition ret_source :: string where
  "ret_source = ''fn f() { return (a); }''"

definition ret_tokens :: "Token list" where
  "ret_tokens = line1_tokens
     [(TokenIdKeywordFn, 0, 2), (TokenIdSymbol, 3, 4), (TokenIdLParen, 4, 5),
      (TokenIdRParen, 5, 6), (TokenIdLBrace, 7, 8), (TokenIdKeywordReturn, 9, 15),
      (TokenIdLParen, 16, 17), (TokenIdSymbol, 17, 18), (TokenIdRParen, 18, 19),
      (TokenIdSemicolon, 19, 20), (TokenIdRBrace, 21, 22), (TokenIdEof, 22, 22)]"

definition ret_pc :: ParseContext where
  "ret_pc = \<lparr>buf = ret_source, tokens = ret_tokens, directive_list = None\<rparr>"

text \<open>
  C2, as amended.  The tree of a successful parse is in the relation \<open>root_at\<close>, and it is
  the only tree in it: every node has the line and column of the token that the rules
  above give it.  It is the first token for \<^verbatim>\<open>Root\<close>, \<^verbatim>\<open>ParamDecl\<close>, \<^verbatim>\<open>Type\<close>, \<^verbatim>\<open>Block\<close>,
  \<^verbatim>\<open>Directive\<close>, \<^verbatim>\<open>ReturnExpr\<close>, \<^verbatim>\<open>PrefixOpExpr\<close> and the literals, and for \<^verbatim>\<open>RootExportDecl\<close>,
  \<^verbatim>\<open>Use\<close>, \<^verbatim>\<open>ExternBlock\<close> and \<^verbatim>\<open>FnProto\<close> (the token after the directives).  A \<^verbatim>\<open>BinOpExpr\<close>
  has the position of its operator token and a \<^verbatim>\<open>CastExpr\<close> that of its \<^verbatim>\<open>as\<close> token, not
  of the first token of the left operand.  A \<^verbatim>\<open>FnCallExpr\<close> has the position of its
  callee, \<^verbatim>\<open>FnDef\<close> and \<^verbatim>\<open>FnDecl\<close> have that of their prototype, and the \<^verbatim>\<open>void\<close> return type
  of a prototype without arrow has the position of the token after the parameter list.
\<close>

theorem node_positions:
  assumes "ast_parse source toks = Inr root"
  shows "root_at \<lparr>buf = source, tokens = toks, directive_list = None\<rparr> root \<and>
         (\<forall>root'. root_at \<lparr>buf = source, tokens = toks, directive_list = None\<rparr> root' \<longrightarrow> root' = root)"
  using ast_parse_at [OF assms] by (auto dest: root_at_unique)

text \<open>
  On the two inputs: the trees of the parser are in the relation, and the tree of the
  second input with the \<^verbatim>\<open>ReturnExpr\<close> moved to the parenthesis (column 17) is not.
\<close>

theorem node_positions_witness:
  "ast_parse pos_source pos_tokens =
     Inr (AstNode 1 1 (NodeTypeRoot
       [AstNode 1 1 (NodeTypeFnDef
          (AstNode 1 1 (NodeTypeFnProto (Some []) FnProtoVisibModPrivate ''f'' []
             (AstNode 1 8 (NodeTypeType (AstNodeTypeTypePrimitive ''void'')))))
          (AstNode 1 8 (NodeTypeBlock
             [AstNode 1 18 (NodeTypeBinOpExpr
                (AstNode 1 12 (NodeTypeCastExpr (AstNode 1 10 (NodeTypeSymbol ''a''))
                   (AstNode 1 15 (NodeTypeType (AstNodeTypeTypePrimitive ''u8'')))))
                BinOpTypeAdd (AstNode 1 20 (NodeTypeSymbol ''b'')))])))])) \<and>
   root_at pos_pc
     (AstNode 1 1 (NodeTypeRoot
       [AstNode 1 1 (NodeTypeFnDef
          (AstNode 1 1 (NodeTypeFnProto (Some []) FnProtoVisibModPrivate ''f'' []
             (AstNode 1 8 (NodeTypeType (AstNodeTypeTypePrimitive ''void'')))))
          (AstNode 1 8 (NodeTypeBlock
             [AstNode 1 18 (NodeTypeBinOpExpr
                (AstNode 1 12 (NodeTypeCastExpr (AstNode 1 10 (NodeTypeSymbol ''a''))
                   (AstNode 1 15 (NodeTypeType (AstNodeTypeTypePrimitive ''u8'')))))
                BinOpTypeAdd (AstNode 1 20 (NodeTypeSymbol ''b'')))])))])) \<and>
   ast_parse ret_source ret_tokens =
     Inr (AstNode 1 1 (NodeTypeRoot
       [AstNode 1 1 (NodeTypeFnDef
          (AstNode 1 1 (NodeTypeFnProto (Some []) FnProtoVisibModPrivate ''f'' []
             (AstNode 1 8 (NodeTypeType (AstNodeTypeTypePrimitive ''void'')))))
          (AstNode 1 8 (NodeTypeBlock
             [AstNode 1 10 (NodeTypeReturnExpr (Some (AstNode 1 18 (NodeTypeSymbol ''a''))))])))])) \<and>
   root_at ret_pc
     (AstNode 1 1 (NodeTypeRoot
       [AstNode 1 1 (NodeTypeFnDef
          (AstNode 1 1 (NodeTypeFnProto (Some []) FnProtoVisibModPrivate ''f'' []
             (AstNode 1 8 (NodeTypeType (AstNodeTypeTypePrimitive ''void'')))))
          (AstNode 1 8 (NodeTypeBlock
             [AstNode 1 10 (NodeTypeReturnExpr (Some (AstNode 1 18 (NodeTypeSymbol ''a''))))])))])) \<and>
   \<not> root_at ret_pc
     (AstNode 1 1 (NodeTypeRoot
       [AstNode 1 1 (NodeTypeFnDef
          (AstNode 1 1 (NodeTypeFnProto (Some []) FnProtoVisibModPrivate ''f'' []
             (AstNode 1 8 (NodeTypeType (AstNodeTypeTypePrimitive ''void'')))))
          (AstNode 1 8 (NodeTypeBlock
             [AstNode 1 17 (NodeTypeReturnExpr (Some (AstNode 1 18 (NodeTypeSymbol ''a''))))])))]))"
proof -
  have p: "ast_parse pos_source pos_tokens =
     Inr (AstNode 1 1 (NodeTypeRoot
       [AstNode 1 1 (NodeTypeFnDef
          (AstNode 1 1 (NodeTypeFnProto (Some []) FnProtoVisibModPrivate ''f'' []
             (AstNode 1 8 (NodeTypeType (AstNodeTypeTypePrimitive ''void'')))))
          (AstNode 1 8 (NodeTypeBlock
             [AstNode 1 18 (NodeTypeBinOpExpr
                (AstNode 1 12 (NodeTypeCastExpr (AstNode 1 10 (NodeTypeSymbol ''a''))
                   (AstNode 1 15 (NodeTypeType (AstNodeTypeTypePrimitive ''u8'')))))
                BinOpTypeAdd (AstNode 1 20 (NodeTypeSymbol ''b'')))])))]))"
    by code_simp
  have r: "ast_parse ret_source ret_tokens =
     Inr (AstNode 1 1 (NodeTypeRoot
       [AstNode 1 1 (NodeTypeFnDef
          (AstNode 1 1 (NodeTypeFnProto (Some []) FnProtoVisibModPrivate ''f'' []
             (AstNode 1 8 (NodeTypeType (AstNodeTypeTypePrimitive ''void'')))))
          (AstNode 1 8 (NodeTypeBlock
             [AstNode 1 10 (NodeTypeReturnExpr (Some (AstNode 1 18 (NodeTypeSymbol ''a''))))])))]))"
    by code_simp
  from node_positions [OF p] have 1: "root_at pos_pc
     (AstNode 1 1 (NodeTypeRoot
       [AstNode 1 1 (NodeTypeFnDef
          (AstNode 1 1 (NodeTypeFnProto (Some []) FnProtoVisibModPrivate ''f'' []
             (AstNode 1 8 (NodeTypeType (AstNodeTypeTypePrimitive ''void'')))))
          (AstNode 1 8 (NodeTypeBlock
             [AstNode 1 18 (NodeTypeBinOpExpr
                (AstNode 1 12 (NodeTypeCastExpr (AstNode 1 10 (NodeTypeSymbol ''a''))
                   (AstNode 1 15 (NodeTypeType (AstNodeTypeTypePrimitive ''u8'')))))
                BinOpTypeAdd (AstNode 1 20 (NodeTypeSymbol ''b'')))])))]))"
    unfolding pos_pc_def by (rule conjunct1)
  note ret = node_positions [OF r, folded ret_pc_def]
  from ret have 2: "root_at ret_pc
     (AstNode 1 1 (NodeTypeRoot
       [AstNode 1 1 (NodeTypeFnDef
          (AstNode 1 1 (NodeTypeFnProto (Some []) FnProtoVisibModPrivate ''f'' []
             (AstNode 1 8 (NodeTypeType (AstNodeTypeTypePrimitive ''void'')))))
          (AstNode 1 8 (NodeTypeBlock
             [AstNode 1 10 (NodeTypeReturnExpr (Some (AstNode 1 18 (NodeTypeSymbol ''a''))))])))]))"
    by (rule conjunct1)
  have 3: "\<not> root_at ret_pc
     (AstNode 1 1 (NodeTypeRoot
       [AstNode 1 1 (NodeTypeFnDef
          (AstNode 1 1 (NodeTypeFnProto (Some []) FnProtoVisibModPrivate ''f'' []
             (AstNode 1 8 (NodeTypeType (AstNodeTypeTypePrimitive ''void'')))))
          (AstNode 1 8 (NodeTypeBlock
             [AstNode 1 17 (NodeTypeReturnExpr (Some (AstNode 1 18 (NodeTypeSymbol ''a''))))])))]))"
  proof
    assume "root_at ret_pc
     (AstNode 1 1 (NodeTypeRoot
       [AstNode 1 1 (NodeTypeFnDef
          (AstNode 1 1 (NodeTypeFnProto (Some []) FnProtoVisibModPrivate ''f'' []
             (AstNode 1 8 (NodeTypeType (AstNodeTypeTypePrimitive ''void'')))))
          (AstNode 1 8 (NodeTypeBlock
             [AstNode 1 17 (NodeTypeReturnExpr (Some (AstNode 1 18 (NodeTypeSymbol ''a''))))])))]))"
    from ret [THEN conjunct2, rule_format, OF this] show False
      by simp
  qed
  from p 1 r 2 3 show ?thesis
    by (intro conjI)
qed


section \<open>Directives and their declarations\<close>

text \<open>
  \<open>directives_in_lists_only n\<close>: in the tree \<open>n\<close> a \<^verbatim>\<open>Directive\<close> node occurs in the directive
  list of a \<^verbatim>\<open>FnProto\<close>, \<^verbatim>\<open>ExternBlock\<close>, \<^verbatim>\<open>RootExportDecl\<close> or \<^verbatim>\<open>Use\<close> node and nowhere else,
  and these lists hold \<^verbatim>\<open>Directive\<close> nodes only.  \<open>attached_directives n\<close> is the directive
  list of the declaration \<open>n\<close>; for a function it is the list of the prototype.
\<close>

definition is_directive :: "AstNode \<Rightarrow> bool" where
  "is_directive n = (case data n of NodeTypeDirective name param \<Rightarrow> True | _ \<Rightarrow> False)"

definition directives_only :: "AstNode list option \<Rightarrow> bool" where
  "directives_only directives = (case directives of None \<Rightarrow> True | Some ds \<Rightarrow> list_all is_directive ds)"

fun directives_in_lists_only :: "AstNode \<Rightarrow> bool" where
  "directives_in_lists_only (AstNode l c d) =
     (case d of
        NodeTypeRoot top_level_decls \<Rightarrow> list_all directives_in_lists_only top_level_decls
      | NodeTypeRootExportDecl type name directives \<Rightarrow> directives_only directives
      | NodeTypeFnProto directives visib_mod name params return_type \<Rightarrow>
          directives_only directives \<and> list_all directives_in_lists_only params \<and>
          directives_in_lists_only return_type
      | NodeTypeFnDef fn_proto body \<Rightarrow> directives_in_lists_only fn_proto \<and> directives_in_lists_only body
      | NodeTypeFnDecl fn_proto \<Rightarrow> directives_in_lists_only fn_proto
      | NodeTypeParamDecl name type \<Rightarrow> directives_in_lists_only type
      | NodeTypeType (AstNodeTypeTypePrimitive name) \<Rightarrow> True
      | NodeTypeType (AstNodeTypeTypePointer is_const child_type) \<Rightarrow> directives_in_lists_only child_type
      | NodeTypeBlock statements \<Rightarrow> list_all directives_in_lists_only statements
      | NodeTypeExternBlock directives fn_decls \<Rightarrow>
          directives_only directives \<and> list_all directives_in_lists_only fn_decls
      | NodeTypeDirective name param \<Rightarrow> False
      | NodeTypeReturnExpr None \<Rightarrow> True
      | NodeTypeReturnExpr (Some expr) \<Rightarrow> directives_in_lists_only expr
      | NodeTypeBinOpExpr op1 bin_op op2 \<Rightarrow> directives_in_lists_only op1 \<and> directives_in_lists_only op2
      | NodeTypeCastExpr expr type \<Rightarrow> directives_in_lists_only expr \<and> directives_in_lists_only type
      | NodeTypePrefixOpExpr prefix_op primary_expr \<Rightarrow> directives_in_lists_only primary_expr
      | NodeTypeFnCallExpr fn_ref_expr params \<Rightarrow>
          directives_in_lists_only fn_ref_expr \<and> list_all directives_in_lists_only params
      | NodeTypeUse path directives \<Rightarrow> directives_only directives
      | _ \<Rightarrow> True)"

definition proto_directives :: "AstNode \<Rightarrow> AstNode list option" where
  "proto_directives fn_proto =
     (case data fn_proto of
        NodeTypeFnProto directives visib_mod name params return_type \<Rightarrow> directives
      | _ \<Rightarrow> None)"

definition attached_directives :: "AstNode \<Rightarrow> AstNode list option" where
  "attached_directives n =
     (case data n of
        NodeTypeFnProto directives visib_mod name params return_type \<Rightarrow> directives
      | NodeTypeFnDef fn_proto body \<Rightarrow> proto_directives fn_proto
      | NodeTypeFnDecl fn_proto \<Rightarrow> proto_directives fn_proto
      | NodeTypeExternBlock directives fn_decls \<Rightarrow> directives
      | NodeTypeRootExportDecl type name directives \<Rightarrow> directives
      | NodeTypeUse path directives \<Rightarrow> directives
      | _ \<Rightarrow> None)"

text \<open>The trees of the grammar have directives in directive lists only.\<close>

lemma type_at_tree: "type_at pc i n j \<Longrightarrow> directives_in_lists_only n"
  by (induction rule: type_at.induct) (auto simp: ast_create_node_def)

lemma expression_at_tree:
  shows "primary_expr_at pc i n j \<Longrightarrow> directives_in_lists_only n"
    and "fn_call_expr_at pc i n j \<Longrightarrow> directives_in_lists_only n"
    and "prefix_op_expr_at pc i n j \<Longrightarrow> directives_in_lists_only n"
    and "cast_expr_at pc i n j \<Longrightarrow> directives_in_lists_only n"
    and "operand_at pc L i n j \<Longrightarrow> directives_in_lists_only n"
    and "level_at pc L i n j \<Longrightarrow> directives_in_lists_only n"
    and "expression_at pc i n j \<Longrightarrow> directives_in_lists_only n"
    and "statements_at pc i ns j \<Longrightarrow> list_all directives_in_lists_only ns"
    and "args_at pc i ns j \<Longrightarrow> list_all directives_in_lists_only ns"
  by (induction rule: expression_inducts)
     (auto simp: ast_create_node_def ast_create_node_with_node_def dest: type_at_tree)

lemma directive_at_tree: "directive_at pc i n j \<Longrightarrow> is_directive n"
  by (auto simp: ast_create_node_def is_directive_def elim!: directive_at.cases)

lemma directives_at_tree: "directives_at pc i ds j \<Longrightarrow> directives_only (Some ds)"
  by (induction rule: directives_at.induct) (auto simp: directives_only_def dest: directive_at_tree)

lemma param_decl_at_tree: "param_decl_at pc i n j \<Longrightarrow> directives_in_lists_only n"
  by (auto simp: ast_create_node_def elim!: param_decl_at.cases dest!: type_at_tree)

lemma param_decls_at_tree: "param_decls_at pc i ps j \<Longrightarrow> list_all directives_in_lists_only ps"
  by (induction rule: param_decls_at.induct) (auto dest: param_decl_at_tree)

lemma param_decl_list_at_tree: "param_decl_list_at pc i ps j \<Longrightarrow> list_all directives_in_lists_only ps"
  by (auto elim!: param_decl_list_at.cases dest: param_decls_at_tree)

lemma return_type_at_tree: "return_type_at pc k t j \<Longrightarrow> directives_in_lists_only t"
  by (auto simp: ast_create_void_type_node_def ast_create_node_def elim!: return_type_at.cases
        dest!: type_at_tree)

lemma fn_proto_at_tree:
  "fn_proto_at pc i ds n j \<Longrightarrow>
     proto_directives n = ds \<and> attached_directives n = ds \<and>
     (directives_only ds \<longrightarrow> directives_in_lists_only n)"
  by (auto simp: ast_create_node_def proto_directives_def attached_directives_def
        elim!: fn_proto_at.cases dest!: param_decl_list_at_tree return_type_at_tree)

lemma fn_decl_at_tree:
  "fn_decl_at pc i n j \<Longrightarrow> directives_in_lists_only n"
  by (auto simp: ast_create_node_with_node_def elim!: fn_decl_at.cases
        dest!: fn_proto_at_tree directives_at_tree)

lemma fn_decls_at_tree: "fn_decls_at pc i fs j \<Longrightarrow> list_all directives_in_lists_only fs"
  by (induction rule: fn_decls_at.induct) (auto dest: fn_decl_at_tree)

lemma decl_body_at_tree:
  "decl_body_at pc k ds n j \<Longrightarrow>
     attached_directives n = ds \<and> (directives_only ds \<longrightarrow> directives_in_lists_only n)"
  by (erule decl_body_at.cases)
     (auto simp: ast_create_node_def ast_create_node_with_node_def attached_directives_def
        dest!: fn_proto_at_tree fn_decls_at_tree expression_at_tree(1))

lemma top_level_decl_at_tree: "top_level_decl_at pc i n j \<Longrightarrow> directives_in_lists_only n"
  by (auto elim!: top_level_decl_at.cases dest!: decl_body_at_tree directives_at_tree)

lemma top_level_decls_at_tree:
  "top_level_decls_at pc i ns j \<Longrightarrow> list_all directives_in_lists_only ns"
  by (induction rule: top_level_decls_at.induct) (auto dest: top_level_decl_at_tree)

lemma root_at_tree: "root_at pc root \<Longrightarrow> directives_in_lists_only root"
  by (auto simp: ast_create_node_def elim!: root_at.cases dest: top_level_decls_at_tree)

text \<open>
  \<^verbatim>\<open>ast_parse_directives\<close> returns a list exactly when the tokens are that run of
  directives.
\<close>

lemma directive_at_complete:
  "directive_at pc i n j \<Longrightarrow> ast_parse_directive pc i = Inr (n, j)"
  by (auto simp: ast_parse_directive_def token_at_def ast_expect_token_def elim!: directive_at.cases)

lemma directives_at_complete:
  "directives_at pc i ds k \<Longrightarrow> ast_parse_directives pc i acc = Inr (acc @ ds, k)"
proof (induction arbitrary: acc rule: directives_at.induct)
  case (no_directives i)
  then show ?case by (subst ast_parse_directives.simps) (simp add: token_at_def)
next
  case (more_directives i d k ds j)
  from more_directives.hyps more_directives.IH [of "acc @ [d]"] show ?case
    by (subst ast_parse_directives.simps) (simp add: token_at_def directive_at_complete)
qed

lemma directives_at_iff:
  "ast_parse_directives pc i [] = Inr (ds, k) \<longleftrightarrow> directives_at pc i ds k"
  using ast_parse_directives_at [of pc i "[]" ds k] directives_at_complete [of pc i ds k "[]"]
  by auto

text \<open>
  One round of the two loops that collect directives: the run read at \<open>i\<close> is made
  pending, the declaration parsed behind it carries this run, and the loop goes on
  behind the declaration with nothing pending.
\<close>

lemma ast_parse_fn_def_attached:
  assumes "ast_parse_fn_def E pc i m = Inr (Some n, j, pc')"
  shows "attached_directives n = directive_list pc"
proof -
  from assms obtain fn_proto k body where
    fn_proto: "ast_parse_fn_proto pc i m = Inr (Some fn_proto, k, pc')"
    and n: "n = ast_create_node_with_node (NodeTypeFnDef fn_proto body) fn_proto"
    by (auto simp: ast_parse_fn_def_def bind_eq_Inr mandatory_node_eq_Inr split: option.splits)
  from fn_proto_at_tree [OF ast_parse_fn_proto_at [OF fn_proto]] n show ?thesis
    by (simp add: attached_directives_def ast_create_node_with_node_def)
qed

lemma parse_top_level_decl_attached:
  assumes "parse_top_level_decl E pc i = Inr (Some n, j, pc')"
  shows "attached_directives n = directive_list pc"
  using assms [unfolded parse_top_level_decl_def]
proof (cases rule: alternative_cases)
  case (first n')
  with decl_body_at_tree [OF ast_parse_root_export_decl_at] show ?thesis by simp
next
  case (others i2 pc2)
  from ast_parse_root_export_decl_step [OF others(1)] have 2: "i2 = i" "pc2 = pc"
    by (simp_all add: decl_step_def)
  from others(2) show ?thesis
  proof (cases rule: alternative_cases)
    case (first n')
    with ast_parse_fn_def_attached 2 show ?thesis by simp
  next
    case (others i3 pc3)
    from ast_parse_fn_def_step [OF others(1)] 2 have 3: "i3 = i" "pc3 = pc"
      by (simp_all add: decl_step_def)
    from others(2) show ?thesis
    proof (cases rule: alternative_cases)
      case (first n')
      with decl_body_at_tree [OF ast_parse_extern_block_at] 3 show ?thesis by simp
    next
      case (others i4 pc4)
      from ast_parse_extern_block_step [OF others(1)] 3 have "i4 = i" "pc4 = pc"
        by (simp_all add: decl_step_def)
      with decl_body_at_tree [OF ast_parse_use_at] others(2) show ?thesis by simp
    qed
  qed
qed

lemma top_level_step:
  assumes none: "directive_list pc = None"
    and ds: "ast_parse_directives pc i [] = Inr (ds, k)"
    and decl: "parse_top_level_decl E (pc\<lparr>directive_list := Some ds\<rparr>) k = Inr (Some n, j, pc')"
  shows "attached_directives n = Some ds \<and> pc' = pc \<and>
     ast_parse_top_level_decls_loop (Suc fuel) E pc i decls =
       ast_parse_top_level_decls_loop fuel E pc j (decls @ [n])"
proof -
  from ast_parse_directives_result [OF ds] have i: "i < length (tokens pc)" by simp
  from parse_top_level_decl_step [OF decl] none have pc': "pc' = pc"
    by (simp add: decl_step_def clear_directive_list)
  from parse_top_level_decl_attached [OF decl] have "attached_directives n = Some ds" by simp
  moreover have "ast_parse_top_level_decls_loop (Suc fuel) E pc i decls =
       ast_parse_top_level_decls_loop fuel E pc j (decls @ [n])"
    unfolding ast_parse_top_level_decls_loop_Suc using i none ds decl pc'
    by (simp add: token_at_def)
  ultimately show ?thesis using pc' by simp
qed

lemma extern_step:
  assumes none: "directive_list pc = None"
    and ds: "ast_parse_directives pc i [] = Inr (ds, k)"
    and brace: "kind pc k \<noteq> TokenIdRBrace"
    and child: "ast_parse_fn_decl (pc\<lparr>directive_list := Some ds\<rparr>) k = Inr (n, j, pc')"
  shows "attached_directives n = Some ds \<and> pc' = pc \<and>
     ast_parse_extern_block_loop pc i fn_decls = ast_parse_extern_block_loop pc j (fn_decls @ [n])"
proof -
  from ast_parse_directives_result [OF ds] have i: "i < length (tokens pc)" "k < length (tokens pc)"
    by simp_all
  from ast_parse_fn_decl_at [OF child] none have pc': "pc' = pc"
    by (simp add: clear_directive_list)
  from ast_parse_fn_decl_at [OF child] have "attached_directives n = Some ds"
    by (auto simp: attached_directives_def ast_create_node_with_node_def dest!: fn_proto_at_tree)
  moreover have "ast_parse_extern_block_loop pc i fn_decls =
      ast_parse_extern_block_loop pc j (fn_decls @ [n])"
    using i none ds brace child pc'
    by (subst ast_parse_extern_block_loop.simps) (simp add: token_at_def Let_def)
  ultimately show ?thesis using pc' by simp
qed

text \<open>
  Two inputs.  In \<^verbatim>\<open>use "a"; #x("1") #y("2") use "b";\<close> the second declaration has two
  directives and the first has none.  The other input has a directive in front of each
  kind of declaration:
  \<^verbatim>\<open>#a("1") export executable "x"; #b("2") use "std"; #c("3") extern { #d("4") fn g(); } #e("5") pub fn f() { }\<close>
\<close>

definition uses_source :: string where
  "uses_source = ''use '' @ [CHR 0x22] @ ''a'' @ [CHR 0x22] @ ''; #x('' @ [CHR 0x22] @ ''1'' @ [CHR 0x22] @ '') #y('' @ [CHR 0x22] @ ''2'' @ [CHR 0x22] @ '') use '' @ [CHR 0x22] @ ''b'' @ [CHR 0x22] @ '';''"

definition uses_tokens :: "Token list" where
  "uses_tokens = line1_tokens
     [(TokenIdKeywordUse, 0, 3), (TokenIdStringLiteral, 4, 7), (TokenIdSemicolon, 7, 8),
      (TokenIdNumberSign, 9, 10), (TokenIdSymbol, 10, 11), (TokenIdLParen, 11, 12),
      (TokenIdStringLiteral, 12, 15), (TokenIdRParen, 15, 16), (TokenIdNumberSign, 17, 18),
      (TokenIdSymbol, 18, 19), (TokenIdLParen, 19, 20), (TokenIdStringLiteral, 20, 23),
      (TokenIdRParen, 23, 24), (TokenIdKeywordUse, 25, 28), (TokenIdStringLiteral, 29, 32),
      (TokenIdSemicolon, 32, 33), (TokenIdEof, 33, 33)]"

definition uses_pc :: ParseContext where
  "uses_pc = \<lparr>buf = uses_source, tokens = uses_tokens, directive_list = None\<rparr>"

definition attach_source :: string where
  "attach_source = ''#a('' @ [CHR 0x22] @ ''1'' @ [CHR 0x22] @ '') export executable '' @ [CHR 0x22] @ ''x'' @ [CHR 0x22] @ ''; #b('' @ [CHR 0x22] @ ''2'' @ [CHR 0x22] @ '') use '' @ [CHR 0x22] @ ''std'' @ [CHR 0x22] @ ''; #c('' @ [CHR 0x22] @ ''3'' @ [CHR 0x22] @ '') extern { #d('' @ [CHR 0x22] @ ''4'' @ [CHR 0x22] @ '') fn g(); } #e('' @ [CHR 0x22] @ ''5'' @ [CHR 0x22] @ '') pub fn f() { }''"

definition attach_tokens :: "Token list" where
  "attach_tokens = line1_tokens
     [(TokenIdNumberSign, 0, 1), (TokenIdSymbol, 1, 2), (TokenIdLParen, 2, 3),
      (TokenIdStringLiteral, 3, 6), (TokenIdRParen, 6, 7), (TokenIdKeywordExport, 8, 14),
      (TokenIdSymbol, 15, 25), (TokenIdStringLiteral, 26, 29), (TokenIdSemicolon, 29, 30),
      (TokenIdNumberSign, 31, 32), (TokenIdSymbol, 32, 33), (TokenIdLParen, 33, 34),
      (TokenIdStringLiteral, 34, 37), (TokenIdRParen, 37, 38), (TokenIdKeywordUse, 39, 42),
      (TokenIdStringLiteral, 43, 48), (TokenIdSemicolon, 48, 49), (TokenIdNumberSign, 50, 51),
      (TokenIdSymbol, 51, 52), (TokenIdLParen, 52, 53), (TokenIdStringLiteral, 53, 56),
      (TokenIdRParen, 56, 57), (TokenIdKeywordExtern, 58, 64), (TokenIdLBrace, 65, 66),
      (TokenIdNumberSign, 67, 68), (TokenIdSymbol, 68, 69), (TokenIdLParen, 69, 70),
      (TokenIdStringLiteral, 70, 73), (TokenIdRParen, 73, 74), (TokenIdKeywordFn, 75, 77),
      (TokenIdSymbol, 78, 79), (TokenIdLParen, 79, 80), (TokenIdRParen, 80, 81),
      (TokenIdSemicolon, 81, 82), (TokenIdRBrace, 83, 84), (TokenIdNumberSign, 85, 86),
      (TokenIdSymbol, 86, 87), (TokenIdLParen, 87, 88), (TokenIdStringLiteral, 88, 91),
      (TokenIdRParen, 91, 92), (TokenIdKeywordPub, 93, 96), (TokenIdKeywordFn, 97, 99),
      (TokenIdSymbol, 100, 101), (TokenIdLParen, 101, 102), (TokenIdRParen, 102, 103),
      (TokenIdLBrace, 104, 105), (TokenIdRBrace, 106, 107), (TokenIdEof, 107, 107)]"

definition attach_pc :: ParseContext where
  "attach_pc = \<lparr>buf = attach_source, tokens = attach_tokens, directive_list = None\<rparr>"

definition attach_export :: AstNode where
  "attach_export =
     AstNode 1 9 (NodeTypeRootExportDecl ''executable'' ''x''
       (Some [AstNode 1 1 (NodeTypeDirective ''a'' ''1'')]))"

definition attach_use :: AstNode where
  "attach_use = AstNode 1 40 (NodeTypeUse ''std'' (Some [AstNode 1 32 (NodeTypeDirective ''b'' ''2'')]))"

definition attach_fn_decl :: AstNode where
  "attach_fn_decl =
     AstNode 1 76 (NodeTypeFnDecl
       (AstNode 1 76 (NodeTypeFnProto (Some [AstNode 1 68 (NodeTypeDirective ''d'' ''4'')])
          FnProtoVisibModPrivate ''g'' []
          (AstNode 1 82 (NodeTypeType (AstNodeTypeTypePrimitive ''void''))))))"

definition attach_extern :: AstNode where
  "attach_extern =
     AstNode 1 59 (NodeTypeExternBlock (Some [AstNode 1 51 (NodeTypeDirective ''c'' ''3'')])
       [attach_fn_decl])"

definition attach_fn_proto :: AstNode where
  "attach_fn_proto =
     AstNode 1 94 (NodeTypeFnProto (Some [AstNode 1 86 (NodeTypeDirective ''e'' ''5'')])
       FnProtoVisibModPub ''f'' []
       (AstNode 1 105 (NodeTypeType (AstNodeTypeTypePrimitive ''void''))))"

definition attach_tree :: AstNode where
  "attach_tree =
     AstNode 1 1 (NodeTypeRoot
       [attach_export, attach_use, attach_extern,
        AstNode 1 94 (NodeTypeFnDef attach_fn_proto (AstNode 1 105 (NodeTypeBlock [])))])"

text \<open>
  C7.  The directives collected in front of a declaration are attached to exactly that
  declaration, and the pending list is cleared by the attachment:
  \<^item> each of the four functions that attach (\<^verbatim>\<open>ast_parse_fn_proto\<close>,
    \<^verbatim>\<open>ast_parse_extern_block\<close>, \<^verbatim>\<open>ast_parse_root_export_decl\<close>, \<^verbatim>\<open>ast_parse_use\<close>) returns a
    node whose directive list is the list pending at its entry, and a context with no
    list pending;
  \<^item> \<^verbatim>\<open>ast_parse_directives\<close> returns \<open>directives\<close> and the index \<open>k\<close> exactly when the tokens
    from \<open>i\<close> to \<open>k\<close> are the run \<open>directives\<close> and token \<open>k\<close> is not a \<^verbatim>\<open>#\<close>;
  \<^item> in a round of the top-level loop, and of the loop of an extern block, the run read
    at \<open>i\<close> is the directive list of the declaration parsed at \<open>k\<close> behind it, and the loop
    goes on behind that declaration with the declaration appended and nothing pending
    (the context is the one the round began with);
  \<^item> in the tree of a successful parse \<^verbatim>\<open>Directive\<close> nodes occur in directive lists and
    nowhere else, and the declarations of the root are the only list the grammar above
    admits for the tokens, in which every declaration, at top level and in an extern
    block, carries the run of directives directly in front of it.
\<close>

theorem directive_attachment:
  "(ast_parse_fn_proto pc i m = Inr (Some n, j, pc') \<longrightarrow>
      attached_directives n = directive_list pc \<and> directive_list pc' = None) \<and>
   (ast_parse_extern_block pc i m = Inr (Some n, j, pc') \<longrightarrow>
      attached_directives n = directive_list pc \<and> directive_list pc' = None) \<and>
   (ast_parse_root_export_decl pc i m = Inr (Some n, j, pc') \<longrightarrow>
      attached_directives n = directive_list pc \<and> directive_list pc' = None) \<and>
   (ast_parse_use pc i m = Inr (Some n, j, pc') \<longrightarrow>
      attached_directives n = directive_list pc \<and> directive_list pc' = None) \<and>
   (ast_parse_directives pc i [] = Inr (directives, k) \<longleftrightarrow> directives_at pc i directives k) \<and>
   (directive_list pc = None \<and> ast_parse_directives pc i [] = Inr (directives, k) \<and>
    parse_top_level_decl E (pc\<lparr>directive_list := Some directives\<rparr>) k = Inr (Some n, j, pc') \<longrightarrow>
      attached_directives n = Some directives \<and> pc' = pc \<and>
      ast_parse_top_level_decls_loop (Suc fuel) E pc i top_level_decls =
        ast_parse_top_level_decls_loop fuel E pc j (top_level_decls @ [n])) \<and>
   (directive_list pc = None \<and> ast_parse_directives pc i [] = Inr (directives, k) \<and>
    kind pc k \<noteq> TokenIdRBrace \<and>
    ast_parse_fn_decl (pc\<lparr>directive_list := Some directives\<rparr>) k = Inr (n, j, pc') \<longrightarrow>
      attached_directives n = Some directives \<and> pc' = pc \<and>
      ast_parse_extern_block_loop pc i fn_decls = ast_parse_extern_block_loop pc j (fn_decls @ [n])) \<and>
   (ast_parse source toks = Inr root \<longrightarrow>
      directives_in_lists_only root \<and>
      (\<exists>decls. root = ast_create_node (NodeTypeRoot decls) (toks ! 0) \<and>
         top_level_decls_at \<lparr>buf = source, tokens = toks, directive_list = None\<rparr> 0 decls (length toks - 1) \<and>
         (\<forall>decls' j'. top_level_decls_at \<lparr>buf = source, tokens = toks, directive_list = None\<rparr> 0 decls' j' \<longrightarrow>
            decls' = decls)))"
proof -
  have "attached_directives n = directive_list pc \<and> directive_list pc' = None"
    if "ast_parse_fn_proto pc i m = Inr (Some n, j, pc')"
    using fn_proto_at_tree [OF ast_parse_fn_proto_at [OF that]] ast_parse_fn_proto_index [OF that]
    by simp
  moreover have "attached_directives n = directive_list pc \<and> directive_list pc' = None"
    if "ast_parse_extern_block pc i m = Inr (Some n, j, pc')"
    using decl_body_at_tree [OF ast_parse_extern_block_at [OF that]] ast_parse_extern_block_step [OF that]
    by (simp add: decl_step_def)
  moreover have "attached_directives n = directive_list pc \<and> directive_list pc' = None"
    if "ast_parse_root_export_decl pc i m = Inr (Some n, j, pc')"
    using decl_body_at_tree [OF ast_parse_root_export_decl_at [OF that]]
      ast_parse_root_export_decl_step [OF that]
    by (simp add: decl_step_def)
  moreover have "attached_directives n = directive_list pc \<and> directive_list pc' = None"
    if "ast_parse_use pc i m = Inr (Some n, j, pc')"
    using decl_body_at_tree [OF ast_parse_use_at [OF that]] ast_parse_use_step [OF that]
    by (simp add: decl_step_def)
  moreover note directives_at_iff [of pc i directives k]
  moreover have "attached_directives n = Some directives \<and> pc' = pc \<and>
      ast_parse_top_level_decls_loop (Suc fuel) E pc i top_level_decls =
        ast_parse_top_level_decls_loop fuel E pc j (top_level_decls @ [n])"
    if "directive_list pc = None" "ast_parse_directives pc i [] = Inr (directives, k)"
      "parse_top_level_decl E (pc\<lparr>directive_list := Some directives\<rparr>) k = Inr (Some n, j, pc')"
    using that by (rule top_level_step)
  moreover have "attached_directives n = Some directives \<and> pc' = pc \<and>
      ast_parse_extern_block_loop pc i fn_decls = ast_parse_extern_block_loop pc j (fn_decls @ [n])"
    if "directive_list pc = None" "ast_parse_directives pc i [] = Inr (directives, k)"
      "kind pc k \<noteq> TokenIdRBrace"
      "ast_parse_fn_decl (pc\<lparr>directive_list := Some directives\<rparr>) k = Inr (n, j, pc')"
    using that by (rule extern_step)
  moreover have "directives_in_lists_only root \<and>
      (\<exists>decls. root = ast_create_node (NodeTypeRoot decls) (toks ! 0) \<and>
         top_level_decls_at \<lparr>buf = source, tokens = toks, directive_list = None\<rparr> 0 decls (length toks - 1) \<and>
         (\<forall>decls' j'. top_level_decls_at \<lparr>buf = source, tokens = toks, directive_list = None\<rparr> 0 decls' j' \<longrightarrow>
            decls' = decls))"
    if "ast_parse source toks = Inr root"
  proof -
    from ast_parse_at [OF that] obtain decls j where
      root: "root = ast_create_node (NodeTypeRoot decls) (toks ! 0)"
      and decls: "top_level_decls_at \<lparr>buf = source, tokens = toks, directive_list = None\<rparr> 0 decls j"
      and j: "Suc j = length toks"
      by (auto elim!: root_at.cases)
    from j have "j = length toks - 1" by simp
    with root decls root_at_tree [OF ast_parse_at [OF that]] top_level_decls_at_unique [OF decls]
    show ?thesis by blast
  qed
  ultimately show ?thesis by blast
qed

text \<open>
  On the two inputs.  The grammar rejects the tree of the first input in which the two
  directives are dropped, and the tree of the second in which the directive of the
  function declared in the extern block is dropped.
\<close>

theorem directive_attachment_witness:
  "ast_parse_root_export_decl
     (attach_pc\<lparr>directive_list := Some [AstNode 1 1 (NodeTypeDirective ''a'' ''1'')]\<rparr>) 5 False =
     Inr (Some attach_export, 9, attach_pc) \<and>
   ast_parse_use
     (attach_pc\<lparr>directive_list := Some [AstNode 1 32 (NodeTypeDirective ''b'' ''2'')]\<rparr>) 14 False =
     Inr (Some attach_use, 17, attach_pc) \<and>
   ast_parse_extern_block
     (attach_pc\<lparr>directive_list := Some [AstNode 1 51 (NodeTypeDirective ''c'' ''3'')]\<rparr>) 22 False =
     Inr (Some attach_extern, 35, attach_pc) \<and>
   ast_parse_fn_proto
     (attach_pc\<lparr>directive_list := Some [AstNode 1 86 (NodeTypeDirective ''e'' ''5'')]\<rparr>) 40 False =
     Inr (Some attach_fn_proto, 45, attach_pc) \<and>
   directive_list attach_pc = None \<and>
   attached_directives attach_export = Some [AstNode 1 1 (NodeTypeDirective ''a'' ''1'')] \<and>
   attached_directives attach_use = Some [AstNode 1 32 (NodeTypeDirective ''b'' ''2'')] \<and>
   attached_directives attach_extern = Some [AstNode 1 51 (NodeTypeDirective ''c'' ''3'')] \<and>
   attached_directives attach_fn_proto = Some [AstNode 1 86 (NodeTypeDirective ''e'' ''5'')] \<and>
   ast_parse_directives attach_pc 0 [] = Inr ([AstNode 1 1 (NodeTypeDirective ''a'' ''1'')], 5) \<and>
   directives_at attach_pc 0 [AstNode 1 1 (NodeTypeDirective ''a'' ''1'')] 5 \<and>
   parse_top_level_decl (ast_parse_expression 48)
     (attach_pc\<lparr>directive_list := Some [AstNode 1 1 (NodeTypeDirective ''a'' ''1'')]\<rparr>) 5 =
     Inr (Some attach_export, 9, attach_pc) \<and>
   ast_parse_top_level_decls_loop (Suc 47) (ast_parse_expression 48) attach_pc 0 [] =
     ast_parse_top_level_decls_loop 47 (ast_parse_expression 48) attach_pc 9 [attach_export] \<and>
   ast_parse_directives attach_pc 24 [] = Inr ([AstNode 1 68 (NodeTypeDirective ''d'' ''4'')], 29) \<and>
   ast_parse_fn_decl
     (attach_pc\<lparr>directive_list := Some [AstNode 1 68 (NodeTypeDirective ''d'' ''4'')]\<rparr>) 29 =
     Inr (attach_fn_decl, 34, attach_pc) \<and>
   attached_directives attach_fn_decl = Some [AstNode 1 68 (NodeTypeDirective ''d'' ''4'')] \<and>
   ast_parse_extern_block_loop attach_pc 24 [] = ast_parse_extern_block_loop attach_pc 34 [attach_fn_decl] \<and>
   ast_parse attach_source attach_tokens = Inr attach_tree \<and>
   directives_in_lists_only attach_tree \<and>
   top_level_decls_at attach_pc 0
     [attach_export, attach_use, attach_extern,
      AstNode 1 94 (NodeTypeFnDef attach_fn_proto (AstNode 1 105 (NodeTypeBlock [])))] 47 \<and>
   ast_parse uses_source uses_tokens =
     Inr (AstNode 1 1 (NodeTypeRoot
       [AstNode 1 1 (NodeTypeUse ''a'' (Some [])),
        AstNode 1 26 (NodeTypeUse ''b''
          (Some [AstNode 1 10 (NodeTypeDirective ''x'' ''1''),
                 AstNode 1 18 (NodeTypeDirective ''y'' ''2'')]))])) \<and>
   \<not> top_level_decls_at uses_pc 0
     [AstNode 1 1 (NodeTypeUse ''a'' (Some [])), AstNode 1 26 (NodeTypeUse ''b'' (Some []))] 16 \<and>
   \<not> top_level_decls_at attach_pc 0
     [attach_export, attach_use,
      AstNode 1 59 (NodeTypeExternBlock (Some [AstNode 1 51 (NodeTypeDirective ''c'' ''3'')])
        [AstNode 1 76 (NodeTypeFnDecl
           (AstNode 1 76 (NodeTypeFnProto (Some []) FnProtoVisibModPrivate ''g'' []
              (AstNode 1 82 (NodeTypeType (AstNodeTypeTypePrimitive ''void''))))))]),
      AstNode 1 94 (NodeTypeFnDef attach_fn_proto (AstNode 1 105 (NodeTypeBlock [])))] 47"
proof -
  have e: "ast_parse_root_export_decl
     (attach_pc\<lparr>directive_list := Some [AstNode 1 1 (NodeTypeDirective ''a'' ''1'')]\<rparr>) 5 False =
     Inr (Some attach_export, 9, attach_pc)"
    by code_simp
  have u: "ast_parse_use
     (attach_pc\<lparr>directive_list := Some [AstNode 1 32 (NodeTypeDirective ''b'' ''2'')]\<rparr>) 14 False =
     Inr (Some attach_use, 17, attach_pc)"
    by code_simp
  have x: "ast_parse_extern_block
     (attach_pc\<lparr>directive_list := Some [AstNode 1 51 (NodeTypeDirective ''c'' ''3'')]\<rparr>) 22 False =
     Inr (Some attach_extern, 35, attach_pc)"
    by code_simp
  have f: "ast_parse_fn_proto
     (attach_pc\<lparr>directive_list := Some [AstNode 1 86 (NodeTypeDirective ''e'' ''5'')]\<rparr>) 40 False =
     Inr (Some attach_fn_proto, 45, attach_pc)"
    by code_simp
  have d0: "ast_parse_directives attach_pc 0 [] = Inr ([AstNode 1 1 (NodeTypeDirective ''a'' ''1'')], 5)"
    by code_simp
  have t0: "parse_top_level_decl (ast_parse_expression 48)
     (attach_pc\<lparr>directive_list := Some [AstNode 1 1 (NodeTypeDirective ''a'' ''1'')]\<rparr>) 5 =
     Inr (Some attach_export, 9, attach_pc)"
    by code_simp
  have d24: "ast_parse_directives attach_pc 24 [] = Inr ([AstNode 1 68 (NodeTypeDirective ''d'' ''4'')], 29)"
    by code_simp
  have k29: "kind attach_pc 29 \<noteq> TokenIdRBrace"
    by code_simp
  have c29: "ast_parse_fn_decl
     (attach_pc\<lparr>directive_list := Some [AstNode 1 68 (NodeTypeDirective ''d'' ''4'')]\<rparr>) 29 =
     Inr (attach_fn_decl, 34, attach_pc)"
    by code_simp
  have none: "directive_list attach_pc = None"
    by (simp add: attach_pc_def)
  have t: "ast_parse attach_source attach_tokens = Inr attach_tree"
    by code_simp
  have len: "length attach_tokens - 1 = 47" "length uses_tokens - 1 = 16"
    by code_simp+
  have s: "ast_parse uses_source uses_tokens =
     Inr (AstNode 1 1 (NodeTypeRoot
       [AstNode 1 1 (NodeTypeUse ''a'' (Some [])),
        AstNode 1 26 (NodeTypeUse ''b''
          (Some [AstNode 1 10 (NodeTypeDirective ''x'' ''1''),
                 AstNode 1 18 (NodeTypeDirective ''y'' ''2'')]))]))"
    by code_simp
  note proto = directive_attachment [THEN conjunct1, rule_format]
  note extern = directive_attachment [THEN conjunct2, THEN conjunct1, rule_format]
  note export = directive_attachment [THEN conjunct2, THEN conjunct2, THEN conjunct1, rule_format]
  note use = directive_attachment [THEN conjunct2, THEN conjunct2, THEN conjunct2, THEN conjunct1,
      rule_format]
  note run = directive_attachment [THEN conjunct2, THEN conjunct2, THEN conjunct2, THEN conjunct2,
      THEN conjunct1]
  note top = directive_attachment [THEN conjunct2, THEN conjunct2, THEN conjunct2, THEN conjunct2,
      THEN conjunct2, THEN conjunct1, rule_format]
  note child = directive_attachment [THEN conjunct2, THEN conjunct2, THEN conjunct2, THEN conjunct2,
      THEN conjunct2, THEN conjunct2, THEN conjunct1, rule_format]
  note whole = directive_attachment [THEN conjunct2, THEN conjunct2, THEN conjunct2, THEN conjunct2,
      THEN conjunct2, THEN conjunct2, THEN conjunct2, rule_format]
  from export [OF e]
  have 1: "attached_directives attach_export = Some [AstNode 1 1 (NodeTypeDirective ''a'' ''1'')]"
    by simp
  from use [OF u]
  have 2: "attached_directives attach_use = Some [AstNode 1 32 (NodeTypeDirective ''b'' ''2'')]"
    by simp
  from extern [OF x]
  have 3: "attached_directives attach_extern = Some [AstNode 1 51 (NodeTypeDirective ''c'' ''3'')]"
    by simp
  from proto [OF f]
  have 4: "attached_directives attach_fn_proto = Some [AstNode 1 86 (NodeTypeDirective ''e'' ''5'')]"
    by simp
  from run [THEN iffD1, OF d0]
  have 5: "directives_at attach_pc 0 [AstNode 1 1 (NodeTypeDirective ''a'' ''1'')] 5" .
  from top [OF conjI [OF none conjI [OF d0 t0]], of 47 "[]"]
  have 6: "ast_parse_top_level_decls_loop (Suc 47) (ast_parse_expression 48) attach_pc 0 [] =
     ast_parse_top_level_decls_loop 47 (ast_parse_expression 48) attach_pc 9 [attach_export]"
    by (simp del: ast_parse_top_level_decls_loop.simps)
  from child [OF conjI [OF none conjI [OF d24 conjI [OF k29 c29]]], of "[]"]
  have 7: "attached_directives attach_fn_decl = Some [AstNode 1 68 (NodeTypeDirective ''d'' ''4'')]"
    "ast_parse_extern_block_loop attach_pc 24 [] = ast_parse_extern_block_loop attach_pc 34 [attach_fn_decl]"
    by simp_all
  from whole [OF t] have 8: "directives_in_lists_only attach_tree"
    by (rule conjunct1)
  from whole [OF t, folded attach_pc_def, THEN conjunct2] obtain decls where
    root: "attach_tree = ast_create_node (NodeTypeRoot decls) (attach_tokens ! 0)"
    and decls: "top_level_decls_at attach_pc 0 decls (length attach_tokens - 1)"
    and only_decls: "\<And>decls' j'. top_level_decls_at attach_pc 0 decls' j' \<Longrightarrow> decls' = decls"
    by blast
  from root [symmetric] have eq: "decls = [attach_export, attach_use, attach_extern,
      AstNode 1 94 (NodeTypeFnDef attach_fn_proto (AstNode 1 105 (NodeTypeBlock [])))]"
    by (simp add: attach_tree_def ast_create_node_def)
  from eq decls len(1)
  have 9: "top_level_decls_at attach_pc 0
     [attach_export, attach_use, attach_extern,
      AstNode 1 94 (NodeTypeFnDef attach_fn_proto (AstNode 1 105 (NodeTypeBlock [])))] 47"
    by simp
  have 10: "\<not> top_level_decls_at uses_pc 0
     [AstNode 1 1 (NodeTypeUse ''a'' (Some [])), AstNode 1 26 (NodeTypeUse ''b'' (Some []))] 16"
  proof
    assume dropped: "top_level_decls_at uses_pc 0
       [AstNode 1 1 (NodeTypeUse ''a'' (Some [])), AstNode 1 26 (NodeTypeUse ''b'' (Some []))] 16"
    from whole [OF s, folded uses_pc_def, THEN conjunct2] obtain decls where
      root: "AstNode 1 1 (NodeTypeRoot
         [AstNode 1 1 (NodeTypeUse ''a'' (Some [])),
          AstNode 1 26 (NodeTypeUse ''b''
            (Some [AstNode 1 10 (NodeTypeDirective ''x'' ''1''),
                   AstNode 1 18 (NodeTypeDirective ''y'' ''2'')]))]) =
         ast_create_node (NodeTypeRoot decls) (uses_tokens ! 0)"
      and only: "\<And>decls' j'. top_level_decls_at uses_pc 0 decls' j' \<Longrightarrow> decls' = decls"
      by blast
    from root [symmetric] only [OF dropped] show False
      by (simp add: ast_create_node_def)
  qed
  have 11: "\<not> top_level_decls_at attach_pc 0
     [attach_export, attach_use,
      AstNode 1 59 (NodeTypeExternBlock (Some [AstNode 1 51 (NodeTypeDirective ''c'' ''3'')])
        [AstNode 1 76 (NodeTypeFnDecl
           (AstNode 1 76 (NodeTypeFnProto (Some []) FnProtoVisibModPrivate ''g'' []
              (AstNode 1 82 (NodeTypeType (AstNodeTypeTypePrimitive ''void''))))))]),
      AstNode 1 94 (NodeTypeFnDef attach_fn_proto (AstNode 1 105 (NodeTypeBlock [])))] 47"
  proof
    assume missing: "top_level_decls_at attach_pc 0
     [attach_export, attach_use,
      AstNode 1 59 (NodeTypeExternBlock (Some [AstNode 1 51 (NodeTypeDirective ''c'' ''3'')])
        [AstNode 1 76 (NodeTypeFnDecl
           (AstNode 1 76 (NodeTypeFnProto (Some []) FnProtoVisibModPrivate ''g'' []
              (AstNode 1 82 (NodeTypeType (AstNodeTypeTypePrimitive ''void''))))))]),
      AstNode 1 94 (NodeTypeFnDef attach_fn_proto (AstNode 1 105 (NodeTypeBlock [])))] 47"
    from only_decls [OF missing] eq show False
      by (simp add: attach_extern_def attach_fn_decl_def)
  qed
  from e u x f none 1 2 3 4 d0 5 6 t0 d24 c29 7 t 8 9 s 10 11 show ?thesis
    by (intro conjI)
qed

end
